(* ===== verification/Kernel_Prelude.thy ===== *)
theory Kernel_Prelude
  imports Main "HOL-Library.Word"
begin

unbundle bit_operations_syntax

text \<open>
  Shared vocabulary of the development: the C integer types as words, the faults a kernel
  routine can run into, sequencing of fallible routines, the page-alignment macros of
  \<^verbatim>\<open>kernel/include/memory/vmm.h\<close>, and the generic lemmas on words, loops and
  null-terminated pointer chains that the component theories share.
\<close>

section \<open>Integer types and results\<close>

type_synonym u8 = "8 word"
type_synonym u16 = "16 word"
type_synonym u32 = "32 word"
type_synonym u64 = "64 word"

text \<open>
  What can stop a routine: a null pointer is dereferenced, an array is indexed out of
  range, a division by zero traps, a lock is taken that nobody will release (the CPU spins
  for ever), a loop never ends, the task blocks on a mutex that is taken, the kernel panics. A pointer is a \<^typ>\<open>u64\<close> and \<open>NULL\<close> is \<open>0\<close>.
\<close>

datatype fault = NullDeref | OutOfBounds | DivideError | SpinForever | Diverges | Blocks | KPanic string

type_synonym 'a res = "fault + 'a"

primrec bind_res :: "'a res \<Rightarrow> ('a \<Rightarrow> 'b res) \<Rightarrow> 'b res" where
  "bind_res (Inl e) f = Inl e"
| "bind_res (Inr x) f = f x"

named_theorems kernel_simps \<open>rewrite rules that unfold one step of a kernel routine\<close>

lemma bind_res_Inr_iff [simp]:
  "bind_res m f = Inr y \<longleftrightarrow> (\<exists>x. m = Inr x \<and> f x = Inr y)"
  by (cases m) auto

lemma bind_res_Inl_iff:
  "bind_res m f = Inl e \<longleftrightarrow> m = Inl e \<or> (\<exists>x. m = Inr x \<and> f x = Inl e)"
  by (cases m) auto

lemma bind_res_cong [fundef_cong]:
  "m = m' \<Longrightarrow> (\<And>x. m' = Inr x \<Longrightarrow> f x = f' x) \<Longrightarrow> bind_res m f = bind_res m' f'"
  by (cases m') auto

lemma bind_res_assoc: "bind_res (bind_res m f) g = bind_res m (\<lambda>x. bind_res (f x) g)"
  by (cases m) auto

text \<open>
  A loop that may run for ever is a partial function whose result is \<open>None\<close> when it does not return.
\<close>

definition converge :: "'a res option \<Rightarrow> 'a res" where
  "converge r = (case r of None \<Rightarrow> Inl Diverges | Some x \<Rightarrow> x)"

lemma converge_simps [simp]: "converge None = Inl Diverges" "converge (Some x) = x"
  by (simp_all add: converge_def)

text \<open>A \<^verbatim>\<open>for\<close> loop over given values whose body may fail, and the rule to reason about it.\<close>

primrec for_each :: "('b \<Rightarrow> 's \<Rightarrow> 's res) \<Rightarrow> 'b list \<Rightarrow> 's \<Rightarrow> 's res" where
  "for_each f [] s = Inr s"
| "for_each f (x # xs) s = bind_res (f x s) (for_each f xs)"

lemma for_each_append: "for_each f (xs @ ys) s = bind_res (for_each f xs s) (for_each f ys)"
proof (induction xs arbitrary: s)
  case (Cons x xs)
  then show ?case by (cases "f x s") simp_all
qed simp

lemma for_each_inv:
  assumes "\<And>k s. k < length xs \<Longrightarrow> I k s \<Longrightarrow> \<exists>s'. f (xs ! k) s = Inr s' \<and> I (Suc k) s'" and "I 0 s"
  shows "\<exists>s'. for_each f xs s = Inr s' \<and> I (length xs) s'"
  using assms
proof (induction xs arbitrary: s rule: rev_induct)
  case (snoc x xs)
  have "\<exists>s'. for_each f xs s = Inr s' \<and> I (length xs) s'"
  proof (rule snoc.IH)
    fix k s assume "k < length xs" and "I k s"
    with snoc.prems(1) [of k s] show "\<exists>s'. f (xs ! k) s = Inr s' \<and> I (Suc k) s'"
      by (simp add: nth_append)
  qed (rule snoc.prems(2))
  then obtain s1 where s1: "for_each f xs s = Inr s1" "I (length xs) s1" by blast
  with snoc.prems(1) [of "length xs" s1] show ?case by (auto simp: for_each_append)
qed simp

section \<open>Words\<close>

abbreviation PAGE_SIZE :: u64 where "PAGE_SIZE \<equiv> 4096"

definition PAGE_ALIGN_DOWN :: "u64 \<Rightarrow> u64" where
  "PAGE_ALIGN_DOWN addr = addr AND NOT 0xFFF"

definition PAGE_ALIGN_UP :: "u64 \<Rightarrow> u64" where
  "PAGE_ALIGN_UP addr = (addr + 0xFFF) AND NOT 0xFFF"

lemma unat_take_bit_mod: "unat (take_bit n (x :: 'a::len word)) = unat x mod 2 ^ n"
  using unsigned_take_bit_eq [of n x, where 'a = nat] by (simp only: take_bit_eq_mod)

lemma unat_and_mask: "unat ((x :: 'a::len word) AND mask n) = unat x mod 2 ^ n"
  by (simp flip: take_bit_eq_mask add: unat_take_bit_mod)

lemma and_4095: "(x :: u64) AND 4095 = take_bit 12 x"
  by (simp add: take_bit_eq_mask mask_eq_exp_minus_1)

lemma and_15: "(x :: u64) AND 15 = take_bit 4 x"
  by (simp add: take_bit_eq_mask mask_eq_exp_minus_1)

lemma and_511: "(x :: u64) AND 511 = take_bit 9 x"
  by (simp add: take_bit_eq_mask mask_eq_exp_minus_1)

lemma unat_and_4095: "unat ((x :: u64) AND 4095) = unat x mod 4096"
  by (simp add: and_4095 unat_take_bit_mod del: take_bit_eq_mod)

lemma unat_and_15: "unat ((x :: u64) AND 15) = unat x mod 16"
  by (simp add: and_15 unat_take_bit_mod del: take_bit_eq_mod)

lemma unat_and_511: "unat ((x :: u64) AND 511) = unat x mod 512"
  by (simp add: and_511 unat_take_bit_mod del: take_bit_eq_mod)

lemma and_not_eq_diff: "(x :: 'a::len word) AND NOT m = x - (x AND m)"
  by (simp add: bit.conj_disj_distrib disjunctive_diff_eq_and_not
      word_bw_comms(1) word_bw_lcs(1))

lemma and_neg_4096: "(x :: u64) AND - 4096 = x - (x AND 4095)"
  using and_not_eq_diff [of x 4095] by simp

lemma and_neg_16: "(x :: u64) AND - 16 = x - (x AND 15)"
  using and_not_eq_diff [of x 15] by simp

lemma unat_and_neg_4096: "unat ((x :: u64) AND - 4096) = 4096 * (unat x div 4096)"
proof -
  have "x AND 4095 \<le> x" by (simp add: word_and_le2)
  then have "unat (x - (x AND 4095)) = unat x - unat x mod 4096"
    by (simp add: unat_sub unat_and_4095)
  then show ?thesis by (simp add: and_neg_4096 minus_mod_eq_mult_div)
qed

lemma unat_and_neg_16: "unat ((x :: u64) AND - 16) = 16 * (unat x div 16)"
proof -
  have "x AND 15 \<le> x" by (simp add: word_and_le2)
  then have "unat (x - (x AND 15)) = unat x - unat x mod 16"
    by (simp add: unat_sub unat_and_15)
  then show ?thesis by (simp add: and_neg_16 minus_mod_eq_mult_div)
qed

lemma unat_page_align_down: "unat (PAGE_ALIGN_DOWN x) = 4096 * (unat x div 4096)"
  by (simp add: PAGE_ALIGN_DOWN_def unat_and_neg_4096)

lemma unat_add_no_overflow:
  "unat (a :: 'a::len word) + unat b < 2 ^ LENGTH('a) \<Longrightarrow> unat (a + b) = unat a + unat b"
  by (simp add: unat_word_ariths)

lemma unat_mult_no_overflow:
  "unat (a :: 'a::len word) * unat b < 2 ^ LENGTH('a) \<Longrightarrow> unat (a * b) = unat a * unat b"
  by (simp add: unat_word_ariths)

lemma unat_page_align_up:
  assumes "unat x + 4095 < 2 ^ 64"
  shows "unat (PAGE_ALIGN_UP x) = 4096 * ((unat x + 4095) div 4096)"
proof -
  have "unat (x + 0xFFF) = unat x + 4095"
    using assms by (simp add: unat_add_no_overflow)
  then show ?thesis by (simp add: PAGE_ALIGN_UP_def unat_and_neg_4096)
qed

lemma word_eq_unat: "(a :: 'a::len word) = b \<longleftrightarrow> unat a = unat b"
  by (auto intro: unsigned_word_eqI)

lemma unat_u64_less: "unat (x :: u64) < 2 ^ 64"
  using unsigned_less [of x, where 'a = nat] by simp

text \<open>A \<^verbatim>\<open>for (i = a; i < n; i++)\<close> loop over words makes progress.\<close>

lemma word_step_Suc:
  fixes i n :: "'a::len word"
  assumes "i < n"
  shows "unat (i + 1) = Suc (unat i)"
  by (metis ab_left_minus add.commute add_diff_cancel_left' assms
      linorder_not_less unatSuc word_order.extremum)

lemma word_step_measure [simp]:
  fixes i n :: "'a::len word"
  shows "i < n \<Longrightarrow> unat n - unat (i + 1) < unat n - unat i"
  by (simp add: word_step_Suc word_less_nat_alt)

text \<open>\<^verbatim>\<open>__builtin_ctz\<close>: the position of the lowest set bit.\<close>

definition builtin_ctz :: "'a::len word \<Rightarrow> nat" where
  "builtin_ctz w = length (takeWhile (\<lambda>b. \<not> bit w b) [0..<LENGTH('a)])"

lemma builtin_ctz_less:
  assumes "w \<noteq> 0"
  shows "builtin_ctz (w :: 'a::len word) < LENGTH('a)" and "bit w (builtin_ctz w)"
    and "b < builtin_ctz w \<Longrightarrow> \<not> bit w b"
proof -
  let ?xs = "[0..<LENGTH('a)]"
  from assms obtain n where n: "bit w n" by (auto simp: bit_eq_iff)
  then have "n < LENGTH('a)" using bit_imp_le_length by blast
  with n have "takeWhile (\<lambda>b. \<not> bit w b) ?xs \<noteq> ?xs"
    by (auto simp: takeWhile_eq_all_conv)
  then have len: "builtin_ctz w < length ?xs"
    unfolding builtin_ctz_def
    by (metis le_neq_implies_less length_takeWhile_le takeWhile_eq_take take_all_iff order_refl)
  then show "builtin_ctz w < LENGTH('a)" by simp
  from len have "\<not> \<not> bit w (?xs ! builtin_ctz w)"
    unfolding builtin_ctz_def by (rule nth_length_takeWhile)
  with len show "bit w (builtin_ctz w)" by simp
  assume b: "b < builtin_ctz w"
  then have "\<not> bit w (takeWhile (\<lambda>b. \<not> bit w b) ?xs ! b)"
    unfolding builtin_ctz_def using nth_mem set_takeWhileD by fastforce
  with b len show "\<not> bit w b"
    unfolding builtin_ctz_def by (simp add: takeWhile_nth)
qed

section \<open>Null-terminated chains of pointers\<close>

text \<open>
  \<open>lseg nxt p xs q\<close>: following the link field \<open>nxt\<close> from pointer \<open>p\<close> visits exactly the
  objects \<open>xs\<close>, none of them null, and arrives at \<open>q\<close>.
\<close>

primrec lseg :: "(u64 \<Rightarrow> u64) \<Rightarrow> u64 \<Rightarrow> u64 list \<Rightarrow> u64 \<Rightarrow> bool" where
  "lseg nxt p [] q \<longleftrightarrow> p = q"
| "lseg nxt p (x # xs) q \<longleftrightarrow> p = x \<and> x \<noteq> 0 \<and> lseg nxt (nxt x) xs q"

abbreviation chain :: "(u64 \<Rightarrow> u64) \<Rightarrow> u64 \<Rightarrow> u64 list \<Rightarrow> bool" where
  "chain nxt p xs \<equiv> lseg nxt p xs 0"

lemma chain_null [simp]: "chain nxt 0 xs \<longleftrightarrow> xs = []"
  by (cases xs) auto

lemma chain_nonnull: "p \<noteq> 0 \<Longrightarrow> chain nxt p xs \<longleftrightarrow> (\<exists>ys. xs = p # ys \<and> chain nxt (nxt p) ys)"
  by (cases xs) auto

lemma lseg_append [simp]:
  "lseg nxt p (xs @ ys) q \<longleftrightarrow> (\<exists>r. lseg nxt p xs r \<and> lseg nxt r ys q)"
  by (induction xs arbitrary: p) auto

lemma lseg_upd [simp]: "a \<notin> set xs \<Longrightarrow> lseg (nxt(a := v)) p xs q \<longleftrightarrow> lseg nxt p xs q"
  by (induction xs arbitrary: p) auto

lemma lseg_cong:
  "(\<And>x. x \<in> set xs \<Longrightarrow> nxt x = nxt' x) \<Longrightarrow> lseg nxt p xs q \<longleftrightarrow> lseg nxt' p xs q"
  by (induction xs arbitrary: p) auto

lemma chain_unique: "chain nxt p xs \<Longrightarrow> chain nxt p ys \<Longrightarrow> xs = ys"
proof (induction xs arbitrary: p ys)
  case (Cons x xs)
  then show ?case by (cases ys) auto
qed auto

lemma lseg_notnull: "lseg nxt p xs q \<Longrightarrow> 0 \<notin> set xs"
  by (induction xs arbitrary: p) auto

lemma chain_distinct: "chain nxt p xs \<Longrightarrow> distinct xs"
proof (induction xs arbitrary: p)
  case (Cons x xs)
  have "x \<notin> set xs"
  proof
    assume "x \<in> set xs"
    then obtain ys zs where "xs = ys @ x # zs" by (auto simp: in_set_conv_decomp)
    with Cons.prems have "chain nxt (nxt x) zs" "chain nxt (nxt x) (ys @ x # zs)" by auto
    then have "zs = ys @ x # zs" by (rule chain_unique)
    then show False by (metis append_self_conv2 append_eq_append_conv2 list.distinct(1)
          append_Cons append_is_Nil_conv self_append_conv)
  qed
  with Cons show ?case by auto
qed simp

lemma lseg_last: "lseg nxt p xs q \<Longrightarrow> xs \<noteq> [] \<Longrightarrow> nxt (last xs) = q"
  by (induction xs arbitrary: p) auto

lemma lseg_retarget:
  "lseg nxt p xs q \<Longrightarrow> distinct xs \<Longrightarrow> xs \<noteq> [] \<Longrightarrow> lseg (nxt(last xs := r)) p xs r"
proof (induction xs arbitrary: p)
  case (Cons x xs)
  show ?case
  proof (cases "xs = []")
    case False
    then have "x \<noteq> last xs" using Cons.prems(2) by auto
    with Cons False show ?thesis by auto
  qed (use Cons in auto)
qed simp

lemma chain_snoc:
  assumes "chain nxt p xs" "xs \<noteq> []" "y \<notin> set xs" "y \<noteq> 0"
  shows "chain ((nxt(y := 0))(last xs := y)) p (xs @ [y])"
proof -
  have "distinct xs" using assms(1) by (rule chain_distinct)
  then have "lseg (nxt(last xs := y)) p xs y" using lseg_retarget assms(1,2) by blast
  moreover have "last xs \<noteq> y" using assms(2,3) by (metis last_in_set)
  moreover have "(nxt(y := 0))(last xs := y) = (nxt(last xs := y))(y := 0)"
    using calculation(2) by (intro fun_upd_twist) simp
  ultimately have "lseg ((nxt(y := 0))(last xs := y)) p xs y" using assms(3) by (simp del: fun_upd_apply)
  then show ?thesis using assms(4) \<open>last xs \<noteq> y\<close> by (auto simp del: fun_upd_apply simp: fun_upd_def)
qed

lemma chain_head: "chain nxt p xs \<Longrightarrow> p = (if xs = [] then 0 else hd xs)"
  by (cases xs) auto

end
