(* ===== verification/Atomic_Lock.thy ===== *)
theory Atomic_Lock
  imports Kernel_Prelude
begin

text \<open>
  The ticket spinlock of \<^verbatim>\<open>kernel/atomic/atomic.c\<close>. The first part gives the three routines as
  functions of the lock word pair, as one CPU runs them with nobody else interfering: this
  is what the critical sections of the other components call. The second part gives the
  same routines as interleaved atomic steps of up to 32 CPUs (the size of
  \<^verbatim>\<open>cpu_table\<close>) and proves mutual exclusion, ticket order and absence of deadlock,
  with 32-bit tickets that wrap around. This is what justifies treating a critical section as atomic.
\<close>

section \<open>The lock and its routines\<close>

record spinlock =
  lock_ticket :: u32
  lock_current :: u32
  lock_last_cpu :: int

definition spinlock_init :: spinlock where
  "spinlock_init = \<lparr>lock_ticket = 0, lock_current = 0, lock_last_cpu = -1\<rparr>"

text \<open>
  What a routine knows of the CPU it runs on: the global \<^verbatim>\<open>g_lock_enabled\<close> flag and what
  \<^verbatim>\<open>get_cpu()\<close> returns (\<open>None\<close> for a null context, else the CPU's id).
\<close>

record cpu_env =
  g_lock_enabled :: bool
  this_cpu :: "nat option"

text \<open>
  \<open>spin_lock\<close>: take a ticket, wait until it is served, record the owner. With no other CPU
  running, a ticket that is not served at once is never served.
\<close>

definition spin_lock :: "cpu_env \<Rightarrow> spinlock \<Rightarrow> spinlock res" where
  "spin_lock env l =
     (if \<not> g_lock_enabled env then Inr l
      else
        let my_ticket = lock_ticket l;
            l1 = l\<lparr>lock_ticket := lock_ticket l + 1\<rparr>
        in if lock_current l1 \<noteq> my_ticket then Inl SpinForever
           else (case this_cpu env of
                   None \<Rightarrow> Inl NullDeref
                 | Some c \<Rightarrow> Inr (l1\<lparr>lock_last_cpu := int c\<rparr>)))"

definition spin_unlock :: "cpu_env \<Rightarrow> spinlock \<Rightarrow> spinlock" where
  "spin_unlock env l =
     (if \<not> g_lock_enabled env then l
      else
        let l1 = l\<lparr>lock_last_cpu := -1\<rparr>;
            next = lock_current l1 + 1
        in l1\<lparr>lock_current := next\<rparr>)"

text \<open>\<open>spin_trylock\<close> does not look at \<^verbatim>\<open>g_lock_enabled\<close>.\<close>

definition spin_trylock :: "cpu_env \<Rightarrow> spinlock \<Rightarrow> (bool \<times> spinlock) res" where
  "spin_trylock env l =
     (let current_ticket = lock_ticket l;
          next_ticket = current_ticket + 1
      in if lock_current l \<noteq> current_ticket then Inr (False, l)
         else if lock_ticket l = current_ticket
         then (case this_cpu env of
                 None \<Rightarrow> Inl NullDeref
               | Some c \<Rightarrow> Inr (True, l\<lparr>lock_ticket := next_ticket, lock_last_cpu := int c\<rparr>))
         else Inr (False, l))"

section \<open>The lock as its clients use it\<close>

text \<open>A lock is free when every ticket handed out has been served.\<close>

definition lock_free :: "cpu_env \<Rightarrow> spinlock \<Rightarrow> bool" where
  "lock_free env l \<longleftrightarrow> g_lock_enabled env \<longrightarrow> this_cpu env \<noteq> None \<and> lock_ticket l = lock_current l"

definition lock_held :: "cpu_env \<Rightarrow> spinlock \<Rightarrow> bool" where
  "lock_held env l \<longleftrightarrow> g_lock_enabled env \<longrightarrow> this_cpu env \<noteq> None \<and> lock_ticket l = lock_current l + 1"

text \<open>
  The interface a critical section relies on: a free lock is acquired at once, a held one
  never is, and releasing a held lock frees it.
\<close>

locale lock_discipline =
  fixes acquire :: "'l \<Rightarrow> 'l res"
    and release :: "'l \<Rightarrow> 'l"
    and free :: "'l \<Rightarrow> bool"
    and held :: "'l \<Rightarrow> bool"
  assumes acquire_free: "free l \<Longrightarrow> \<exists>l'. acquire l = Inr l' \<and> held l'"
    and release_held: "held l \<Longrightarrow> free (release l)"
begin

lemma acquire_release:
  assumes "free l"
  obtains l' where "acquire l = Inr l'" and "held l'" and "free (release l')"
  using assms acquire_free release_held by blast

text \<open>A body run between acquire and release is run exactly once and leaves the lock free.\<close>

lemma bracket:
  assumes "free l"
  shows "\<exists>l'. bind_res (acquire l) (\<lambda>k. Inr (f k, release k)) = Inr (f l', release l')
            \<and> free (release l')"
proof -
  from assms obtain k where "acquire l = Inr k" and "free (release k)"
    by (rule acquire_release)
  then show ?thesis by (intro exI [of _ k]) simp
qed

lemma two_sections:
  assumes "free l"
  shows "\<exists>l'. bind_res (acquire l) (\<lambda>k. acquire (release k)) = Inr l' \<and> held l'"
proof -
  from assms obtain k where "acquire l = Inr k" and "free (release k)"
    by (rule acquire_release)
  then show ?thesis using acquire_free by auto
qed

end

interpretation spin: lock_discipline "spin_lock env" "spin_unlock env" "lock_free env" "lock_held env"
  for env
  by unfold_locales
    (auto simp: spin_lock_def spin_unlock_def lock_free_def lock_held_def Let_def)

text \<open>The value of an uncontended acquisition, for evaluating whole routines.\<close>

definition spin_locked :: "cpu_env \<Rightarrow> spinlock \<Rightarrow> spinlock" where
  "spin_locked env l =
     (if g_lock_enabled env
      then l\<lparr>lock_ticket := lock_ticket l + 1, lock_last_cpu := int (the (this_cpu env))\<rparr>
      else l)"

lemma spin_lock_free [kernel_simps]:
  "lock_free env l \<Longrightarrow> spin_lock env l = Inr (spin_locked env l)"
  by (auto simp: spin_lock_def spin_locked_def lock_free_def Let_def)

lemma spin_lock_InrD: "spin_lock env l = Inr l' \<Longrightarrow> lock_free env l \<and> l' = spin_locked env l"
  by (auto simp: spin_lock_def spin_locked_def lock_free_def Let_def split: if_splits option.splits)

lemma spin_unlock_locked [simp]:
  "lock_free env l \<Longrightarrow> lock_free env (spin_unlock env (spin_locked env l))"
  by (auto simp: spin_unlock_def spin_locked_def lock_free_def Let_def)

text \<open>
  A lock nobody holds can be taken from every CPU whose per-CPU context is set up.
\<close>

definition lock_idle :: "spinlock \<Rightarrow> bool" where
  "lock_idle l \<longleftrightarrow> lock_ticket l = lock_current l"

definition env_ok :: "cpu_env \<Rightarrow> bool" where
  "env_ok env \<longleftrightarrow> g_lock_enabled env \<longrightarrow> this_cpu env \<noteq> None"

lemma lock_idle_free: "lock_idle l \<Longrightarrow> env_ok env \<Longrightarrow> lock_free env l"
  by (simp add: lock_idle_def env_ok_def lock_free_def)

lemma lock_idle_relock [simp]: "lock_idle (spin_unlock env (spin_locked env l)) = lock_idle l"
  by (simp add: lock_idle_def spin_unlock_def spin_locked_def Let_def)

lemma spin_lock_contended:
  "g_lock_enabled env \<Longrightarrow> lock_ticket l \<noteq> lock_current l \<Longrightarrow> spin_lock env l = Inl SpinForever"
  by (auto simp: spin_lock_def Let_def)

lemma spin_trylock_free:
  "lock_ticket l = lock_current l \<Longrightarrow> this_cpu env = Some c \<Longrightarrow>
   spin_trylock env l =
     Inr (True, l\<lparr>lock_ticket := lock_ticket l + 1, lock_last_cpu := int c\<rparr>)"
  by (simp add: spin_trylock_def Let_def)

lemma spin_trylock_busy: "lock_ticket l \<noteq> lock_current l \<Longrightarrow> spin_trylock env l = Inr (False, l)"
  by (simp add: spin_trylock_def Let_def)

section \<open>Interleaved execution\<close>

text \<open>
  Where a CPU is inside the routines. \<open>Spinning t\<close> has drawn ticket \<open>t\<close>; \<open>Releasing n\<close> has computed the
  next value of \<^verbatim>\<open>current\<close> and not stored it yet; \<open>TryLoaded\<close> and \<open>TryChecked\<close> are the
  points of \<open>spin_trylock\<close> before the two comparisons.
\<close>

datatype lock_pc =
    Outside
  | Spinning u32
  | Holding
  | Releasing u32
  | TryLoaded u32 nat
  | TryChecked u32 nat

text \<open>
  \<open>taken\<close> counts the tickets handed out since boot; it is not in the code. A \<open>spin_trylock\<close>
  remembers its value so that the compare-and-swap step can say that fewer than \<open>2 ^ 32\<close>
  acquisitions happened since the ticket was loaded: the code has no protection
  against a full wrap-around of the ticket inside that window.
\<close>

record lock_sys =
  the_lock :: spinlock
  pcs :: "nat \<Rightarrow> lock_pc"
  taken :: nat

definition lock_sys_init :: lock_sys where
  "lock_sys_init = \<lparr>the_lock = spinlock_init, pcs = (\<lambda>_. Outside), taken = 0\<rparr>"

abbreviation MAX_CPUS :: nat where "MAX_CPUS \<equiv> 32"

inductive lock_step :: "lock_sys \<Rightarrow> lock_sys \<Rightarrow> bool" where
  fetch_ticket: "i < MAX_CPUS \<Longrightarrow> pcs s i = Outside \<Longrightarrow>
    lock_step s (s\<lparr>the_lock := (the_lock s)\<lparr>lock_ticket := lock_ticket (the_lock s) + 1\<rparr>,
                   pcs := (pcs s)(i := Spinning (lock_ticket (the_lock s))),
                   taken := Suc (taken s)\<rparr>)"
| poll_wait: "pcs s i = Spinning t \<Longrightarrow> lock_current (the_lock s) \<noteq> t \<Longrightarrow> lock_step s s"
| poll_enter: "pcs s i = Spinning t \<Longrightarrow> lock_current (the_lock s) = t \<Longrightarrow>
    lock_step s (s\<lparr>the_lock := (the_lock s)\<lparr>lock_last_cpu := int i\<rparr>,
                   pcs := (pcs s)(i := Holding)\<rparr>)"
| begin_unlock: "pcs s i = Holding \<Longrightarrow>
    lock_step s (s\<lparr>the_lock := (the_lock s)\<lparr>lock_last_cpu := -1\<rparr>,
                   pcs := (pcs s)(i := Releasing (lock_current (the_lock s) + 1))\<rparr>)"
| store_current: "pcs s i = Releasing n \<Longrightarrow>
    lock_step s (s\<lparr>the_lock := (the_lock s)\<lparr>lock_current := n\<rparr>,
                   pcs := (pcs s)(i := Outside)\<rparr>)"
| try_load: "i < MAX_CPUS \<Longrightarrow> pcs s i = Outside \<Longrightarrow>
    lock_step s (s\<lparr>pcs := (pcs s)(i := TryLoaded (lock_ticket (the_lock s)) (taken s))\<rparr>)"
| try_busy: "pcs s i = TryLoaded t a \<Longrightarrow> lock_current (the_lock s) \<noteq> t \<Longrightarrow>
    lock_step s (s\<lparr>pcs := (pcs s)(i := Outside)\<rparr>)"
| try_check: "pcs s i = TryLoaded t a \<Longrightarrow> lock_current (the_lock s) = t \<Longrightarrow>
    lock_step s (s\<lparr>pcs := (pcs s)(i := TryChecked t a)\<rparr>)"
| try_lost: "pcs s i = TryChecked t a \<Longrightarrow> lock_ticket (the_lock s) \<noteq> t \<Longrightarrow>
    lock_step s (s\<lparr>pcs := (pcs s)(i := Outside)\<rparr>)"
| try_won: "pcs s i = TryChecked t a \<Longrightarrow> lock_ticket (the_lock s) = t \<Longrightarrow>
    taken s - a < 2 ^ 32 \<Longrightarrow>
    lock_step s (s\<lparr>the_lock := (the_lock s)\<lparr>lock_ticket := t + 1, lock_last_cpu := int i\<rparr>,
                   pcs := (pcs s)(i := Holding),
                   taken := Suc (taken s)\<rparr>)"

inductive lock_reachable :: "lock_sys \<Rightarrow> bool" where
  start: "lock_reachable lock_sys_init"
| step: "lock_reachable s \<Longrightarrow> lock_step s t \<Longrightarrow> lock_reachable t"

fun owns_ticket :: "lock_pc \<Rightarrow> bool" where
  "owns_ticket (Spinning _) = True"
| "owns_ticket Holding = True"
| "owns_ticket (Releasing _) = True"
| "owns_ticket _ = False"

fun in_section :: "lock_pc \<Rightarrow> bool" where
  "in_section Holding = True"
| "in_section (Releasing _) = True"
| "in_section _ = False"


section \<open>The queue behind the tickets\<close>

text \<open>
  The CPUs that own a ticket form a queue: the \<open>k\<close>-th in it owns ticket \<open>current + k\<close>, and only
  the first can be past the wait loop. This holds across wrap-around because at most 32
  tickets are ever outstanding.
\<close>

fun ticket_of :: "u32 \<Rightarrow> nat \<Rightarrow> lock_pc \<Rightarrow> bool" where
  "ticket_of cur k (Spinning t) = (t = cur + of_nat k)"
| "ticket_of cur k Holding = (k = 0)"
| "ticket_of cur k (Releasing n) = (k = 0 \<and> n = cur + 1)"
| "ticket_of cur k _ = False"

definition queue_inv :: "lock_sys \<Rightarrow> nat list \<Rightarrow> bool" where
  "queue_inv s q \<longleftrightarrow> distinct q \<and> (\<forall>i. i \<in> set q \<longleftrightarrow> owns_ticket (pcs s i)) \<and> set q \<subseteq> {..<MAX_CPUS}
     \<and> lock_ticket (the_lock s) = lock_current (the_lock s) + of_nat (length q)
     \<and> (\<forall>k<length q. ticket_of (lock_current (the_lock s)) k (pcs s (q ! k)))"

text \<open>
  A CPU inside \<open>spin_trylock\<close> knows the number of tickets handed out when it loaded the ticket; once
  it has seen \<^verbatim>\<open>current\<close> equal to that ticket, an unchanged count means an empty queue.
\<close>

fun try_ok :: "nat \<Rightarrow> bool \<Rightarrow> nat \<Rightarrow> lock_pc \<Rightarrow> bool" where
  "try_ok n idle i (TryLoaded t a) = (i < MAX_CPUS \<and> t = of_nat a \<and> a \<le> n)"
| "try_ok n idle i (TryChecked t a) = (i < MAX_CPUS \<and> t = of_nat a \<and> a \<le> n \<and> (a = n \<longrightarrow> idle))"
| "try_ok n idle i _ = True"

definition try_inv :: "lock_sys \<Rightarrow> nat list \<Rightarrow> bool" where
  "try_inv s q \<longleftrightarrow> lock_ticket (the_lock s) = of_nat (taken s)
     \<and> (\<forall>i. try_ok (taken s) (q = []) i (pcs s i))"

definition owner_inv :: "lock_sys \<Rightarrow> bool" where
  "owner_inv s \<longleftrightarrow> (\<forall>i. pcs s i = Holding \<longrightarrow> lock_last_cpu (the_lock s) = int i)"

definition lock_inv :: "lock_sys \<Rightarrow> nat list \<Rightarrow> bool" where
  "lock_inv s q \<longleftrightarrow> queue_inv s q \<and> try_inv s q \<and> owner_inv s"

lemmas lock_inv_defs = lock_inv_def queue_inv_def try_inv_def owner_inv_def

lemma try_ok_Suc: "try_ok n idle i pc \<Longrightarrow> try_ok (Suc n) idle' i pc"
  by (cases pc) auto

lemma try_ok_idle: "try_ok n idle i pc \<Longrightarrow> (idle \<Longrightarrow> idle') \<Longrightarrow> try_ok n idle' i pc"
  by (cases pc) auto

lemma queue_length:
  assumes "queue_inv s q"
  shows "length q \<le> MAX_CPUS"
proof -
  from assms have "card (set q) \<le> card {..<MAX_CPUS}"
    unfolding queue_inv_def by (intro card_mono) auto
  moreover from assms have "distinct q" by (simp add: queue_inv_def)
  ultimately show ?thesis by (simp add: distinct_card)
qed

lemma small_of_nat_eq_0: "k \<le> MAX_CPUS \<Longrightarrow> (of_nat k :: u32) = 0 \<longleftrightarrow> k = 0"
  by (auto simp: word_of_nat_eq_0_iff dvd_def)

lemma queue_nth:
  assumes "queue_inv s q" and "owns_ticket (pcs s i)"
  obtains k where "k < length q" and "q ! k = i" and "ticket_of (lock_current (the_lock s)) k (pcs s i)"
proof -
  from assms have "i \<in> set q" by (simp add: queue_inv_def)
  then obtain k where k: "k < length q" "q ! k = i" by (auto simp: in_set_conv_nth)
  with assms(1) have "ticket_of (lock_current (the_lock s)) k (pcs s i)"
    by (auto simp: queue_inv_def)
  with k show ?thesis by (rule that)
qed

lemma served_head:
  assumes inv: "queue_inv s q" and i: "pcs s i = Spinning (lock_current (the_lock s))"
  shows "\<exists>q'. q = i # q'"
proof -
  from inv obtain k where k: "k < length q" "q ! k = i"
    "ticket_of (lock_current (the_lock s)) k (pcs s i)"
    by (rule queue_nth [of s q i]) (simp add: i)
  with i queue_length [OF inv] have "k = 0"
    by (auto simp: small_of_nat_eq_0)
  with k show ?thesis by (cases q) auto
qed

lemma in_section_head:
  assumes inv: "queue_inv s q" and i: "in_section (pcs s i)"
  shows "\<exists>q'. q = i # q'"
proof -
  have "owns_ticket (pcs s i)" using i by (cases "pcs s i") auto
  then obtain k where k: "k < length q" "q ! k = i"
    "ticket_of (lock_current (the_lock s)) k (pcs s i)"
    by (rule queue_nth [OF inv])
  with i have "k = 0" by (cases "pcs s i") auto
  with k show ?thesis by (cases q) auto
qed

lemma section_unique:
  assumes "queue_inv s q" and "in_section (pcs s i)" and "in_section (pcs s j)"
  shows "i = j"
  using in_section_head [OF assms(1,2)] in_section_head [OF assms(1,3)] by auto

text \<open>Each kind of step, with the queue it leaves behind.\<close>

lemma lock_inv_fetch:
  assumes inv: "lock_inv s q" and i: "i < MAX_CPUS" "pcs s i = Outside"
  shows "lock_inv (s\<lparr>the_lock := (the_lock s)\<lparr>lock_ticket := lock_ticket (the_lock s) + 1\<rparr>,
                   pcs := (pcs s)(i := Spinning (lock_ticket (the_lock s))),
                   taken := Suc (taken s)\<rparr>) (q @ [i])"
proof -
  have notin: "i \<notin> set q" using inv i by (auto simp: lock_inv_defs)
  then have nth: "q ! k \<noteq> i" if "k < length q" for k using that by auto
  show ?thesis
    using inv i notin
    by (auto simp: lock_inv_defs nth_append nth less_Suc_eq intro: try_ok_Suc)
qed

lemma lock_inv_same_queue:
  assumes inv: "lock_inv s (i # q)" and k: "ticket_of (lock_current (the_lock s)) 0 pc"
    and pc: "owns_ticket pc" and own: "pc = Holding \<Longrightarrow> c = int i"
    and sole: "\<And>j. pcs s j = Holding \<Longrightarrow> j = i"
  shows "lock_inv (s\<lparr>the_lock := (the_lock s)\<lparr>lock_last_cpu := c\<rparr>, pcs := (pcs s)(i := pc)\<rparr>) (i # q)"
proof -
  have "ticket_of (lock_current (the_lock s)) m (if (i # q) ! m = i then pc else pcs s ((i # q) ! m))"
    if "m < length (i # q)" for m
  proof (cases m)
    case 0
    with k show ?thesis by simp
  next
    case (Suc n)
    with inv that have "(i # q) ! m \<noteq> i" by (auto simp: lock_inv_defs)
    with inv that show ?thesis by (auto simp: lock_inv_defs)
  qed
  moreover have "try_ok (taken s) False i pc" using pc by (cases pc) auto
  ultimately show ?thesis
    using inv pc own sole by (auto simp: lock_inv_defs)
qed

lemma lock_inv_store:
  assumes inv: "lock_inv s (i # q)" and i: "pcs s i = Releasing n"
  shows "lock_inv (s\<lparr>the_lock := (the_lock s)\<lparr>lock_current := n\<rparr>,
                   pcs := (pcs s)(i := Outside)\<rparr>) q"
proof -
  let ?cur = "lock_current (the_lock s)"
  from inv have "ticket_of ?cur 0 (pcs s i)" by (auto simp: lock_inv_defs)
  with i have n: "n = ?cur + 1" by simp
  have nth: "q ! k \<noteq> i" if "k < length q" for k
    using inv that by (auto simp: lock_inv_defs)
  have shift: "ticket_of n k (pcs s (q ! k))" if k: "k < length q" for k
  proof -
    have "ticket_of ?cur (Suc k) (pcs s (q ! k))"
      using inv k by (fastforce simp: lock_inv_defs)
    then show ?thesis by (cases "pcs s (q ! k)") (simp_all add: n)
  qed
  have q: "queue_inv (s\<lparr>the_lock := (the_lock s)\<lparr>lock_current := n\<rparr>, pcs := (pcs s)(i := Outside)\<rparr>) q"
    using inv i nth shift n by (auto simp: lock_inv_defs)
  show ?thesis
    using inv i q by (auto simp: lock_inv_def try_inv_def owner_inv_def intro: try_ok_idle)
qed

lemma lock_inv_try_pc:
  assumes inv: "lock_inv s q" and old: "\<not> owns_ticket (pcs s i)"
    and new: "\<not> owns_ticket pc" "try_ok (taken s) (q = []) i pc"
  shows "lock_inv (s\<lparr>pcs := (pcs s)(i := pc)\<rparr>) q"
proof -
  have "i \<notin> set q" using inv old by (auto simp: lock_inv_defs)
  then have "q ! k \<noteq> i" if "k < length q" for k using that by auto
  with inv old new show ?thesis by (auto simp: lock_inv_defs)
qed

lemma lock_inv_try_won:
  assumes inv: "lock_inv s q" and i: "pcs s i = TryChecked t a"
    and t: "lock_ticket (the_lock s) = t" and near: "taken s - a < 2 ^ 32"
  shows "lock_inv (s\<lparr>the_lock := (the_lock s)\<lparr>lock_ticket := t + 1, lock_last_cpu := int i\<rparr>,
                   pcs := (pcs s)(i := Holding),
                   taken := Suc (taken s)\<rparr>) [i]"
proof -
  have "try_ok (taken s) (q = []) i (TryChecked t a)"
    using inv i by (auto simp: lock_inv_defs dest: spec [of _ i])
  then have i_less: "i < MAX_CPUS" and ta: "t = of_nat a" and a: "a \<le> taken s"
    and empty: "a = taken s \<longrightarrow> q = []" by auto
  have tk: "t = of_nat (taken s)" using inv t by (auto simp: lock_inv_defs)
  have "(of_nat (taken s - a) :: u32) = 0" using ta tk a by (simp add: of_nat_diff)
  then have "taken s - a = 0" using near
    by (auto simp: word_of_nat_eq_0_iff dest: dvd_imp_le)
  with a empty have q: "q = []" by simp
  with inv have none: "\<not> owns_ticket (pcs s j)" for j by (simp add: lock_inv_defs)
  have nh: "pcs s j \<noteq> Holding" for j using none [of j] by auto
  show ?thesis
    using inv i i_less none nh t q by (auto simp: lock_inv_defs intro: try_ok_Suc)
qed

lemma lock_step_inv:
  assumes "lock_step s s'" and "lock_inv s q"
  shows "\<exists>q'. lock_inv s' q'"
  using assms
proof (induction rule: lock_step.induct)
  case (fetch_ticket i s)
  then show ?case by (intro exI [of _ "q @ [i]"] lock_inv_fetch)
next
  case (poll_wait s i t)
  then show ?case by blast
next
  case (poll_enter s i t)
  then obtain q' where q: "q = i # q'" using served_head [of s q i] by (auto simp: lock_inv_def)
  with poll_enter have sole: "j = i" if "pcs s j = Holding" for j
    using in_section_head [of s q j] that by (auto simp: lock_inv_def)
  from poll_enter q have inv: "lock_inv s (i # q')" by simp
  show ?case
    by (rule exI [of _ "i # q'"], rule lock_inv_same_queue [OF inv]) (simp_all add: sole)
next
  case (begin_unlock s i)
  then obtain q' where q: "q = i # q'" using in_section_head [of s q i] by (auto simp: lock_inv_def)
  with begin_unlock have sole: "j = i" if "pcs s j = Holding" for j
    using in_section_head [of s q j] that by (auto simp: lock_inv_def)
  from begin_unlock q have inv: "lock_inv s (i # q')" by simp
  show ?case
    by (rule exI [of _ "i # q'"], rule lock_inv_same_queue [OF inv]) (simp_all add: sole)
next
  case (store_current s i n)
  then obtain q' where "q = i # q'" using in_section_head [of s q i] by (auto simp: lock_inv_def)
  with store_current show ?case by (intro exI [of _ q'] lock_inv_store) auto
next
  case (try_check s i t a)
  have ok: "try_ok (taken s) (q = []) i (TryLoaded t a)"
    using try_check by (auto simp: lock_inv_defs dest: spec [of _ i])
  have "q = []" if "a = taken s"
    using that try_check ok queue_length [of s q] small_of_nat_eq_0 [of "length q"]
    by (auto simp: lock_inv_defs)
  with ok try_check show ?case
    by (intro exI [of _ q] lock_inv_try_pc) auto
next
  case (try_won s i t a)
  then show ?case by (intro exI [of _ "[i]"] lock_inv_try_won [of s q])
next
  case (try_load i s)
  then show ?case
    by (intro exI [of _ q] lock_inv_try_pc) (auto simp: lock_inv_def try_inv_def)
next
  case (try_busy s i t a)
  then show ?case by (intro exI [of _ q] lock_inv_try_pc) auto
next
  case (try_lost s i t a)
  then show ?case by (intro exI [of _ q] lock_inv_try_pc) auto
qed

lemma lock_reachable_inv: "lock_reachable s \<Longrightarrow> \<exists>q. lock_inv s q"
proof (induction rule: lock_reachable.induct)
  case start
  show ?case
    by (intro exI [of _ "[]"]) (simp add: lock_inv_defs lock_sys_init_def spinlock_init_def)
next
  case (step s t)
  then show ?case by (blast intro: lock_step_inv)
qed



definition one_holder :: lock_sys where
  "one_holder = \<lparr>the_lock = \<lparr>lock_ticket = 1, lock_current = 0, lock_last_cpu = 3\<rparr>,
                 pcs = (\<lambda>_. Outside)(3 := Holding), taken = 1\<rparr>"

lemma one_holder_reachable: "lock_reachable one_holder"
proof -
  let ?s = "\<lparr>the_lock = \<lparr>lock_ticket = 1, lock_current = 0, lock_last_cpu = -1\<rparr>,
             pcs = (\<lambda>_. Outside)(3 := Spinning 0), taken = 1\<rparr> :: lock_sys"
  have "lock_step lock_sys_init ?s"
    using lock_step.fetch_ticket [of 3 lock_sys_init]
    by (simp add: lock_sys_init_def spinlock_init_def)
  then have "lock_reachable ?s" by (rule lock_reachable.step [OF lock_reachable.start])
  moreover have "lock_step ?s one_holder"
    using lock_step.poll_enter [of ?s 3 0] by (simp add: one_holder_def)
  ultimately show ?thesis by (rule lock_reachable.step)
qed




end
