(* ===== verification/Boot_Info.thy ===== *)
theory Boot_Info
  imports Kernel_Prelude
begin

text \<open>
  The structures the boot loader hands to the kernel, from \<^verbatim>\<open>common/boot_info.h\<close> and
  \<^verbatim>\<open>common/efi_descriptor.h\<close>. The memory map is a byte buffer of \<open>memory_map_size\<close> bytes
  holding one descriptor every \<open>descriptor_size\<close> bytes; the model keeps the descriptors in
  buffer order, so that \<open>memory_map ! i\<close> is what the code reads at byte \<open>i * descriptor_size\<close>.
\<close>

record EFI_MEMORY_DESCRIPTOR =
  desc_type :: u32
  physical_start :: u64
  virtual_start :: u64
  num_pages :: u64
  attribute :: u64

abbreviation EFI_CONVENTIONAL_MEMORY :: u32 where "EFI_CONVENTIONAL_MEMORY \<equiv> 7"

record BootFramebuffer =
  framebuffer_size :: u64
  framebuffer_base :: u64
  fb_width :: u32
  fb_height :: u32
  pixels_per_scanline :: u32
  fb_format :: u32
  red_mask :: u32
  green_mask :: u32
  blue_mask :: u32
  reserved_mask :: u32

record BootMemoryMap =
  memory_map :: "EFI_MEMORY_DESCRIPTOR list"
  memory_map_size :: u64
  descriptor_size :: u64
  descriptor_version :: u32

record BootKernel =
  kernel_entry :: u64
  kernel_base :: u64
  kernel_size :: u64

record BootRamdisk =
  ramdisk_addr :: u64
  ramdisk_size :: u64

record BootInfo =
  bi_fb :: BootFramebuffer
  bi_mmap :: BootMemoryMap
  bi_rsdp :: u64
  bi_kernel :: BootKernel
  bi_ramdisk :: BootRamdisk

text \<open>
  The descriptors a loop \<^verbatim>\<open>for (i = 0; i < memory_map_size / descriptor_size; i++)\<close> visits.
\<close>

definition mmap_entries :: "BootMemoryMap \<Rightarrow> EFI_MEMORY_DESCRIPTOR list res" where
  "mmap_entries m =
     (if descriptor_size m = 0 then Inl DivideError
      else let entries = unat (memory_map_size m div descriptor_size m)
           in if entries \<le> length (memory_map m) then Inr (take entries (memory_map m))
              else Inl OutOfBounds)"

end
