(* ===== verification/Pmm.thy ===== *)
theory Pmm
  imports Atomic_Lock Boot_Info
begin

text \<open>
  The physical memory manager, \<^verbatim>\<open>kernel/memory/pmm.c\<close>: a bitmap with one bit per 4 KiB frame (1 = used).
  The state holds the pointer and the bytes it points to, the per-CPU search hint
  \<^verbatim>\<open>pmm_last_index\<close> of \<^verbatim>\<open>cpu_context_t\<close> (indexed by CPU id) and the lock. Every operation is
  polymorphic in the record's extension, so that the layers above run it on their own state.
\<close>

section \<open>State and bitmap access\<close>

record pmm_state =
  bitmap_ptr :: u64
  bitmap_size :: u64
  bitmap :: "u8 list"
  pmm_last_index :: "nat \<Rightarrow> u64"
  pmm_lock :: spinlock

definition bm_read :: "'a pmm_state_scheme \<Rightarrow> u64 \<Rightarrow> u8 res" where
  "bm_read s i =
     (if bitmap_ptr s = 0 then Inl NullDeref
      else if unat i < length (bitmap s) then Inr (bitmap s ! unat i)
      else Inl OutOfBounds)"

definition bm_write :: "'a pmm_state_scheme \<Rightarrow> u64 \<Rightarrow> u8 \<Rightarrow> 'a pmm_state_scheme res" where
  "bm_write s i v =
     (if bitmap_ptr s = 0 then Inl NullDeref
      else if unat i < length (bitmap s) then Inr (s\<lparr>bitmap := (bitmap s)[unat i := v]\<rparr>)
      else Inl OutOfBounds)"

definition pmm_set_frame :: "'a pmm_state_scheme \<Rightarrow> u64 \<Rightarrow> 'a pmm_state_scheme res" where
  "pmm_set_frame s frame_addr =
     (let frame_index = frame_addr div PAGE_SIZE
      in bind_res (bm_read s (frame_index div 8)) (\<lambda>v.
           bm_write s (frame_index div 8) (v OR push_bit (unat (frame_index mod 8)) 1)))"

definition pmm_unset_frame :: "'a pmm_state_scheme \<Rightarrow> u64 \<Rightarrow> 'a pmm_state_scheme res" where
  "pmm_unset_frame s frame_addr =
     (let frame_index = frame_addr div PAGE_SIZE
      in bind_res (bm_read s (frame_index div 8)) (\<lambda>v.
           bm_write s (frame_index div 8) (v AND NOT (push_bit (unat (frame_index mod 8)) 1))))"

definition pmm_is_frame_set :: "'a pmm_state_scheme \<Rightarrow> u64 \<Rightarrow> bool res" where
  "pmm_is_frame_set s frame_addr =
     (let frame_index = frame_addr div PAGE_SIZE
      in bind_res (bm_read s (frame_index div 8)) (\<lambda>v.
           Inr (v AND push_bit (unat (frame_index mod 8)) 1 \<noteq> 0)))"

section \<open>Allocating one frame\<close>

text \<open>
  The search loop of \<open>pmm_alloc_frame\<close> from byte \<open>i\<close>: the byte, the bit and the address of the
  frame it settles on.
\<close>

function pmm_find_frame :: "'a pmm_state_scheme \<Rightarrow> u64 \<Rightarrow> (u64 \<times> nat \<times> u64) option res" where
  "pmm_find_frame s i =
     (if i < bitmap_size s then
        bind_res (bm_read s i) (\<lambda>v.
          if v = 0xFF then pmm_find_frame s (i + 1)
          else
            let free_bits = NOT v
            in if free_bits \<noteq> 0 then
                 let b = builtin_ctz free_bits
                 in if b < 8 then
                      let frame_index = i * 8 + of_nat b;
                          frame_addr = frame_index * PAGE_SIZE
                      in if frame_addr = 0 then pmm_find_frame s (i + 1)
                         else Inr (Some (i, b, frame_addr))
                    else pmm_find_frame s (i + 1)
               else pmm_find_frame s (i + 1))
      else Inr None)"
  by pat_completeness auto
termination
  by (relation "measure (\<lambda>(s, i). unat (bitmap_size s) - unat i)") auto

declare pmm_find_frame.simps [simp del]

definition pmm_alloc_frame :: "cpu_env \<Rightarrow> 'a pmm_state_scheme \<Rightarrow> (u64 \<times> 'a pmm_state_scheme) res" where
  "pmm_alloc_frame env s =
     (if bitmap_ptr s = 0 then Inr (0, s)
      else bind_res (spin_lock env (pmm_lock s)) (\<lambda>l.
        let s1 = s\<lparr>pmm_lock := l\<rparr>;
            start_index = (case this_cpu env of Some c \<Rightarrow> pmm_last_index s1 c | None \<Rightarrow> 0)
        in bind_res (pmm_find_frame s1 start_index) (\<lambda>r.
             case r of
               None \<Rightarrow> Inr (0, s1\<lparr>pmm_lock := spin_unlock env (pmm_lock s1)\<rparr>)
             | Some (i, b, frame_addr) \<Rightarrow>
                 bind_res (bm_read s1 i) (\<lambda>v.
                 bind_res (bm_write s1 i (v OR push_bit b 1)) (\<lambda>s2.
                   let s3 = (case this_cpu env of
                               Some c \<Rightarrow> s2\<lparr>pmm_last_index := (pmm_last_index s2)(c := i)\<rparr>
                             | None \<Rightarrow> s2)
                   in Inr (frame_addr, s3\<lparr>pmm_lock := spin_unlock env (pmm_lock s3)\<rparr>))))))"

section \<open>Allocating contiguous frames\<close>

text \<open>The bitmap read as little-endian 64-bit words: \<^verbatim>\<open>((uint64_t*)bitmap)[i]\<close>.\<close>

definition bm_read64 :: "'a pmm_state_scheme \<Rightarrow> u64 \<Rightarrow> u64 res" where
  "bm_read64 s i =
     (if bitmap_ptr s = 0 then Inl NullDeref
      else if 8 * unat i + 8 \<le> length (bitmap s)
      then Inr (of_nat (horner_sum unat 256 (take 8 (drop (8 * unat i) (bitmap s)))))
      else Inl OutOfBounds)"

text \<open>The loop that counts free frames from \<open>start_bit_idx\<close>.\<close>

function pmm_count_run :: "'a pmm_state_scheme \<Rightarrow> u64 \<Rightarrow> u64 \<Rightarrow> u64 \<Rightarrow> u64 \<Rightarrow> u64 res" where
  "pmm_count_run s start_bit_idx count j free_found =
     (if j < count then
        let current_bit = start_bit_idx + j
        in if current_bit \<ge> bitmap_size s * 8 then Inr free_found
           else bind_res (bm_read s (current_bit div 8)) (\<lambda>v.
                  if v AND push_bit (unat (current_bit mod 8)) 1 = 0
                  then pmm_count_run s start_bit_idx count (j + 1) (free_found + 1)
                  else Inr free_found)
      else Inr free_found)"
  by pat_completeness auto
termination
  by (relation "measure (\<lambda>(s, st, count, j, f). unat count - unat j)") auto

text \<open>The loop that marks the frames of a run as used.\<close>

function pmm_mark_run :: "'a pmm_state_scheme \<Rightarrow> u64 \<Rightarrow> u64 \<Rightarrow> u64 \<Rightarrow> 'a pmm_state_scheme res" where
  "pmm_mark_run s start_bit_idx count j =
     (if j < count then
        let target_bit = start_bit_idx + j
        in bind_res (bm_read s (target_bit div 8)) (\<lambda>v.
           bind_res (bm_write s (target_bit div 8) (v OR push_bit (unat (target_bit mod 8)) 1)) (\<lambda>s1.
             pmm_mark_run s1 start_bit_idx count (j + 1)))
      else Inr s)"
  by pat_completeness auto
termination
  by (relation "measure (\<lambda>(s, st, count, j). unat count - unat j)") auto

declare pmm_count_run.simps [simp del] pmm_mark_run.simps [simp del]

text \<open>The loop over the 64 bits \<open>b\<close> of quadword \<open>i\<close>: the start of a long enough run.\<close>

function pmm_scan_bits :: "'a pmm_state_scheme \<Rightarrow> u64 \<Rightarrow> u64 \<Rightarrow> nat \<Rightarrow> u64 option res" where
  "pmm_scan_bits s count i b =
     (if b < 64 then
        let start_bit_idx = i * 64 + of_nat b
        in bind_res (pmm_count_run s start_bit_idx count 0 0) (\<lambda>free_found.
             if free_found = count then Inr (Some start_bit_idx)
             else pmm_scan_bits s count i (Suc b))
      else Inr None)"
  by pat_completeness auto
termination
  by (relation "measure (\<lambda>(s, count, i, b). 64 - b)") auto

function pmm_scan_qwords :: "'a pmm_state_scheme \<Rightarrow> u64 \<Rightarrow> u64 \<Rightarrow> u64 \<Rightarrow> u64 option res" where
  "pmm_scan_qwords s count num_qwords i =
     (if i < num_qwords then
        bind_res (bm_read64 s i) (\<lambda>w.
          if w = 0xFFFFFFFFFFFFFFFF then pmm_scan_qwords s count num_qwords (i + 1)
          else bind_res (pmm_scan_bits s count i 0) (\<lambda>r.
                 case r of
                   Some start_bit_idx \<Rightarrow> Inr (Some start_bit_idx)
                 | None \<Rightarrow> pmm_scan_qwords s count num_qwords (i + 1)))
      else Inr None)"
  by pat_completeness auto
termination
  by (relation "measure (\<lambda>(s, count, n, i). unat n - unat i)") auto

declare pmm_scan_bits.simps [simp del] pmm_scan_qwords.simps [simp del]

definition pmm_alloc_frames ::
  "cpu_env \<Rightarrow> u64 \<Rightarrow> 'a pmm_state_scheme \<Rightarrow> (u64 \<times> 'a pmm_state_scheme) res" where
  "pmm_alloc_frames env count s =
     (if bitmap_ptr s = 0 \<or> count = 0 then Inr (0, s)
      else bind_res (spin_lock env (pmm_lock s)) (\<lambda>l.
        let s1 = s\<lparr>pmm_lock := l\<rparr>;
            num_qwords = bitmap_size s1 div 8
        in bind_res (pmm_scan_qwords s1 count num_qwords 0) (\<lambda>r.
             case r of
               None \<Rightarrow> Inr (0, s1\<lparr>pmm_lock := spin_unlock env (pmm_lock s1)\<rparr>)
             | Some start_bit_idx \<Rightarrow>
                 bind_res (pmm_mark_run s1 start_bit_idx count 0) (\<lambda>s2.
                   let phys_addr = start_bit_idx * PAGE_SIZE
                   in Inr (phys_addr, s2\<lparr>pmm_lock := spin_unlock env (pmm_lock s2)\<rparr>)))))"

section \<open>Freeing a frame, moving the bitmap\<close>

definition pmm_free_frame :: "cpu_env \<Rightarrow> u64 \<Rightarrow> 'a pmm_state_scheme \<Rightarrow> 'a pmm_state_scheme res" where
  "pmm_free_frame env frame s =
     (if frame = 0 then Inr s
      else bind_res (spin_lock env (pmm_lock s)) (\<lambda>l.
        let s1 = s\<lparr>pmm_lock := l\<rparr>
        in bind_res (pmm_unset_frame s1 frame) (\<lambda>s2.
             let frame_index = (frame div PAGE_SIZE) div 8;
                 s3 = (case this_cpu env of
                         Some c \<Rightarrow> if frame_index < pmm_last_index s2 c
                                   then s2\<lparr>pmm_last_index := (pmm_last_index s2)(c := frame_index)\<rparr>
                                   else s2
                       | None \<Rightarrow> s2)
             in Inr (s3\<lparr>pmm_lock := spin_unlock env (pmm_lock s3)\<rparr>))))"

abbreviation HHDM_OFFSET :: u64 where "HHDM_OFFSET \<equiv> 0xFFFF800000000000"

definition phys_to_virt :: "u64 \<Rightarrow> u64" where
  "phys_to_virt phys = phys + HHDM_OFFSET"

definition pmm_move_to_high_half :: "'a pmm_state_scheme \<Rightarrow> 'a pmm_state_scheme" where
  "pmm_move_to_high_half s =
     (if bitmap_ptr s \<noteq> 0 \<and> bitmap_ptr s < HHDM_OFFSET
      then s\<lparr>bitmap_ptr := phys_to_virt (bitmap_ptr s)\<rparr> else s)"


section \<open>Initialisation from the EFI memory map\<close>

text \<open>First pass: the highest physical address of any descriptor.\<close>

fun pmm_highest_addr :: "EFI_MEMORY_DESCRIPTOR list \<Rightarrow> u64 \<Rightarrow> u64" where
  "pmm_highest_addr [] highest_addr = highest_addr"
| "pmm_highest_addr (desc # ds) highest_addr =
     (let end_addr = physical_start desc + num_pages desc * PAGE_SIZE
      in pmm_highest_addr ds (if end_addr > highest_addr then end_addr else highest_addr))"

text \<open>Second pass: the first conventional region large enough for the bitmap.\<close>

fun pmm_place_bitmap :: "EFI_MEMORY_DESCRIPTOR list \<Rightarrow> u64 \<Rightarrow> u64 option" where
  "pmm_place_bitmap [] sz = None"
| "pmm_place_bitmap (desc # ds) sz =
     (if desc_type desc = EFI_CONVENTIONAL_MEMORY \<and> num_pages desc * PAGE_SIZE \<ge> sz
      then Some (PAGE_ALIGN_UP (physical_start desc))
      else pmm_place_bitmap ds sz)"

text \<open>Third pass: the loop over the pages of one descriptor, then over the descriptors.\<close>

function pmm_unlock_pages ::
  "'a pmm_state_scheme \<Rightarrow> EFI_MEMORY_DESCRIPTOR \<Rightarrow> u64 \<Rightarrow> 'a pmm_state_scheme res" where
  "pmm_unlock_pages s desc j =
     (if j < num_pages desc then
        let addr = physical_start desc + j * PAGE_SIZE
        in bind_res (if addr \<ge> 0x100000 then pmm_unset_frame s addr else Inr s) (\<lambda>s1.
             pmm_unlock_pages s1 desc (j + 1))
      else Inr s)"
  by pat_completeness auto
termination
  by (relation "measure (\<lambda>(s, desc, j). unat (num_pages desc) - unat j)") auto

declare pmm_unlock_pages.simps [simp del]

fun pmm_unlock_descs ::
  "'a pmm_state_scheme \<Rightarrow> EFI_MEMORY_DESCRIPTOR list \<Rightarrow> 'a pmm_state_scheme res" where
  "pmm_unlock_descs s [] = Inr s"
| "pmm_unlock_descs s (desc # ds) =
     bind_res (if desc_type desc = EFI_CONVENTIONAL_MEMORY \<or> desc_type desc = 4
               then pmm_unlock_pages s desc 0 else Inr s) (\<lambda>s1.
       pmm_unlock_descs s1 ds)"

text \<open>
  The loop \<^verbatim>\<open>for (addr = start; addr < limit; addr += PAGE_SIZE) pmm_set_frame(addr)\<close> that locks the
  first megabyte and the kernel image. Where \<open>addr\<close> would wrap around it starts over from low
  memory for ever.
\<close>

function pmm_lock_range :: "'a pmm_state_scheme \<Rightarrow> u64 \<Rightarrow> u64 \<Rightarrow> 'a pmm_state_scheme res" where
  "pmm_lock_range s addr limit =
     (if addr < limit then
        bind_res (pmm_set_frame s addr) (\<lambda>s1.
          if addr + PAGE_SIZE < addr then Inl Diverges
          else pmm_lock_range s1 (addr + PAGE_SIZE) limit)
      else Inr s)"
  by pat_completeness auto
termination
proof (relation "measure (\<lambda>(s, addr, limit). unat limit - unat addr)", goal_cases)
  case 1
  show ?case by simp
next
  case (2 s addr limit s1)
  then have "addr \<le> addr + PAGE_SIZE" by simp
  then have "unat (addr + PAGE_SIZE) = unat addr + 4096"
    by (simp add: unat_plus_simple)
  with 2 show ?case by (simp add: word_less_nat_alt)
qed

text \<open>The loop that locks the \<open>n\<close> pages of the bitmap itself, from page \<open>i\<close>.\<close>

function pmm_lock_bitmap :: "'a pmm_state_scheme \<Rightarrow> u64 \<Rightarrow> u64 \<Rightarrow> u64 \<Rightarrow> 'a pmm_state_scheme res" where
  "pmm_lock_bitmap s bitmap_addr n i =
     (if i < n then
        bind_res (pmm_set_frame s (bitmap_addr + i * PAGE_SIZE)) (\<lambda>s1.
          pmm_lock_bitmap s1 bitmap_addr n (i + 1))
      else Inr s)"
  by pat_completeness auto
termination
  by (relation "measure (\<lambda>(s, a, n, i). unat n - unat i)") auto

declare pmm_lock_range.simps [simp del] pmm_lock_bitmap.simps [simp del]

text \<open>
  Until a region is found \<^verbatim>\<open>bitmap\<close> keeps its old value, so that with no region large enough the
  later passes write through a null pointer.
\<close>

definition pmm_init :: "BootInfo \<Rightarrow> 'a pmm_state_scheme \<Rightarrow> 'a pmm_state_scheme res" where
  "pmm_init boot_info s =
     bind_res (mmap_entries (bi_mmap boot_info)) (\<lambda>descs.
       let highest_addr = pmm_highest_addr descs 0;
           sz = (highest_addr div PAGE_SIZE) div 8;
           s1 = s\<lparr>bitmap_size := sz\<rparr>;
           s2 = (case pmm_place_bitmap descs sz of
                   Some p \<Rightarrow> s1\<lparr>bitmap_ptr := p, bitmap := replicate (unat sz) 0xFF\<rparr>
                 | None \<Rightarrow> s1);
           kernel_start = kernel_base (bi_kernel boot_info);
           kernel_sz = kernel_size (bi_kernel boot_info)
       in bind_res (pmm_unlock_descs s2 descs) (\<lambda>s3.
          bind_res (pmm_lock_range s3 0 0x100000) (\<lambda>s4.
          bind_res (pmm_lock_range s4 kernel_start (kernel_start + kernel_sz + PAGE_SIZE)) (\<lambda>s5.
            pmm_lock_bitmap s5 (bitmap_ptr s5) ((bitmap_size s5 + PAGE_SIZE - 1) div PAGE_SIZE) 0))))"

end
