(* ===== verification/Vmm.thy ===== *)
theory Vmm
  imports Pmm
begin

text \<open>
  Definitions for \<^verbatim>\<open>kernel/memory/vmm.c\<close> and \<^verbatim>\<open>kernel/include/memory/vmm.h\<close>: four-level page tables.
  A \<^verbatim>\<open>page_table_t*\<close> is a virtual address. Until \<^verbatim>\<open>vmm_init\<close> publishes \<^verbatim>\<open>kernel_pml4\<close> the kernel runs on
  the loader's identity mapping, afterwards it reaches physical memory through the direct map at
  \<^verbatim>\<open>HHDM_OFFSET\<close>; \<open>ptr_phys\<close> is that translation of the kernel's own pointers. The words of
  physical memory that hold page-table entries are the store \<open>pt_mem\<close>, keyed by physical address.
  Interrupt masking is not modelled. \<^verbatim>\<open>invlpg\<close>, the TLB shootdown \<^verbatim>\<open>sync_tlb\<close> and writes of
  control registers are recorded in order in \<open>hw_log\<close>.
\<close>

section \<open>State\<close>

datatype hw_event = Invlpg u64 | SyncTlb | WrPat u64 | WrEfer u64 | WrCr0 u64 | WrCr3 u64 | WrCr4 u64

record vmm_state = pmm_state +
  pt_mem :: "u64 \<Rightarrow> u64"
  kernel_pml4 :: u64
  kernel_pml4_phys :: u64
  vmm_lock :: spinlock
  msr_pat :: u64
  msr_efer :: u64
  reg_cr0 :: u64
  reg_cr4 :: u64
  hw_log :: "hw_event list"

abbreviation VMM_ADDR_MASK :: u64 where "VMM_ADDR_MASK \<equiv> 0x000000FFFFFFF000"
abbreviation PTE_PRESENT :: u64 where "PTE_PRESENT \<equiv> 1"
abbreviation PTE_WRITABLE :: u64 where "PTE_WRITABLE \<equiv> 2"
abbreviation PTE_USER :: u64 where "PTE_USER \<equiv> 4"
abbreviation PTE_HUGE :: u64 where "PTE_HUGE \<equiv> 0x80"
abbreviation PTE_NX :: u64 where "PTE_NX \<equiv> 0x8000000000000000"
abbreviation KERNEL_PHYS_BASE :: u64 where "KERNEL_PHYS_BASE \<equiv> 0x2000000"
abbreviation KERNEL_VIRT_BASE :: u64 where "KERNEL_VIRT_BASE \<equiv> 0xFFFFFFFF80000000"

definition PML4_IDX :: "u64 \<Rightarrow> u64" where "PML4_IDX addr = drop_bit 39 addr AND 0x1FF"
definition PDPT_IDX :: "u64 \<Rightarrow> u64" where "PDPT_IDX addr = drop_bit 30 addr AND 0x1FF"
definition PD_IDX :: "u64 \<Rightarrow> u64" where "PD_IDX addr = drop_bit 21 addr AND 0x1FF"
definition PT_IDX :: "u64 \<Rightarrow> u64" where "PT_IDX addr = drop_bit 12 addr AND 0x1FF"

section \<open>Page-table memory\<close>

definition ptr_phys :: "'a vmm_state_scheme \<Rightarrow> u64 \<Rightarrow> u64" where
  "ptr_phys s p = (if kernel_pml4 s = 0 then p else p - HHDM_OFFSET)"

definition vmm_get_table :: "'a vmm_state_scheme \<Rightarrow> u64 \<Rightarrow> u64" where
  "vmm_get_table s phys = (if kernel_pml4 s = 0 then phys else phys_to_virt phys)"

text \<open>\<^verbatim>\<open>table->entries[i]\<close> read and written, and \<^verbatim>\<open>memset(table, 0, PAGE_SIZE)\<close>.\<close>

definition pt_read :: "'a vmm_state_scheme \<Rightarrow> u64 \<Rightarrow> u64 \<Rightarrow> u64 res" where
  "pt_read s table i = (if table = 0 then Inl NullDeref else Inr (pt_mem s (ptr_phys s table + 8 * i)))"

definition pt_write :: "u64 \<Rightarrow> u64 \<Rightarrow> u64 \<Rightarrow> 'a vmm_state_scheme \<Rightarrow> 'a vmm_state_scheme res" where
  "pt_write table i v s =
     (if table = 0 then Inl NullDeref
      else Inr (s\<lparr>pt_mem := (pt_mem s)(ptr_phys s table + 8 * i := v)\<rparr>))"

definition pt_zero :: "u64 \<Rightarrow> 'a vmm_state_scheme \<Rightarrow> 'a vmm_state_scheme res" where
  "pt_zero table s =
     (if table = 0 then Inl NullDeref
      else Inr (s\<lparr>pt_mem := (\<lambda>a. if a - ptr_phys s table < PAGE_SIZE then 0 else pt_mem s a)\<rparr>))"

definition vmm_invlpg :: "u64 \<Rightarrow> 'a vmm_state_scheme \<Rightarrow> 'a vmm_state_scheme" where
  "vmm_invlpg addr s = s\<lparr>hw_log := hw_log s @ [Invlpg addr]\<rparr>"

definition sync_tlb :: "'a vmm_state_scheme \<Rightarrow> 'a vmm_state_scheme" where
  "sync_tlb s = s\<lparr>hw_log := hw_log s @ [SyncTlb]\<rparr>"

definition pte_present :: "u64 \<Rightarrow> bool" where
  "pte_present entry \<longleftrightarrow> entry AND PTE_PRESENT \<noteq> 0"

section \<open>Mapping and unmapping without the lock\<close>

definition vmm_unmap_unlocked :: "u64 \<Rightarrow> u64 \<Rightarrow> 'a vmm_state_scheme \<Rightarrow> 'a vmm_state_scheme res" where
  "vmm_unmap_unlocked pml4 virt s =
     bind_res (pt_read s pml4 (PML4_IDX virt)) (\<lambda>e4.
       if \<not> pte_present e4 then Inr s
       else let pdpt = vmm_get_table s (e4 AND VMM_ADDR_MASK)
       in bind_res (pt_read s pdpt (PDPT_IDX virt)) (\<lambda>e3.
       if \<not> pte_present e3 then Inr s
       else let pd = vmm_get_table s (e3 AND VMM_ADDR_MASK)
       in bind_res (pt_read s pd (PD_IDX virt)) (\<lambda>e2.
       if \<not> pte_present e2 then Inr s
       else let pt = vmm_get_table s (e2 AND VMM_ADDR_MASK)
       in bind_res (pt_write pt (PT_IDX virt) 0 s) (\<lambda>s1. Inr (vmm_invlpg virt s1)))))"

function vmm_unmap_pages ::
  "u64 \<Rightarrow> u64 \<Rightarrow> u64 \<Rightarrow> u64 \<Rightarrow> 'a vmm_state_scheme \<Rightarrow> 'a vmm_state_scheme res" where
  "vmm_unmap_pages pml4 virt npages i s =
     (if i < npages then
        bind_res (vmm_unmap_unlocked pml4 (virt + i * PAGE_SIZE) s) (\<lambda>s1.
          vmm_unmap_pages pml4 virt npages (i + 1) s1)
      else Inr s)"
  by pat_completeness auto
termination
  by (relation "measure (\<lambda>(pml4, virt, n, i, s). unat n - unat i)") auto

definition vmm_unmap_range_unlocked ::
  "u64 \<Rightarrow> u64 \<Rightarrow> u64 \<Rightarrow> 'a vmm_state_scheme \<Rightarrow> 'a vmm_state_scheme res" where
  "vmm_unmap_range_unlocked pml4 virt sz s =
     vmm_unmap_pages pml4 virt ((sz + PAGE_SIZE - 1) div PAGE_SIZE) 0 s"

text \<open>
  One pass of the loop over the three upper levels: the entry is created, or its permissions are
  widened; the result is the next table, \<open>None\<close> when no frame is left.
\<close>

definition vmm_map_level ::
  "cpu_env \<Rightarrow> u64 \<Rightarrow> u64 \<Rightarrow> u64 \<Rightarrow> 'a vmm_state_scheme \<Rightarrow> (u64 option \<times> 'a vmm_state_scheme) res" where
  "vmm_map_level env flags current_table i s =
     bind_res (pt_read s current_table i) (\<lambda>entry.
     bind_res
       (if \<not> pte_present entry then
          bind_res (pmm_alloc_frame env s) (\<lambda>(new_table_phys, s1).
            if new_table_phys = 0 then Inr (False, s1)
            else bind_res (pt_zero (vmm_get_table s1 new_table_phys) s1) (\<lambda>s2.
                 bind_res (pt_write current_table i
                   ((new_table_phys AND VMM_ADDR_MASK) OR PTE_PRESENT OR PTE_WRITABLE OR PTE_USER) s2) (\<lambda>s3.
                 Inr (True, s3))))
        else
          bind_res (if flags AND PTE_USER \<noteq> 0 then pt_write current_table i (entry OR PTE_USER) s
                    else Inr s) (\<lambda>s1.
          bind_res (pt_read s1 current_table i) (\<lambda>entry1.
          bind_res (if flags AND PTE_WRITABLE \<noteq> 0
                    then pt_write current_table i (entry1 OR PTE_WRITABLE) s1 else Inr s1) (\<lambda>s2.
          Inr (True, s2)))))
       (\<lambda>(ok, s4).
          if \<not> ok then Inr (None, s4)
          else bind_res (pt_read s4 current_table i) (\<lambda>entry2.
                 Inr (Some (vmm_get_table s4 (entry2 AND VMM_ADDR_MASK)), s4))))"

fun vmm_map_levels ::
  "cpu_env \<Rightarrow> u64 \<Rightarrow> u64 list \<Rightarrow> u64 \<Rightarrow> 'a vmm_state_scheme \<Rightarrow> (u64 option \<times> 'a vmm_state_scheme) res" where
  "vmm_map_levels env flags [] current_table s = Inr (Some current_table, s)"
| "vmm_map_levels env flags (i # is) current_table s =
     bind_res (vmm_map_level env flags current_table i s) (\<lambda>(t, s1).
       case t of None \<Rightarrow> Inr (None, s1) | Some t1 \<Rightarrow> vmm_map_levels env flags is t1 s1)"

definition vmm_map_unlocked ::
  "cpu_env \<Rightarrow> u64 \<Rightarrow> u64 \<Rightarrow> u64 \<Rightarrow> u64 \<Rightarrow> 'a vmm_state_scheme \<Rightarrow> (bool \<times> 'a vmm_state_scheme) res" where
  "vmm_map_unlocked env pml4 virt phys flags s =
     bind_res (vmm_map_levels env flags [PML4_IDX virt, PDPT_IDX virt, PD_IDX virt] pml4 s) (\<lambda>(t, s1).
       case t of
         None \<Rightarrow> Inr (False, s1)
       | Some current_table \<Rightarrow>
           bind_res (pt_write current_table (PT_IDX virt)
             ((phys AND VMM_ADDR_MASK) OR flags OR PTE_PRESENT) s1) (\<lambda>s2.
           Inr (True, vmm_invlpg virt s2)))"

text \<open>On failure the pages mapped so far are unmapped again.\<close>

function vmm_map_pages ::
  "cpu_env \<Rightarrow> u64 \<Rightarrow> u64 \<Rightarrow> u64 \<Rightarrow> u64 \<Rightarrow> u64 \<Rightarrow> u64 \<Rightarrow> 'a vmm_state_scheme \<Rightarrow>
     (bool \<times> 'a vmm_state_scheme) res" where
  "vmm_map_pages env pml4 virt phys flags npages i s =
     (if i < npages then
        bind_res (vmm_map_unlocked env pml4 (virt + i * PAGE_SIZE) (phys + i * PAGE_SIZE) flags s) (\<lambda>(ok, s1).
          if \<not> ok then
            bind_res (if i > 0 then vmm_unmap_range_unlocked pml4 virt (i * PAGE_SIZE) s1 else Inr s1) (\<lambda>s2.
              Inr (False, s2))
          else vmm_map_pages env pml4 virt phys flags npages (i + 1) s1)
      else Inr (True, s))"
  by pat_completeness auto
termination
  by (relation "measure (\<lambda>(env, pml4, virt, phys, flags, n, i, s). unat n - unat i)") auto

declare vmm_unmap_pages.simps [simp del] vmm_map_pages.simps [simp del]

definition vmm_map_range_unlocked ::
  "cpu_env \<Rightarrow> u64 \<Rightarrow> u64 \<Rightarrow> u64 \<Rightarrow> u64 \<Rightarrow> u64 \<Rightarrow> 'a vmm_state_scheme \<Rightarrow> (bool \<times> 'a vmm_state_scheme) res" where
  "vmm_map_range_unlocked env pml4 virt phys sz flags s =
     vmm_map_pages env pml4 virt phys flags ((sz + PAGE_SIZE - 1) div PAGE_SIZE) 0 s"

section \<open>The locked interface\<close>

definition map_failed_msg :: string where
  "map_failed_msg = ''VMM: Critical kernel mapping failed! (Out of memory for page tables)''"

definition vmm_map ::
  "cpu_env \<Rightarrow> u64 \<Rightarrow> u64 \<Rightarrow> u64 \<Rightarrow> u64 \<Rightarrow> 'a vmm_state_scheme \<Rightarrow> 'a vmm_state_scheme res" where
  "vmm_map env pml4 virt phys flags s =
     bind_res (spin_lock env (vmm_lock s)) (\<lambda>l.
     bind_res (vmm_map_unlocked env pml4 virt phys flags (s\<lparr>vmm_lock := l\<rparr>)) (\<lambda>(success, s1).
       let s2 = s1\<lparr>vmm_lock := spin_unlock env (vmm_lock s1)\<rparr>
       in if \<not> success \<and> virt \<ge> HHDM_OFFSET then Inl (KPanic map_failed_msg) else Inr s2))"

definition vmm_map_range ::
  "cpu_env \<Rightarrow> u64 \<Rightarrow> u64 \<Rightarrow> u64 \<Rightarrow> u64 \<Rightarrow> u64 \<Rightarrow> 'a vmm_state_scheme \<Rightarrow> 'a vmm_state_scheme res" where
  "vmm_map_range env pml4 virt phys sz flags s =
     bind_res (spin_lock env (vmm_lock s)) (\<lambda>l.
     bind_res (vmm_map_range_unlocked env pml4 virt phys sz flags (s\<lparr>vmm_lock := l\<rparr>)) (\<lambda>(success, s1).
       let s2 = s1\<lparr>vmm_lock := spin_unlock env (vmm_lock s1)\<rparr>
       in if \<not> success \<and> virt \<ge> HHDM_OFFSET then Inl (KPanic map_failed_msg) else Inr s2))"

text \<open>\<^verbatim>\<open>vmm_map_huge\<close> does not test the result of the frame allocator.\<close>

definition vmm_huge_level ::
  "cpu_env \<Rightarrow> u64 \<Rightarrow> u64 \<Rightarrow> 'a vmm_state_scheme \<Rightarrow> (u64 \<times> 'a vmm_state_scheme) res" where
  "vmm_huge_level env table i s =
     bind_res (pt_read s table i) (\<lambda>entry.
     bind_res
       (if \<not> pte_present entry then
          bind_res (pmm_alloc_frame env s) (\<lambda>(new_table, s1).
          bind_res (pt_zero (vmm_get_table s1 new_table) s1) (\<lambda>s2.
            pt_write table i ((new_table AND VMM_ADDR_MASK) OR PTE_PRESENT OR PTE_WRITABLE OR PTE_USER) s2))
        else Inr s) (\<lambda>s3.
     bind_res (pt_read s3 table i) (\<lambda>entry1.
       Inr (vmm_get_table s3 (entry1 AND VMM_ADDR_MASK), s3))))"

definition vmm_map_huge ::
  "cpu_env \<Rightarrow> u64 \<Rightarrow> u64 \<Rightarrow> u64 \<Rightarrow> u64 \<Rightarrow> 'a vmm_state_scheme \<Rightarrow> 'a vmm_state_scheme res" where
  "vmm_map_huge env pml4 virt phys flags s =
     bind_res (spin_lock env (vmm_lock s)) (\<lambda>l.
     bind_res (vmm_huge_level env pml4 (PML4_IDX virt) (s\<lparr>vmm_lock := l\<rparr>)) (\<lambda>(pdpt, s1).
     bind_res (vmm_huge_level env pdpt (PDPT_IDX virt) s1) (\<lambda>(pd, s2).
     bind_res (pt_write pd (PD_IDX virt) ((phys AND VMM_ADDR_MASK) OR flags OR 0x81) s2) (\<lambda>s3.
       let s4 = vmm_invlpg virt s3
       in Inr (s4\<lparr>vmm_lock := spin_unlock env (vmm_lock s4)\<rparr>)))))"

definition vmm_map_device ::
  "cpu_env \<Rightarrow> u64 \<Rightarrow> u64 \<Rightarrow> u64 \<Rightarrow> u64 \<Rightarrow> 'a vmm_state_scheme \<Rightarrow> (u64 \<times> 'a vmm_state_scheme) res" where
  "vmm_map_device env pml4 virt phys sz s =
     (let phys_aligned = PAGE_ALIGN_DOWN phys;
          offset = phys - phys_aligned;
          full_size = PAGE_ALIGN_UP (sz + offset);
          flags = PTE_PRESENT OR PTE_WRITABLE OR PTE_NX OR push_bit 7 1
      in bind_res (vmm_map_range env pml4 virt phys_aligned full_size flags s) (\<lambda>s1.
           Inr (virt + offset, s1)))"

text \<open>The walk in \<^verbatim>\<open>vmm_unmap\<close> is that of \<^verbatim>\<open>_vmm_unmap_unlocked\<close>; every exit runs \<^verbatim>\<open>sync_tlb\<close>.\<close>

definition vmm_unmap :: "cpu_env \<Rightarrow> u64 \<Rightarrow> u64 \<Rightarrow> 'a vmm_state_scheme \<Rightarrow> 'a vmm_state_scheme res" where
  "vmm_unmap env pml4 virt s =
     bind_res (spin_lock env (vmm_lock s)) (\<lambda>l.
     bind_res (vmm_unmap_unlocked pml4 virt (s\<lparr>vmm_lock := l\<rparr>)) (\<lambda>s1.
       let s2 = sync_tlb s1
       in Inr (s2\<lparr>vmm_lock := spin_unlock env (vmm_lock s2)\<rparr>)))"

definition vmm_unmap_range ::
  "cpu_env \<Rightarrow> u64 \<Rightarrow> u64 \<Rightarrow> u64 \<Rightarrow> 'a vmm_state_scheme \<Rightarrow> 'a vmm_state_scheme res" where
  "vmm_unmap_range env pml4 virt sz s =
     bind_res (spin_lock env (vmm_lock s)) (\<lambda>l.
     bind_res (vmm_unmap_range_unlocked pml4 virt sz (s\<lparr>vmm_lock := l\<rparr>)) (\<lambda>s1.
       let s2 = sync_tlb s1
       in Inr (s2\<lparr>vmm_lock := spin_unlock env (vmm_lock s2)\<rparr>)))"

definition vmm_virtual_to_physical :: "'a vmm_state_scheme \<Rightarrow> u64 \<Rightarrow> u64 \<Rightarrow> u64 res" where
  "vmm_virtual_to_physical s pml4 virt =
     bind_res (pt_read s pml4 (PML4_IDX virt)) (\<lambda>e4.
       if \<not> pte_present e4 then Inr 0
       else let pdpt = vmm_get_table s (e4 AND VMM_ADDR_MASK)
       in bind_res (pt_read s pdpt (PDPT_IDX virt)) (\<lambda>e3.
       if \<not> pte_present e3 then Inr 0
       else let pd = vmm_get_table s (e3 AND VMM_ADDR_MASK)
       in bind_res (pt_read s pd (PD_IDX virt)) (\<lambda>e2.
       if e2 AND PTE_HUGE \<noteq> 0 then Inr ((e2 AND 0xFFFFFFFFFE000000) + (virt AND 0x1FFFFF))
       else if \<not> pte_present e2 then Inr 0
       else let pt = vmm_get_table s (e2 AND VMM_ADDR_MASK)
       in bind_res (pt_read s pt (PT_IDX virt)) (\<lambda>e1.
       if \<not> pte_present e1 then Inr 0
       else Inr ((e1 AND VMM_ADDR_MASK) + (virt AND 0xFFF))))))"

section \<open>Address spaces\<close>

definition indices :: "nat \<Rightarrow> nat \<Rightarrow> u64 list" where
  "indices lo hi = map of_nat [lo ..< hi]"

definition vmm_create_user_pml4 ::
  "cpu_env \<Rightarrow> 'a vmm_state_scheme \<Rightarrow> (u64 \<times> 'a vmm_state_scheme) res" where
  "vmm_create_user_pml4 env s =
     bind_res (pmm_alloc_frame env s) (\<lambda>(pml4_phys, s1).
       if pml4_phys = 0 then Inr (0, s1)
       else let new_pml4 = vmm_get_table s1 pml4_phys
       in bind_res (pt_zero new_pml4 s1) (\<lambda>s2.
          bind_res (for_each (\<lambda>i t. bind_res (pt_read t (kernel_pml4 t) i) (\<lambda>e. pt_write new_pml4 i e t))
                      (indices 256 512) s2) (\<lambda>s3.
          Inr (pml4_phys, s3))))"

definition vmm_free_pt ::
  "cpu_env \<Rightarrow> u64 \<Rightarrow> 'a vmm_state_scheme \<Rightarrow> 'a vmm_state_scheme res" where
  "vmm_free_pt env pt s =
     for_each (\<lambda>l t. bind_res (pt_read t pt l) (\<lambda>e.
         if pte_present e then pmm_free_frame env (e AND VMM_ADDR_MASK) t else Inr t))
       (indices 0 512) s"

definition vmm_free_pd ::
  "cpu_env \<Rightarrow> bool \<Rightarrow> u64 \<Rightarrow> 'a vmm_state_scheme \<Rightarrow> 'a vmm_state_scheme res" where
  "vmm_free_pd env free_frames pd s =
     for_each (\<lambda>k t. bind_res (pt_read t pd k) (\<lambda>e.
         if \<not> pte_present e then Inr t
         else if e AND PTE_HUGE \<noteq> 0
              then (if free_frames then pmm_free_frame env (e AND VMM_ADDR_MASK) t else Inr t)
         else bind_res (if free_frames then vmm_free_pt env (phys_to_virt (e AND VMM_ADDR_MASK)) t
                        else Inr t) (\<lambda>t1.
              pmm_free_frame env (e AND VMM_ADDR_MASK) t1)))
       (indices 0 512) s"

definition vmm_free_pdpt ::
  "cpu_env \<Rightarrow> bool \<Rightarrow> u64 \<Rightarrow> 'a vmm_state_scheme \<Rightarrow> 'a vmm_state_scheme res" where
  "vmm_free_pdpt env free_frames pdpt s =
     for_each (\<lambda>j t. bind_res (pt_read t pdpt j) (\<lambda>e.
         if \<not> pte_present e then Inr t
         else if e AND PTE_HUGE \<noteq> 0
              then (if free_frames then pmm_free_frame env (e AND VMM_ADDR_MASK) t else Inr t)
         else bind_res (vmm_free_pd env free_frames (phys_to_virt (e AND VMM_ADDR_MASK)) t) (\<lambda>t1.
              pmm_free_frame env (e AND VMM_ADDR_MASK) t1)))
       (indices 0 512) s"

definition vmm_destroy_user_pml4 ::
  "cpu_env \<Rightarrow> u64 \<Rightarrow> bool \<Rightarrow> 'a vmm_state_scheme \<Rightarrow> 'a vmm_state_scheme res" where
  "vmm_destroy_user_pml4 env cr3 free_frames s =
     (let pml4 = phys_to_virt cr3
      in bind_res (for_each (\<lambda>i t. bind_res (pt_read t pml4 i) (\<lambda>e.
             if \<not> pte_present e then Inr t
             else bind_res (vmm_free_pdpt env free_frames (phys_to_virt (e AND VMM_ADDR_MASK)) t) (\<lambda>t1.
                  pmm_free_frame env (e AND VMM_ADDR_MASK) t1)))
           (indices 0 256) s) (\<lambda>s1.
         bind_res (pmm_free_frame env cr3 s1) (\<lambda>s2.
         Inr (sync_tlb s2))))"

definition vmm_get_pml4 :: "'a vmm_state_scheme \<Rightarrow> u64" where
  "vmm_get_pml4 s = kernel_pml4 s"

definition vmm_get_pml4_phys :: "'a vmm_state_scheme \<Rightarrow> u64" where
  "vmm_get_pml4_phys s = kernel_pml4_phys s"

section \<open>Switching to the kernel's own tables\<close>

text \<open>
  The addresses the linker script defines, the stack pointer and the address of the
  \<^verbatim>\<open>BootInfo\<close> are arguments. \<^verbatim>\<open>sizeof(BootInfo)\<close> is 128.
\<close>

record linker_symbols =
  text_start :: u64
  text_end :: u64
  rodata_start :: u64
  rodata_end :: u64
  data_start :: u64
  data_end :: u64

definition vmm_enable_pat :: "'a vmm_state_scheme \<Rightarrow> 'a vmm_state_scheme" where
  "vmm_enable_pat s =
     (let pat = (msr_pat s AND NOT (push_bit 32 0xFF)) OR push_bit 32 0x01
      in s\<lparr>msr_pat := pat, hw_log := hw_log s @ [WrPat pat]\<rparr>)"

definition enable_nxe :: "'a vmm_state_scheme \<Rightarrow> 'a vmm_state_scheme" where
  "enable_nxe s = (let v = msr_efer s OR 0x800 in s\<lparr>msr_efer := v, hw_log := hw_log s @ [WrEfer v]\<rparr>)"

definition enable_pae_cr4 :: "'a vmm_state_scheme \<Rightarrow> 'a vmm_state_scheme" where
  "enable_pae_cr4 s = (let v = reg_cr4 s OR push_bit 5 1 in s\<lparr>reg_cr4 := v, hw_log := hw_log s @ [WrCr4 v]\<rparr>)"

definition disable_wp_cr0 :: "'a vmm_state_scheme \<Rightarrow> 'a vmm_state_scheme" where
  "disable_wp_cr0 s =
     (let v = reg_cr0 s AND NOT (push_bit 16 1) in s\<lparr>reg_cr0 := v, hw_log := hw_log s @ [WrCr0 v]\<rparr>)"

definition enable_wp_cr0 :: "'a vmm_state_scheme \<Rightarrow> 'a vmm_state_scheme" where
  "enable_wp_cr0 s = (let v = reg_cr0 s OR push_bit 16 1 in s\<lparr>reg_cr0 := v, hw_log := hw_log s @ [WrCr0 v]\<rparr>)"

text \<open>The calls of \<^verbatim>\<open>vmm_init\<close> ignore whether the mapping succeeded.\<close>

definition map_page ::
  "cpu_env \<Rightarrow> u64 \<Rightarrow> u64 \<Rightarrow> u64 \<Rightarrow> u64 \<Rightarrow> 'a vmm_state_scheme \<Rightarrow> 'a vmm_state_scheme res" where
  "map_page env pml4 virt phys flags s =
     bind_res (vmm_map_unlocked env pml4 virt phys flags s) (\<lambda>(ok, s1). Inr s1)"

definition map_range ::
  "cpu_env \<Rightarrow> u64 \<Rightarrow> u64 \<Rightarrow> u64 \<Rightarrow> u64 \<Rightarrow> u64 \<Rightarrow> 'a vmm_state_scheme \<Rightarrow> 'a vmm_state_scheme res" where
  "map_range env pml4 virt phys sz flags s =
     bind_res (vmm_map_range_unlocked env pml4 virt phys sz flags s) (\<lambda>(ok, s1). Inr s1)"

text \<open>
  The descriptors visited by \<^verbatim>\<open>for (offset = 0; offset < total_map_size; offset += desc_size)\<close>.
\<close>

definition hhdm_entries :: "BootMemoryMap \<Rightarrow> EFI_MEMORY_DESCRIPTOR list res" where
  "hhdm_entries m =
     (let total_map_size = unat (memory_map_size m); desc_size = unat (descriptor_size m)
      in if total_map_size = 0 then Inr []
         else if desc_size = 0 then Inl Diverges
         else let entries = (total_map_size + desc_size - 1) div desc_size
              in if entries \<le> length (memory_map m) then Inr (take entries (memory_map m))
                 else Inl OutOfBounds)"

definition vmm_init ::
  "cpu_env \<Rightarrow> linker_symbols \<Rightarrow> u64 \<Rightarrow> u64 \<Rightarrow> BootInfo \<Rightarrow> 'a vmm_state_scheme \<Rightarrow>
     (BootInfo \<times> 'a vmm_state_scheme) res" where
  "vmm_init env ld current_rsp bi_phys bi s =
     bind_res (pmm_alloc_frame env (vmm_enable_pat s)) (\<lambda>(local_pml4, s1).
     bind_res (pt_zero local_pml4 s1) (\<lambda>s2.
     bind_res (for_each (\<lambda>addr. map_page env local_pml4 addr addr (PTE_PRESENT OR PTE_WRITABLE))
       (map (\<lambda>n. of_nat n * PAGE_SIZE) [0 ..< unat ((KERNEL_PHYS_BASE + 0x400000) div PAGE_SIZE)]) s2) (\<lambda>s3.
     bind_res (hhdm_entries (bi_mmap bi)) (\<lambda>descs.
     bind_res (for_each (\<lambda>desc t.
         if desc_type desc \<noteq> 0 \<and> num_pages desc > 0
         then map_range env local_pml4 (physical_start desc + HHDM_OFFSET) (physical_start desc)
                (num_pages desc * 4096) (PTE_PRESENT OR PTE_WRITABLE) t
         else Inr t) descs s3) (\<lambda>s4.
     bind_res (map_range env local_pml4 (text_start ld)
       (KERNEL_PHYS_BASE + (text_start ld - KERNEL_VIRT_BASE)) (text_end ld - text_start ld)
       PTE_PRESENT s4) (\<lambda>s5.
     bind_res (map_range env local_pml4 (rodata_start ld)
       (KERNEL_PHYS_BASE + (rodata_start ld - KERNEL_VIRT_BASE)) (rodata_end ld - rodata_start ld)
       (PTE_PRESENT OR PTE_NX) s5) (\<lambda>s6.
     bind_res (map_range env local_pml4 (data_start ld)
       (KERNEL_PHYS_BASE + (data_start ld - KERNEL_VIRT_BASE)) (data_end ld - data_start ld)
       (PTE_PRESENT OR PTE_WRITABLE OR PTE_NX) s6) (\<lambda>s7.
     bind_res (for_each (\<lambda>i t.
         let phys_addr = PAGE_ALIGN_DOWN current_rsp - i * PAGE_SIZE
         in bind_res (map_page env local_pml4 (phys_to_virt phys_addr) phys_addr
                        (PTE_PRESENT OR PTE_WRITABLE OR PTE_NX) t) (\<lambda>t1.
            map_page env local_pml4 phys_addr phys_addr (PTE_PRESENT OR PTE_WRITABLE OR PTE_NX) t1))
       (indices 0 16) s7) (\<lambda>s8.
     let fb_phys = framebuffer_base (bi_fb bi);
         fb_virt = phys_to_virt fb_phys
     in bind_res (vmm_map_device env local_pml4 fb_virt fb_phys (framebuffer_size (bi_fb bi)) s8) (\<lambda>(p, s9).
     let bi' = bi\<lparr>bi_fb := (bi_fb bi)\<lparr>framebuffer_base := fb_virt\<rparr>\<rparr>;
         bi_virt = phys_to_virt bi_phys
     in bind_res (map_range env local_pml4 (PAGE_ALIGN_DOWN bi_virt) (PAGE_ALIGN_DOWN bi_phys) 128
         (PTE_PRESENT OR PTE_WRITABLE OR PTE_NX) s9) (\<lambda>s10.
     let s11 = disable_wp_cr0 (enable_pae_cr4 (enable_nxe (s10\<lparr>kernel_pml4_phys := local_pml4\<rparr>)));
         s12 = s11\<lparr>hw_log := hw_log s11 @ [WrCr3 local_pml4]\<rparr>;
         s13 = pmm_move_to_high_half s12;
         s14 = s13\<lparr>kernel_pml4 := phys_to_virt local_pml4\<rparr>
     in Inr (bi', enable_wp_cr0 s14))))))))))))"

end
