(* ===== verification/Pmm_Proofs.thy ===== *)
theory Pmm_Proofs
  imports Pmm
begin

text \<open>
  Correctness of the physical memory manager: the bitmap seen as the set of free frame numbers, what
  each operation does to that set, the invariant all operations keep, and the
  frame-allocator interface that the layers above rely on.
\<close>

section \<open>The bitmap as a set of free frames\<close>

definition frame_used :: "'a pmm_state_scheme \<Rightarrow> nat \<Rightarrow> bool" where
  "frame_used s n \<longleftrightarrow> bit (bitmap s ! (n div 8)) (n mod 8)"

definition free_frames :: "'a pmm_state_scheme \<Rightarrow> nat set" where
  "free_frames s = {n. n < 8 * length (bitmap s) \<and> \<not> frame_used s n}"

text \<open>
  The bitmap is in place, its recorded size is its length, the size is what \<open>pmm_init\<close> can
  compute (so that no frame address overflows), and frame 0 is never handed out.
\<close>

definition pmm_inv :: "'a pmm_state_scheme \<Rightarrow> bool" where
  "pmm_inv s \<longleftrightarrow> bitmap_ptr s \<noteq> 0 \<and> length (bitmap s) = unat (bitmap_size s)
     \<and> unat (bitmap_size s) < 2 ^ 49 \<and> 0 \<notin> free_frames s"

definition frame_set :: "nat \<Rightarrow> 'a pmm_state_scheme \<Rightarrow> 'a pmm_state_scheme" where
  "frame_set n s = s\<lparr>bitmap := (bitmap s)[n div 8 := bitmap s ! (n div 8) OR push_bit (n mod 8) 1]\<rparr>"

definition frame_clear :: "nat \<Rightarrow> 'a pmm_state_scheme \<Rightarrow> 'a pmm_state_scheme" where
  "frame_clear n s =
     s\<lparr>bitmap := (bitmap s)[n div 8 := bitmap s ! (n div 8) AND NOT (push_bit (n mod 8) 1)]\<rparr>"

lemma bit_or_one: "k < 8 \<Longrightarrow> bit ((v :: u8) OR 2 ^ k) m \<longleftrightarrow> bit v m \<or> m = k"
  by (auto simp: bit_simps)

lemma bit_and_not_one: "k < 8 \<Longrightarrow> bit ((v :: u8) AND NOT (2 ^ k)) m \<longleftrightarrow> bit v m \<and> m \<noteq> k"
  by (auto simp: bit_simps dest: bit_imp_le_length)

lemma and_one_eq_0:
  assumes "k < 8"
  shows "(v :: u8) AND 2 ^ k = 0 \<longleftrightarrow> \<not> bit v k"
proof -
  have "bit (v AND 2 ^ k) n \<longleftrightarrow> bit v k \<and> n = k" for n
    using assms by (auto simp: bit_simps)
  then show ?thesis by (metis bit_0_eq bit_eqI bot_apply bot_bool_def)
qed

lemma div_mod_eq_iff: "(m :: nat) div 8 = n div 8 \<and> m mod 8 = n mod 8 \<longleftrightarrow> m = n"
  by (metis div_mod_decomp)

lemma frame_set_sel [simp]:
  "bitmap_ptr (frame_set n s) = bitmap_ptr s" "bitmap_size (frame_set n s) = bitmap_size s"
  "length (bitmap (frame_set n s)) = length (bitmap s)"
  "pmm_last_index (frame_set n s) = pmm_last_index s" "pmm_lock (frame_set n s) = pmm_lock s"
  "pmm_state.more (frame_set n s) = pmm_state.more s"
  by (auto simp: frame_set_def)

lemma frame_clear_sel [simp]:
  "bitmap_ptr (frame_clear n s) = bitmap_ptr s" "bitmap_size (frame_clear n s) = bitmap_size s"
  "length (bitmap (frame_clear n s)) = length (bitmap s)"
  "pmm_last_index (frame_clear n s) = pmm_last_index s" "pmm_lock (frame_clear n s) = pmm_lock s"
  "pmm_state.more (frame_clear n s) = pmm_state.more s"
  by (auto simp: frame_clear_def)

lemma frame_used_set:
  "n < 8 * length (bitmap s) \<Longrightarrow> frame_used (frame_set n s) m \<longleftrightarrow> frame_used s m \<or> m = n"
  using div_mod_eq_iff [of m n]
  by (auto simp: frame_used_def frame_set_def bit_or_one nth_list_update less_mult_imp_div_less
      mult.commute)

lemma frame_used_clear:
  "n < 8 * length (bitmap s) \<Longrightarrow> frame_used (frame_clear n s) m \<longleftrightarrow> frame_used s m \<and> m \<noteq> n"
  using div_mod_eq_iff [of m n]
  by (auto simp: frame_used_def frame_clear_def bit_and_not_one nth_list_update
      less_mult_imp_div_less mult.commute)

lemma free_frames_set [simp]:
  "n < 8 * length (bitmap s) \<Longrightarrow> free_frames (frame_set n s) = free_frames s - {n}"
  by (auto simp: free_frames_def frame_used_set)

lemma free_frames_clear [simp]:
  "n < 8 * length (bitmap s) \<Longrightarrow> free_frames (frame_clear n s) = insert n (free_frames s)"
  by (auto simp: free_frames_def frame_used_clear)

lemma free_frames_upd [simp]:
  "free_frames (s\<lparr>pmm_lock := l\<rparr>) = free_frames s"
  "free_frames (s\<lparr>pmm_last_index := h\<rparr>) = free_frames s"
  by (auto simp: free_frames_def frame_used_def)

lemma pmm_inv_upd [simp]:
  "pmm_inv (s\<lparr>pmm_lock := l\<rparr>) = pmm_inv s" "pmm_inv (s\<lparr>pmm_last_index := h\<rparr>) = pmm_inv s"
  by (auto simp: pmm_inv_def)

lemma pmm_inv_set: "pmm_inv s \<Longrightarrow> n < 8 * length (bitmap s) \<Longrightarrow> pmm_inv (frame_set n s)"
  by (simp add: pmm_inv_def)

lemma pmm_inv_clear: "pmm_inv s \<Longrightarrow> n < 8 * length (bitmap s) \<Longrightarrow> n \<noteq> 0 \<Longrightarrow> pmm_inv (frame_clear n s)"
  by (simp add: pmm_inv_def)

text \<open>The bitmap helpers in terms of frame numbers.\<close>

lemma bm_set_bit:
  assumes "bitmap_ptr s \<noteq> 0" and "unat i < length (bitmap s)" and "b < 8"
  shows "bind_res (bm_read s i) (\<lambda>v. bm_write s i (v OR push_bit b 1)) = Inr (frame_set (8 * unat i + b) s)"
  using assms by (simp add: bm_read_def bm_write_def frame_set_def)

lemma unat_frame_index:
  "unat ((a :: u64) div PAGE_SIZE) = unat a div 4096"
  "unat ((a :: u64) div PAGE_SIZE div 8) = unat a div 4096 div 8"
  "unat ((a :: u64) div PAGE_SIZE mod 8) = unat a div 4096 mod 8"
  by (simp_all add: unat_div unat_mod)

lemma pmm_set_frame_eq:
  "pmm_set_frame s a =
     (if bitmap_ptr s = 0 then Inl NullDeref
      else if unat a div 4096 < 8 * length (bitmap s) then Inr (frame_set (unat a div 4096) s)
      else Inl OutOfBounds)"
  by (auto simp: pmm_set_frame_def bm_read_def bm_write_def frame_set_def Let_def unat_frame_index)

lemma pmm_unset_frame_eq:
  "pmm_unset_frame s a =
     (if bitmap_ptr s = 0 then Inl NullDeref
      else if unat a div 4096 < 8 * length (bitmap s) then Inr (frame_clear (unat a div 4096) s)
      else Inl OutOfBounds)"
  by (auto simp: pmm_unset_frame_def bm_read_def bm_write_def frame_clear_def Let_def unat_frame_index)

lemma pmm_is_frame_set_eq:
  "pmm_is_frame_set s a =
     (if bitmap_ptr s = 0 then Inl NullDeref
      else if unat a div 4096 < 8 * length (bitmap s) then Inr (frame_used s (unat a div 4096))
      else Inl OutOfBounds)"
  by (auto simp: pmm_is_frame_set_def bm_read_def frame_used_def Let_def unat_frame_index and_one_eq_0)

text \<open>A frame number of the bitmap as an address.\<close>

definition addr_of_frame :: "nat \<Rightarrow> u64" where
  "addr_of_frame n = of_nat n * PAGE_SIZE"

lemma unat_addr_of_frame:
  assumes "n < 2 ^ 52"
  shows "unat (addr_of_frame n) = n * 4096"
proof -
  have "unat (of_nat n :: u64) = n" using assms by (simp add: unat_of_nat)
  moreover have "n * 4096 < 2 ^ 64" using assms by simp
  ultimately show ?thesis by (simp add: addr_of_frame_def unat_mult_no_overflow)
qed

lemma addr_of_frame_inj:
  assumes "m < 2 ^ 52" and "n < 2 ^ 52"
  shows "addr_of_frame m = addr_of_frame n \<longleftrightarrow> m = n"
proof
  assume "addr_of_frame m = addr_of_frame n"
  then have "m * 4096 = n * 4096" using unat_addr_of_frame assms by metis
  then show "m = n" by simp
qed simp

lemma addr_of_frame_eq_0: "n < 2 ^ 52 \<Longrightarrow> addr_of_frame n = 0 \<longleftrightarrow> n = 0"
  using addr_of_frame_inj [of n 0] by (simp add: addr_of_frame_def)

lemma free_frame_bound: "pmm_inv s \<Longrightarrow> n \<in> free_frames s \<Longrightarrow> n < 2 ^ 52 \<and> n \<noteq> 0"
  by (auto simp: pmm_inv_def free_frames_def) (metis gr0I)


lemma free_frame_addr:
  assumes "pmm_inv s" and "n \<in> free_frames s"
  shows "addr_of_frame n \<noteq> 0"
proof -
  from free_frame_bound [OF assms] have "n < 2 ^ 52" and "n \<noteq> 0" by auto
  from addr_of_frame_eq_0 [OF this(1)] this(2) show ?thesis by (simp only: not_False_eq_True)
qed

section \<open>Allocating one frame\<close>

lemma byte_full: "v = (0xFF :: u8) \<longleftrightarrow> (\<forall>b<8. bit v b)"
proof
  assume "v = 0xFF"
  then have "v = -1" by simp
  then show "\<forall>b<8. bit v b" by simp
next
  assume "\<forall>b<8. bit v b"
  then have "v = -1" by (intro bit_word_eqI) simp
  then show "v = 0xFF" by simp
qed

lemma free_bits_nonzero:
  assumes "v \<noteq> (0xFF :: u8)"
  shows "NOT v \<noteq> 0"
proof
  assume "NOT v = 0"
  then have "NOT (NOT v) = NOT 0" by simp
  with assms show False by simp
qed

lemma pmm_find_frame_spec:
  assumes "pmm_inv s"
  shows "\<exists>r. pmm_find_frame s i = Inr r \<and>
     (case r of
        None \<Rightarrow> \<forall>n\<in>free_frames s. n div 8 < unat i
      | Some (k, b, a) \<Rightarrow> unat k < length (bitmap s) \<and> b < 8 \<and> 8 * unat k + b \<in> free_frames s
          \<and> a = addr_of_frame (8 * unat k + b) \<and> unat i \<le> unat k
          \<and> (\<forall>n\<in>free_frames s. unat i \<le> n div 8 \<longrightarrow> 8 * unat k + b \<le> n))"
  using assms
proof (induction s i rule: pmm_find_frame.induct)
  case (1 s i)
  let ?v = "bitmap s ! unat i"
  show ?case
  proof (cases "i < bitmap_size s")
    case False
    then have "n div 8 < unat i" if "n \<in> free_frames s" for n
      using that 1 by (auto simp: pmm_inv_def free_frames_def word_less_nat_alt)
    with False show ?thesis by (simp add: pmm_find_frame.simps [of s i])
  next
    case i: True
    with 1 have len: "unat i < length (bitmap s)" by (simp add: pmm_inv_def word_less_nat_alt)
    with 1 have rd: "bm_read s i = Inr ?v" by (simp add: bm_read_def pmm_inv_def)
    have suc: "unat (i + 1) = Suc (unat i)" using i by (rule word_step_Suc)
    show ?thesis
    proof (cases "?v = 0xFF")
      case True
      then have full: "n div 8 \<noteq> unat i" if "n \<in> free_frames s" for n
        using that byte_full [of ?v] by (auto simp: free_frames_def frame_used_def)
      from "1.IH"(1) [OF i rd True "1.prems"]
      obtain r where r: "pmm_find_frame s (i + 1) = Inr r" and R: "case r of
          None \<Rightarrow> \<forall>n\<in>free_frames s. n div 8 < unat (i + 1)
        | Some (k, b, a) \<Rightarrow> unat k < length (bitmap s) \<and> b < 8 \<and> 8 * unat k + b \<in> free_frames s
          \<and> a = addr_of_frame (8 * unat k + b) \<and> unat (i + 1) \<le> unat k
          \<and> (\<forall>n\<in>free_frames s. unat (i + 1) \<le> n div 8 \<longrightarrow> 8 * unat k + b \<le> n)"
        by blast
      have "pmm_find_frame s i = Inr r"
        using i rd True r by (simp add: pmm_find_frame.simps [of s i])
      with R show ?thesis
        by (auto simp: suc split: option.splits) (metis full less_SucE, metis full Suc_leI le_neq_implies_less)
    next
      case False
      let ?b = "builtin_ctz (NOT ?v)"
      from False have nz: "NOT ?v \<noteq> 0" by (rule free_bits_nonzero)
      from builtin_ctz_less [OF nz] have b: "?b < 8" "bit (NOT ?v) ?b"
        "\<And>m. m < ?b \<Longrightarrow> \<not> bit (NOT ?v) m" by simp_all
      have below: "bit ?v m" if "m < ?b" for m
        using b(3) [OF that] that b(1) by (simp add: bit_not_iff)
      have "\<not> bit ?v ?b" using b(1,2) by (simp only: bit_not_iff simp_thms)
      with b(1) len have free: "8 * unat i + ?b \<in> free_frames s"
        by (simp add: free_frames_def frame_used_def)
      have addr: "(i * 8 + of_nat ?b) * PAGE_SIZE = addr_of_frame (8 * unat i + ?b)"
        by (simp add: addr_of_frame_def algebra_simps)
      have nz_addr: "addr_of_frame (8 * unat i + ?b) \<noteq> 0"
        by (rule free_frame_addr [OF "1.prems" free])
      have res: "pmm_find_frame s i = Inr (Some (i, ?b, addr_of_frame (8 * unat i + ?b)))"
        using i rd False nz b(1) nz_addr
        by (simp add: pmm_find_frame.simps [of s i] Let_def addr [simplified])
      have "8 * unat i + ?b \<le> n" if n: "n \<in> free_frames s" "unat i \<le> n div 8" for n
      proof (cases "n div 8 = unat i")
        case True
        with n have "\<not> bit ?v (n mod 8)" by (simp add: free_frames_def frame_used_def)
        then have "?b \<le> n mod 8" using below by (meson not_le)
        with True show ?thesis by (metis add_le_cancel_left mult_div_mod_eq)
      next
        case False
        with n have "Suc (unat i) \<le> n div 8" by simp
        with b show ?thesis by (auto simp: div_le_mono)
      qed
      with res free b len show ?thesis by auto
    qed
  qed
qed


text \<open>Where the search of the running CPU starts, and the state after frame \<open>n\<close> was taken.\<close>

definition search_hint :: "cpu_env \<Rightarrow> 'a pmm_state_scheme \<Rightarrow> nat" where
  "search_hint env s = (case this_cpu env of Some c \<Rightarrow> unat (pmm_last_index s c) | None \<Rightarrow> 0)"

definition set_hint :: "cpu_env \<Rightarrow> u64 \<Rightarrow> 'a pmm_state_scheme \<Rightarrow> 'a pmm_state_scheme" where
  "set_hint env i s =
     (case this_cpu env of
        Some c \<Rightarrow> s\<lparr>pmm_last_index := (pmm_last_index s)(c := i)\<rparr>
      | None \<Rightarrow> s)"

abbreviation relock :: "cpu_env \<Rightarrow> 'a pmm_state_scheme \<Rightarrow> 'a pmm_state_scheme" where
  "relock env s \<equiv> s\<lparr>pmm_lock := spin_unlock env (spin_locked env (pmm_lock s))\<rparr>"

lemma set_hint_sel [simp]:
  "bitmap (set_hint env i s) = bitmap s" "bitmap_ptr (set_hint env i s) = bitmap_ptr s"
  "bitmap_size (set_hint env i s) = bitmap_size s" "pmm_lock (set_hint env i s) = pmm_lock s"
  "pmm_state.more (set_hint env i s) = pmm_state.more s"
  "free_frames (set_hint env i s) = free_frames s" "pmm_inv (set_hint env i s) = pmm_inv s"
  by (auto simp: set_hint_def split: option.splits)

lemma bitmap_fields_upd [simp]:
  "bm_read (s\<lparr>pmm_lock := l\<rparr>) i = bm_read s i"
  "pmm_last_index (s\<lparr>pmm_lock := l\<rparr>) = pmm_last_index s"
  by (auto simp: bm_read_def)

lemma pmm_alloc_frame_cases:
  assumes inv: "pmm_inv s" and free: "lock_free env (pmm_lock s)"
  obtains
    (none) "pmm_alloc_frame env s = Inr (0, relock env s)"
      "\<And>n. n \<in> free_frames s \<Longrightarrow> n div 8 < search_hint env s"
  | (frame) n where "n \<in> free_frames s" "search_hint env s \<le> n div 8"
      "pmm_alloc_frame env s =
         Inr (addr_of_frame n, relock env (set_hint env (of_nat (n div 8)) (frame_set n s)))"
      "\<And>m. m \<in> free_frames s \<Longrightarrow> search_hint env s \<le> m div 8 \<Longrightarrow> n \<le> m"
proof -
  define s1 where "s1 = s\<lparr>pmm_lock := spin_locked env (pmm_lock s)\<rparr>"
  define i where "i = (case this_cpu env of Some c \<Rightarrow> pmm_last_index s1 c | None \<Rightarrow> 0)"
  have i: "unat i = search_hint env s"
    by (simp add: i_def s1_def search_hint_def split: option.splits)
  have inv1: "pmm_inv s1" and ff: "free_frames s1 = free_frames s" using inv by (simp_all add: s1_def)
  have ptr: "(bitmap_ptr s = 0) = False" using inv by (simp add: pmm_inv_def)
  have start: "pmm_alloc_frame env s = bind_res (pmm_find_frame s1 i) (\<lambda>r. case r of
               None \<Rightarrow> Inr (0, s1\<lparr>pmm_lock := spin_unlock env (pmm_lock s1)\<rparr>)
             | Some (i, b, a) \<Rightarrow>
                 bind_res (bm_read s1 i) (\<lambda>v.
                 bind_res (bm_write s1 i (v OR push_bit b 1)) (\<lambda>s2.
                   let s3 = set_hint env i s2
                   in Inr (a, s3\<lparr>pmm_lock := spin_unlock env (pmm_lock s3)\<rparr>))))"
    by (simp only: pmm_alloc_frame_def Let_def spin_lock_free [OF free] bind_res.simps ptr if_False
        s1_def i_def set_hint_def)
  from pmm_find_frame_spec [OF inv1, of i] obtain r where r: "pmm_find_frame s1 i = Inr r"
    and R: "case r of
        None \<Rightarrow> \<forall>n\<in>free_frames s1. n div 8 < unat i
      | Some (k, b, a) \<Rightarrow> unat k < length (bitmap s1) \<and> b < 8 \<and> 8 * unat k + b \<in> free_frames s1
          \<and> a = addr_of_frame (8 * unat k + b) \<and> unat i \<le> unat k
          \<and> (\<forall>n\<in>free_frames s1. unat i \<le> n div 8 \<longrightarrow> 8 * unat k + b \<le> n)" by blast
  show thesis
  proof (cases r)
    case None
    show thesis
    proof (rule none)
      show "pmm_alloc_frame env s = Inr (0, relock env s)"
        unfolding start r None by (simp add: s1_def)
    qed (use R None i ff in auto)
  next
    case (Some x)
    then obtain k b where x: "x = (k, b, addr_of_frame (8 * unat k + b))"
      and k: "unat k < length (bitmap s1)" "b < 8" "8 * unat k + b \<in> free_frames s" "unat i \<le> unat k"
      and least: "\<forall>n\<in>free_frames s. unat i \<le> n div 8 \<longrightarrow> 8 * unat k + b \<le> n"
      using R ff by (cases x) auto
    have "bind_res (bm_read s1 k) (\<lambda>v. bm_write s1 k (v OR push_bit b 1)) = Inr (frame_set (8 * unat k + b) s1)"
      using inv1 k by (intro bm_set_bit) (auto simp: pmm_inv_def)
    then obtain v where v: "bm_read s1 k = Inr v" "bm_write s1 k (v OR push_bit b 1) = Inr (frame_set (8 * unat k + b) s1)"
      by auto
    show thesis
    proof (rule frame [of "8 * unat k + b"])
      show "pmm_alloc_frame env s =
         Inr (addr_of_frame (8 * unat k + b),
              relock env (set_hint env (of_nat ((8 * unat k + b) div 8)) (frame_set (8 * unat k + b) s)))"
        unfolding start r Some x using v k(2)
        by (simp add: Let_def s1_def set_hint_def frame_set_def split: option.splits)
    qed (use k least i in auto)
  qed
qed


section \<open>Freeing a frame\<close>

definition lower_hint :: "cpu_env \<Rightarrow> u64 \<Rightarrow> 'a pmm_state_scheme \<Rightarrow> 'a pmm_state_scheme" where
  "lower_hint env i s =
     (case this_cpu env of
        Some c \<Rightarrow> if i < pmm_last_index s c
                  then s\<lparr>pmm_last_index := (pmm_last_index s)(c := i)\<rparr> else s
      | None \<Rightarrow> s)"

lemma lower_hint_sel [simp]:
  "bitmap (lower_hint env i s) = bitmap s" "bitmap_ptr (lower_hint env i s) = bitmap_ptr s"
  "bitmap_size (lower_hint env i s) = bitmap_size s" "pmm_lock (lower_hint env i s) = pmm_lock s"
  "pmm_state.more (lower_hint env i s) = pmm_state.more s"
  "free_frames (lower_hint env i s) = free_frames s" "pmm_inv (lower_hint env i s) = pmm_inv s"
  by (auto simp: lower_hint_def split: option.splits)

lemma pmm_free_frame_ok:
  assumes inv: "bitmap_ptr s \<noteq> 0" and free: "lock_free env (pmm_lock s)"
    and a: "a \<noteq> 0" "unat a div 4096 < 8 * length (bitmap s)"
  shows "pmm_free_frame env a s =
    Inr (relock env (lower_hint env (a div PAGE_SIZE div 8) (frame_clear (unat a div 4096) s)))"
proof -
  have "pmm_unset_frame (s\<lparr>pmm_lock := spin_locked env (pmm_lock s)\<rparr>) a =
      Inr ((frame_clear (unat a div 4096) s)\<lparr>pmm_lock := spin_locked env (pmm_lock s)\<rparr>)"
    using inv a by (simp add: pmm_unset_frame_eq frame_clear_def)
  with a show ?thesis
    by (simp add: pmm_free_frame_def spin_lock_free [OF free] Let_def lower_hint_def
        split: option.splits)
qed

section \<open>Allocating a run of frames\<close>

lemma pmm_count_run_spec:
  assumes "pmm_inv s" and "unat st + unat j < 2 ^ 63" and "j \<le> count"
  shows "\<exists>k. k \<le> unat count - unat j \<and> pmm_count_run s st count j f = Inr (f + of_nat k)
     \<and> {unat st + unat j ..< unat st + unat j + k} \<subseteq> free_frames s
     \<and> (k < unat count - unat j \<longrightarrow> unat st + unat j + k \<notin> free_frames s)"
  using assms
proof (induction s st count j f rule: pmm_count_run.induct)
  case (1 s st count j f)
  let ?n = "unat st + unat j"
  have n: "unat (st + j) = ?n" using "1.prems" by (simp add: unat_add_no_overflow)
  have lim: "unat (bitmap_size s * 8) = 8 * length (bitmap s)" and len: "8 * length (bitmap s) < 2 ^ 52"
    using "1.prems" by (auto simp: pmm_inv_def unat_mult_no_overflow)
  show ?case
  proof (cases "j < count")
    case False
    then show ?thesis by (intro exI [of _ 0]) (auto simp: pmm_count_run.simps [of s st count j f] word_less_nat_alt)
  next
    case j: True
    show ?thesis
    proof (cases "st + j \<ge> bitmap_size s * 8")
      case True
      then have "?n \<notin> free_frames s"
        using n lim by (auto simp: free_frames_def word_le_nat_alt)
      with j True show ?thesis
        by (intro exI [of _ 0]) (simp add: pmm_count_run.simps [of s st count j f])
    next
      case lt: False
      then have nlt: "?n < 8 * length (bitmap s)" using n lim by (simp add: word_le_nat_alt)
      define v where "v = bitmap s ! (?n div 8)"
      have rd: "bm_read s ((st + j) div 8) = Inr v"
        using "1.prems" nlt n by (simp add: bm_read_def pmm_inv_def unat_div v_def)
      have md: "unat ((st + j) mod 8) = ?n mod 8" using n by (simp add: unat_mod)
      show ?thesis
      proof (cases "bit v (?n mod 8)")
        case True
        then have "?n \<notin> free_frames s" by (simp add: free_frames_def frame_used_def v_def)
        with j lt rd md True show ?thesis
          by (intro exI [of _ 0])
            (simp add: pmm_count_run.simps [of s st count j f] Let_def and_one_eq_0 word_less_nat_alt)
      next
        case False
        then have fr: "?n \<in> free_frames s" using nlt by (simp add: free_frames_def frame_used_def v_def)
        have z: "v AND push_bit (unat ((st + j) mod 8)) 1 = 0"
          using False md by (simp add: and_one_eq_0)
        have suc: "unat (j + 1) = Suc (unat j)" using j by (rule word_step_Suc)
        have bound: "unat st + unat (j + 1) < 2 ^ 63" using nlt len suc by simp
        have le: "j + 1 \<le> count" using j suc by (simp add: word_le_nat_alt word_less_nat_alt)
        from "1.IH" [OF j refl lt rd z "1.prems"(1) bound le] obtain k where
          k: "k \<le> unat count - unat (j + 1)"
            "pmm_count_run s st count (j + 1) (f + 1) = Inr (f + 1 + of_nat k)"
            "{unat st + unat (j + 1) ..< unat st + unat (j + 1) + k} \<subseteq> free_frames s"
            "k < unat count - unat (j + 1) \<longrightarrow> unat st + unat (j + 1) + k \<notin> free_frames s"
          by blast
        have "pmm_count_run s st count j f = Inr (f + of_nat (Suc k))"
          using j lt rd z k(2) by (simp add: pmm_count_run.simps [of s st count j f] Let_def)
        moreover have "{?n ..< ?n + Suc k} \<subseteq> free_frames s"
        proof
          fix m
          assume "m \<in> {?n ..< ?n + Suc k}"
          then have "m = ?n \<or> m \<in> {unat st + unat (j + 1) ..< unat st + unat (j + 1) + k}"
            using suc by auto
          with fr k(3) show "m \<in> free_frames s" by blast
        qed
        moreover have "Suc k \<le> unat count - unat j" using k(1) suc j by (auto simp: word_less_nat_alt)
        moreover have "Suc k < unat count - unat j \<longrightarrow> ?n + Suc k \<notin> free_frames s"
          using k(4) suc by auto
        ultimately show ?thesis by blast
      qed
    qed
  qed
qed

lemma pmm_count_run_eq_count:
  assumes "pmm_inv s" and "unat st < 2 ^ 63"
  shows "\<exists>f. pmm_count_run s st count 0 0 = Inr f
     \<and> (f = count \<longleftrightarrow> {unat st ..< unat st + unat count} \<subseteq> free_frames s)"
proof -
  from pmm_count_run_spec [of s st 0 count 0] assms obtain k where
    k: "k \<le> unat count" "pmm_count_run s st count 0 0 = Inr (of_nat k)"
      "{unat st ..< unat st + k} \<subseteq> free_frames s"
      "k < unat count \<longrightarrow> unat st + k \<notin> free_frames s"
    by auto
  have "unat (of_nat k :: u64) = k" using k(1) unat_u64_less [of count] by (simp add: unat_of_nat)
  then have eq: "of_nat k = count \<longleftrightarrow> k = unat count" by auto
  have "{unat st ..< unat st + unat count} \<subseteq> free_frames s \<longleftrightarrow> k = unat count"
  proof
    assume "{unat st ..< unat st + unat count} \<subseteq> free_frames s"
    then have "unat st + k \<in> free_frames s" if "k < unat count" using that by auto
    with k show "k = unat count" by fastforce
  qed (use k in auto)
  with k eq show ?thesis by blast
qed


lemma fold_frame_set_sel [simp]:
  "bitmap_ptr (fold frame_set xs s) = bitmap_ptr s"
  "bitmap_size (fold frame_set xs s) = bitmap_size s"
  "length (bitmap (fold frame_set xs s)) = length (bitmap s)"
  "pmm_last_index (fold frame_set xs s) = pmm_last_index s"
  "pmm_lock (fold frame_set xs s) = pmm_lock s"
  "pmm_state.more (fold frame_set xs s) = pmm_state.more s"
  by (induction xs arbitrary: s) auto

lemma free_frames_fold_set:
  "\<forall>n\<in>set xs. n < 8 * length (bitmap s) \<Longrightarrow> free_frames (fold frame_set xs s) = free_frames s - set xs"
  by (induction xs arbitrary: s) auto

lemma pmm_inv_fold_set:
  "pmm_inv s \<Longrightarrow> \<forall>n\<in>set xs. n < 8 * length (bitmap s) \<Longrightarrow> pmm_inv (fold frame_set xs s)"
  by (simp add: pmm_inv_def free_frames_fold_set)

lemma frame_set_lock: "frame_set n (s\<lparr>pmm_lock := l\<rparr>) = (frame_set n s)\<lparr>pmm_lock := l\<rparr>"
  by (simp add: frame_set_def)

lemma fold_frame_set_lock: "fold frame_set xs (s\<lparr>pmm_lock := l\<rparr>) = (fold frame_set xs s)\<lparr>pmm_lock := l\<rparr>"
  by (induction xs arbitrary: s) (simp_all add: frame_set_lock)

lemma pmm_mark_run_eq:
  assumes "bitmap_ptr s \<noteq> 0" and "unat st + unat count \<le> 8 * length (bitmap s)"
    and "length (bitmap s) < 2 ^ 49" and "j \<le> count"
  shows "pmm_mark_run s st count j =
    Inr (fold frame_set [unat st + unat j ..< unat st + unat count] s)"
  using assms
proof (induction s st count j rule: pmm_mark_run.induct)
  case (1 s st count j)
  let ?n = "unat st + unat j"
  show ?case
  proof (cases "j < count")
    case False
    with "1.prems" have "j = count" by simp
    then show ?thesis by (simp add: pmm_mark_run.simps [of s st count count])
  next
    case j: True
    then have nlt: "?n < 8 * length (bitmap s)" using "1.prems" by (simp add: word_less_nat_alt)
    then have n: "unat (st + j) = ?n" using "1.prems" by (simp add: unat_add_no_overflow)
    define v where "v = bitmap s ! (?n div 8)"
    let ?s1 = "frame_set ?n s"
    have rd: "bm_read s ((st + j) div 8) = Inr v"
      using "1.prems" nlt n by (simp add: bm_read_def unat_div v_def)
    have wr: "bm_write s ((st + j) div 8) (v OR push_bit (unat ((st + j) mod 8)) 1) = Inr ?s1"
      using "1.prems" nlt n by (simp add: bm_write_def unat_div unat_mod v_def frame_set_def)
    have suc: "unat (j + 1) = Suc (unat j)" using j by (rule word_step_Suc)
    have le: "j + 1 \<le> count" using j suc by (simp add: word_le_nat_alt word_less_nat_alt)
    have IH: "pmm_mark_run ?s1 st count (j + 1) =
        Inr (fold frame_set [unat st + unat (j + 1) ..< unat st + unat count] ?s1)"
      using "1.IH" [OF j refl rd wr] "1.prems" le by simp
    have "[?n ..< unat st + unat count] = ?n # [unat st + unat (j + 1) ..< unat st + unat count]"
      using j suc by (simp add: upt_conv_Cons word_less_nat_alt)
    with j rd wr IH show ?thesis by (simp add: pmm_mark_run.simps [of s st count j] Let_def)
  qed
qed

text \<open>\<open>run_at s c n\<close>: the \<open>c\<close> frames from number \<open>n\<close> on are all free.\<close>

definition run_at :: "'a pmm_state_scheme \<Rightarrow> nat \<Rightarrow> nat \<Rightarrow> bool" where
  "run_at s c n \<longleftrightarrow> {n ..< n + c} \<subseteq> free_frames s"

lemma unat_bit_index:
  assumes "unat (i :: u64) < 2 ^ 49" and "b < 64"
  shows "unat (i * 64 + of_nat b) = 64 * unat i + b"
proof -
  have "unat (i * 64) = 64 * unat i" using assms by (simp add: unat_mult_no_overflow)
  moreover have "unat (of_nat b :: u64) = b" using assms by (simp add: unat_of_nat)
  ultimately show ?thesis using assms by (simp add: unat_add_no_overflow)
qed

text \<open>
  \<open>first_run s c lo hi r\<close>: \<open>r\<close> is the lowest start of a run at or above \<open>lo\<close>, or there is none
  below \<open>hi\<close>.
\<close>

definition first_run :: "'a pmm_state_scheme \<Rightarrow> nat \<Rightarrow> nat \<Rightarrow> nat \<Rightarrow> u64 option \<Rightarrow> bool" where
  "first_run s c lo hi r \<longleftrightarrow> (case r of
       None \<Rightarrow> \<forall>n. lo \<le> n \<longrightarrow> n < hi \<longrightarrow> \<not> run_at s c n
     | Some st \<Rightarrow> lo \<le> unat st \<and> run_at s c (unat st) \<and> (\<forall>n. lo \<le> n \<longrightarrow> n < unat st \<longrightarrow> \<not> run_at s c n))"

lemma first_run_extend:
  assumes "first_run s c mid hi r" and "lo \<le> mid"
    and "\<And>n. lo \<le> n \<Longrightarrow> n < mid \<Longrightarrow> \<not> run_at s c n"
  shows "first_run s c lo hi r"
proof (cases r)
  case None
  with assms show ?thesis by (auto simp: first_run_def) (metis not_le)
next
  case (Some st)
  with assms show ?thesis by (auto simp: first_run_def) (metis not_le)
qed

lemma first_run_empty: "hi \<le> lo \<Longrightarrow> first_run s c lo hi None"
  by (simp add: first_run_def)

lemma pmm_scan_bits_spec:
  assumes "pmm_inv s" and "unat i < 2 ^ 49" and "b \<le> 64"
  shows "\<exists>r. pmm_scan_bits s count i b = Inr r \<and>
    first_run s (unat count) (64 * unat i + b) (64 * unat i + 64) r"
  using assms
proof (induction s count i b rule: pmm_scan_bits.induct)
  case (1 s count i b)
  show ?case
  proof (cases "b < 64")
    case False
    then show ?thesis by (simp add: pmm_scan_bits.simps [of s count i b] first_run_empty)
  next
    case b: True
    let ?st = "i * 64 + of_nat b"
    have st: "unat ?st = 64 * unat i + b" using "1.prems" b by (simp add: unat_bit_index)
    then have "unat ?st < 2 ^ 63" using "1.prems" b by simp
    from pmm_count_run_eq_count [OF "1.prems"(1) this, of count] obtain f where
      f: "pmm_count_run s ?st count 0 0 = Inr f" and F: "f = count \<longleftrightarrow> run_at s (unat count) (unat ?st)"
      by (auto simp: run_at_def)
    show ?thesis
    proof (cases "f = count")
      case True
      with b f F st show ?thesis
        by (intro exI [of _ "Some ?st"]) (simp add: pmm_scan_bits.simps [of s count i b] first_run_def)
    next
      case False
      from "1.IH" [OF b refl f False "1.prems"(1,2)] b obtain r where
        r: "pmm_scan_bits s count i (Suc b) = Inr r"
          "first_run s (unat count) (64 * unat i + Suc b) (64 * unat i + 64) r" by auto
      have "first_run s (unat count) (64 * unat i + b) (64 * unat i + 64) r"
        by (rule first_run_extend [OF r(2)]) (use F False st in \<open>auto simp: less_Suc_eq\<close>)
      moreover have "pmm_scan_bits s count i b = Inr r"
        using b f False r by (simp add: pmm_scan_bits.simps [of s count i b])
      ultimately show ?thesis by blast
    qed
  qed
qed

lemma horner_bytes_less: "horner_sum unat 256 (bs :: u8 list) < 256 ^ length bs"
proof (induction bs)
  case (Cons x xs)
  have "unat x < 256" using unsigned_less [of x, where 'a = nat] by simp
  moreover from Cons have "horner_sum unat 256 xs + 1 \<le> 256 ^ length xs" by simp
  then have "256 * (horner_sum unat 256 xs + 1) \<le> 256 * 256 ^ length xs" by (rule mult_left_mono) simp
  ultimately show ?case by simp
qed simp

lemma horner_bytes_full:
  "horner_sum unat 256 (bs :: u8 list) + 1 = 256 ^ length bs \<longleftrightarrow> (\<forall>b\<in>set bs. b = 0xFF)"
proof (induction bs)
  case (Cons x xs)
  let ?h = "horner_sum unat 256 xs" and ?p = "256 ^ length xs :: nat"
  have x: "unat x \<le> 255" using unsigned_less [of x, where 'a = nat] by simp
  have h: "?h + 1 \<le> ?p" using horner_bytes_less [of xs] by simp
  have "unat x + 256 * ?h + 1 = 256 * ?p \<longleftrightarrow> unat x = 255 \<and> ?h + 1 = ?p"
  proof
    assume eq: "unat x + 256 * ?h + 1 = 256 * ?p"
    have "256 * (?h + 1) \<le> 256 * ?p" using h by (rule mult_left_mono) simp
    with eq x have "unat x = 255" by simp
    with eq show "unat x = 255 \<and> ?h + 1 = ?p" by simp
  qed (simp add: algebra_simps)
  moreover have "unat x = 255 \<longleftrightarrow> x = 0xFF" by (simp add: word_unat_eq_iff)
  ultimately show ?case using Cons by simp
qed simp

lemma bm_read64_full:
  assumes "bitmap_ptr s \<noteq> 0" and "8 * unat i + 8 \<le> length (bitmap s)"
  shows "\<exists>w. bm_read64 s i = Inr w \<and>
    (w = 0xFFFFFFFFFFFFFFFF \<longleftrightarrow> (\<forall>k<8. bitmap s ! (8 * unat i + k) = 0xFF))"
proof -
  let ?bs = "take 8 (drop (8 * unat i) (bitmap s))"
  let ?h = "horner_sum unat 256 ?bs"
  have len: "length ?bs = 8" using assms by simp
  have h: "?h < 2 ^ 64" using horner_bytes_less [of ?bs] len by simp
  have "(of_nat ?h :: u64) = 0xFFFFFFFFFFFFFFFF \<longleftrightarrow> ?h = 0xFFFFFFFFFFFFFFFF"
    using h by (simp add: word_unat_eq_iff unat_of_nat)
  also have "\<dots> \<longleftrightarrow> ?h + 1 = 256 ^ length ?bs" using len by simp
  also have "\<dots> \<longleftrightarrow> (\<forall>b\<in>set ?bs. b = 0xFF)" by (rule horner_bytes_full)
  also have "\<dots> \<longleftrightarrow> (\<forall>k<8. ?bs ! k = 0xFF)" by (simp only: all_set_conv_all_nth len)
  also have "\<dots> \<longleftrightarrow> (\<forall>k<8. bitmap s ! (8 * unat i + k) = 0xFF)" using assms by simp
  finally show ?thesis using assms by (simp add: bm_read64_def)
qed

lemma full_qword_no_free:
  assumes "\<forall>k<8. bitmap s ! (8 * q + k) = 0xFF" and "n \<in> free_frames s"
  shows "n div 64 \<noteq> q"
proof
  assume "n div 64 = q"
  then have "n div 8 div 8 = q" using div_mult2_eq [of n 8 8] by simp
  then have "n div 8 = 8 * q + (n div 8) mod 8" using mult_div_mod_eq [of 8 "n div 8"] by simp
  moreover have "(n div 8) mod 8 < 8" by simp
  ultimately have "bitmap s ! (n div 8) = 0xFF" using assms(1) by metis
  then have "frame_used s n" using byte_full [of "bitmap s ! (n div 8)"] by (simp add: frame_used_def)
  with assms(2) show False by (simp add: free_frames_def)
qed

lemma full_qword_no_run:
  assumes "\<forall>k<8. bitmap s ! (8 * q + k) = 0xFF" and "count \<noteq> 0"
    and "64 * q \<le> n" and "n < 64 * q + 64"
  shows "\<not> run_at s (unat count) n"
proof
  assume "run_at s (unat count) n"
  moreover from assms(2) have "0 < unat count" by (simp add: unat_gt_0)
  ultimately have "n \<in> free_frames s" by (auto simp: run_at_def)
  moreover have "n div 64 = q" using assms(3,4) by simp
  ultimately show False using full_qword_no_free [OF assms(1)] by blast
qed

lemma pmm_scan_qwords_spec:
  assumes "pmm_inv s" and "count \<noteq> 0" and "8 * unat nq \<le> length (bitmap s)" and "i \<le> nq"
  shows "\<exists>r. pmm_scan_qwords s count nq i = Inr r \<and>
    first_run s (unat count) (64 * unat i) (64 * unat nq) r"
  using assms
proof (induction s count nq i rule: pmm_scan_qwords.induct)
  case (1 s count nq i)
  show ?case
  proof (cases "i < nq")
    case False
    with "1.prems" have "i = nq" by simp
    then show ?thesis by (simp add: pmm_scan_qwords.simps [of s count nq nq] first_run_empty)
  next
    case i: True
    have suc: "unat (i + 1) = Suc (unat i)" using i by (rule word_step_Suc)
    have le: "i + 1 \<le> nq" using i suc by (simp add: word_le_nat_alt word_less_nat_alt)
    have small: "unat i < 2 ^ 49" and in_map: "8 * unat i + 8 \<le> length (bitmap s)"
      using "1.prems" i by (auto simp: pmm_inv_def word_less_nat_alt)
    have skip: "first_run s (unat count) (64 * unat i) (64 * unat nq) r"
      if "first_run s (unat count) (64 * unat (i + 1)) (64 * unat nq) r"
        and "\<And>n. 64 * unat i \<le> n \<Longrightarrow> n < 64 * unat i + 64 \<Longrightarrow> \<not> run_at s (unat count) n" for r
      by (rule first_run_extend [OF that(1)]) (use that(2) suc in auto)
    from bm_read64_full [OF _ in_map] "1.prems" obtain w where w: "bm_read64 s i = Inr w"
      "w = 0xFFFFFFFFFFFFFFFF \<longleftrightarrow> (\<forall>k<8. bitmap s ! (8 * unat i + k) = 0xFF)"
      by (auto simp: pmm_inv_def)
    show ?thesis
    proof (cases "w = 0xFFFFFFFFFFFFFFFF")
      case True
      from "1.IH"(1) [OF i w(1) True "1.prems"(1-3) le] obtain r where
        r: "pmm_scan_qwords s count nq (i + 1) = Inr r"
          "first_run s (unat count) (64 * unat (i + 1)) (64 * unat nq) r" by blast
      have "pmm_scan_qwords s count nq i = Inr r"
        using i w(1) True r by (simp add: pmm_scan_qwords.simps [of s count nq i])
      with skip [OF r(2)] full_qword_no_run w(2) True "1.prems"(2) show ?thesis by blast
    next
      case False
      from pmm_scan_bits_spec [OF "1.prems"(1) small, of 0 count] obtain r0 where
        r0: "pmm_scan_bits s count i 0 = Inr r0"
          "first_run s (unat count) (64 * unat i) (64 * unat i + 64) r0" by auto
      show ?thesis
      proof (cases r0)
        case (Some st)
        with i w(1) False r0 show ?thesis
          by (intro exI [of _ r0]) (simp add: pmm_scan_qwords.simps [of s count nq i] first_run_def)
      next
        case None
        from "1.IH"(2) [OF i w(1) False r0(1) None "1.prems"(1-3) le] obtain r where
          r: "pmm_scan_qwords s count nq (i + 1) = Inr r"
            "first_run s (unat count) (64 * unat (i + 1)) (64 * unat nq) r" by blast
        have "pmm_scan_qwords s count nq i = Inr r"
          using i w(1) False r0 None r by (simp add: pmm_scan_qwords.simps [of s count nq i])
        with skip [OF r(2)] r0(2) None show ?thesis by (auto simp: first_run_def)
      qed
    qed
  qed
qed


lemma pmm_alloc_frames_cases:
  assumes inv: "pmm_inv s" and free: "lock_free env (pmm_lock s)" and count: "count \<noteq> 0"
  obtains
    (none) "pmm_alloc_frames env count s = Inr (0, relock env s)"
      "\<And>n. n < 64 * (unat (bitmap_size s) div 8) \<Longrightarrow> \<not> run_at s (unat count) n"
  | (run) n where "run_at s (unat count) n" "\<And>m. m < n \<Longrightarrow> \<not> run_at s (unat count) m"
      "pmm_alloc_frames env count s =
         Inr (addr_of_frame n, relock env (fold frame_set [n ..< n + unat count] s))"
proof -
  define s1 where "s1 = s\<lparr>pmm_lock := spin_locked env (pmm_lock s)\<rparr>"
  have inv1: "pmm_inv s1" using inv by (simp add: s1_def)
  have run1: "run_at s1 c n = run_at s c n" for c n by (simp add: run_at_def s1_def)
  have ptr: "(bitmap_ptr s = 0 \<or> count = 0) = False" using inv count by (simp add: pmm_inv_def)
  let ?nq = "bitmap_size s1 div 8"
  have start: "pmm_alloc_frames env count s =
     bind_res (pmm_scan_qwords s1 count ?nq 0) (\<lambda>r. case r of
        None \<Rightarrow> Inr (0, s1\<lparr>pmm_lock := spin_unlock env (pmm_lock s1)\<rparr>)
      | Some st \<Rightarrow> bind_res (pmm_mark_run s1 st count 0) (\<lambda>s2.
          Inr (st * PAGE_SIZE, s2\<lparr>pmm_lock := spin_unlock env (pmm_lock s2)\<rparr>)))"
    by (simp only: pmm_alloc_frames_def Let_def spin_lock_free [OF free] bind_res.simps ptr if_False s1_def)
  have nq: "unat ?nq = unat (bitmap_size s) div 8" by (simp add: s1_def unat_div)
  have "8 * unat ?nq \<le> length (bitmap s1)" using inv1 by (simp add: pmm_inv_def unat_div)
  from pmm_scan_qwords_spec [OF inv1 count this, of 0] obtain r where
    r: "pmm_scan_qwords s1 count ?nq 0 = Inr r" and R: "first_run s1 (unat count) 0 (64 * unat ?nq) r"
    by auto
  show thesis
  proof (cases r)
    case None
    show thesis
    proof (rule none)
      show "pmm_alloc_frames env count s = Inr (0, relock env s)"
        unfolding start r None by (simp add: s1_def)
    qed (use R None run1 nq in \<open>auto simp: first_run_def\<close>)
  next
    case (Some st)
    with R have here: "run_at s (unat count) (unat st)" and least: "\<And>m. m < unat st \<Longrightarrow> \<not> run_at s (unat count) m"
      by (auto simp: first_run_def run1)
    have pos: "0 < unat count" using count by (simp add: unat_gt_0)
    then have "unat st + unat count - 1 \<in> free_frames s" using here by (auto simp: run_at_def)
    then have bound: "unat st + unat count \<le> 8 * length (bitmap s)" by (auto simp: free_frames_def)
    have "pmm_mark_run s1 st count 0 = Inr (fold frame_set [unat st ..< unat st + unat count] s1)"
      using inv1 bound by (subst pmm_mark_run_eq) (auto simp: pmm_inv_def s1_def)
    moreover have "st * PAGE_SIZE = addr_of_frame (unat st)" by (simp add: addr_of_frame_def)
    ultimately have "pmm_alloc_frames env count s =
        Inr (addr_of_frame (unat st), relock env (fold frame_set [unat st ..< unat st + unat count] s))"
      unfolding start r Some by (simp add: s1_def fold_frame_set_lock)
    with here least show thesis by (rule run)
  qed
qed

section \<open>The allocator as an interface\<close>

text \<open>
  What the page-table code, the slab allocator and the heap rely on. \<open>rest\<close> is everything outside the
  allocator's own state. A frame number stands for the page-aligned address
  \<open>addr_of_frame n\<close>; frame 0 is never free, so that a null result is unambiguous.
\<close>

locale frame_allocator =
  fixes alloc :: "'s \<Rightarrow> (u64 \<times> 's) res"
    and dealloc :: "u64 \<Rightarrow> 's \<Rightarrow> 's res"
    and free :: "'s \<Rightarrow> nat set"
    and frames :: "'s \<Rightarrow> nat"
    and inv :: "'s \<Rightarrow> bool"
    and rest :: "'s \<Rightarrow> 'r"
  assumes free_bound: "inv s \<Longrightarrow> n \<in> free s \<Longrightarrow> 0 < n \<and> n < frames s"
    and frames_bound: "inv s \<Longrightarrow> frames s \<le> 2 ^ 52"
    and alloc_law: "inv s \<Longrightarrow> \<exists>a s'. alloc s = Inr (a, s') \<and> inv s' \<and> frames s' = frames s \<and> rest s' = rest s
        \<and> (a = 0 \<and> free s' = free s \<or> (\<exists>n\<in>free s. a = addr_of_frame n \<and> a \<noteq> 0 \<and> free s' = free s - {n}))"
    and dealloc_law: "inv s \<Longrightarrow> 0 < n \<Longrightarrow> n < frames s \<Longrightarrow>
        \<exists>s'. dealloc (addr_of_frame n) s = Inr s' \<and> inv s' \<and> frames s' = frames s \<and> rest s' = rest s
        \<and> free s' = insert n (free s)"
begin

lemma alloc_nonnull:
  assumes "inv s" and "alloc s = Inr (a, s')" and "a \<noteq> 0"
  obtains n where "n \<in> free s" "a = addr_of_frame n" "free s' = free s - {n}" "inv s'"
    "rest s' = rest s" "frames s' = frames s"
  using alloc_law [OF assms(1)] assms(2,3) by auto

lemma alloc_null:
  assumes "inv s" and "alloc s = Inr (0, s')"
  shows "free s' = free s" and "inv s'" and "rest s' = rest s" and "frames s' = frames s"
  using alloc_law [OF assms(1)] assms(2) by auto

lemma alloc_twice_distinct:
  assumes "inv s" and "alloc s = Inr (a, s')" and "alloc s' = Inr (b, s'')" and "a \<noteq> 0" and "b \<noteq> 0"
  shows "a \<noteq> b"
proof -
  from assms(1,2,4) obtain m where m: "m \<in> free s" "a = addr_of_frame m" "free s' = free s - {m}" "inv s'"
    "frames s' = frames s" by (rule alloc_nonnull)
  from m(4) assms(3,5) obtain n where n: "n \<in> free s'" "b = addr_of_frame n" by (rule alloc_nonnull)
  have "m < 2 ^ 52" and "n < 2 ^ 52"
    using free_bound [OF assms(1) m(1)] free_bound [OF m(4) n(1)] frames_bound [OF assms(1)] m(5) by auto
  from addr_of_frame_inj [OF this] m n show ?thesis by auto
qed

lemma alloc_dealloc_roundtrip:
  assumes "inv s" and "alloc s = Inr (a, s')" and "a \<noteq> 0"
  shows "\<exists>s''. dealloc a s' = Inr s'' \<and> inv s'' \<and> free s'' = free s \<and> rest s'' = rest s"
proof -
  from assms obtain n where n: "n \<in> free s" "a = addr_of_frame n" "free s' = free s - {n}" "inv s'"
    "rest s' = rest s" "frames s' = frames s" by (rule alloc_nonnull)
  have "0 < n" and "n < frames s'" using free_bound [OF assms(1) n(1)] n(6) by simp_all
  from dealloc_law [OF n(4) this] n show ?thesis by auto
qed

end

lemma pmm_inv_relock: "pmm_inv (relock env s) = pmm_inv s"
  by simp

lemma frames_bound_pmm: "pmm_inv s \<Longrightarrow> 8 * length (bitmap s) \<le> 2 ^ 52"
  by (auto simp: pmm_inv_def)

lemma unat_addr_div: "n < 2 ^ 52 \<Longrightarrow> unat (addr_of_frame n) div 4096 = n"
  by (simp add: unat_addr_of_frame)

lemma pmm_alloc_frame_law:
  assumes inv: "pmm_inv s" and free: "lock_free env (pmm_lock s)"
  shows "\<exists>a s'. pmm_alloc_frame env s = Inr (a, s') \<and> pmm_inv s' \<and> lock_free env (pmm_lock s')
      \<and> length (bitmap s') = length (bitmap s) \<and> pmm_state.more s' = pmm_state.more s
      \<and> (a = 0 \<and> free_frames s' = free_frames s
         \<or> (\<exists>n\<in>free_frames s. a = addr_of_frame n \<and> a \<noteq> 0 \<and> free_frames s' = free_frames s - {n}))"
  using inv free
proof (cases rule: pmm_alloc_frame_cases)
  case (frame n)
  then have "n < 8 * length (bitmap s)" by (simp add: free_frames_def)
  with inv frame free free_frame_addr [OF inv frame(1)] show ?thesis by (auto simp: pmm_inv_set)
qed (use inv free in simp_all)

interpretation pmm: frame_allocator "pmm_alloc_frame env" "pmm_free_frame env" free_frames
  "\<lambda>s. 8 * length (bitmap s)" "\<lambda>s. pmm_inv s \<and> lock_free env (pmm_lock s)" pmm_state.more
  for env
proof unfold_locales
  fix s :: "'a pmm_state_scheme" and n
  assume "pmm_inv s \<and> lock_free env (pmm_lock s)" and n: "n \<in> free_frames s"
  then show "0 < n \<and> n < 8 * length (bitmap s)"
    using free_frame_bound [of s n] by (auto simp: free_frames_def)
next
  fix s :: "'a pmm_state_scheme"
  assume inv: "pmm_inv s \<and> lock_free env (pmm_lock s)"
  then show "8 * length (bitmap s) \<le> 2 ^ 52" using frames_bound_pmm by blast
  from pmm_alloc_frame_law [of s env] inv
  show "\<exists>a s'. pmm_alloc_frame env s = Inr (a, s') \<and> (pmm_inv s' \<and> lock_free env (pmm_lock s'))
      \<and> 8 * length (bitmap s') = 8 * length (bitmap s) \<and> pmm_state.more s' = pmm_state.more s
      \<and> (a = 0 \<and> free_frames s' = free_frames s
         \<or> (\<exists>n\<in>free_frames s. a = addr_of_frame n \<and> a \<noteq> 0 \<and> free_frames s' = free_frames s - {n}))"
    by simp
next
  fix s :: "'a pmm_state_scheme" and n :: nat
  assume inv: "pmm_inv s \<and> lock_free env (pmm_lock s)" and n: "0 < n" "n < 8 * length (bitmap s)"
  then have b: "n < 2 ^ 52" using frames_bound_pmm [of s] by (auto intro: less_le_trans)
  from addr_of_frame_eq_0 [OF b] n(1) have nz: "addr_of_frame n \<noteq> 0" by simp
  show "\<exists>s'. pmm_free_frame env (addr_of_frame n) s = Inr s' \<and> (pmm_inv s' \<and> lock_free env (pmm_lock s'))
      \<and> 8 * length (bitmap s') = 8 * length (bitmap s) \<and> pmm_state.more s' = pmm_state.more s
      \<and> free_frames s' = insert n (free_frames s)"
    using inv n nz unat_addr_div [OF b]
    by (subst pmm_free_frame_ok) (auto simp: pmm_inv_clear pmm_inv_def [of s])
qed

end
