(* ===== verification/Pmm_Boot.thy ===== *)
theory Pmm_Boot
  imports Pmm_Proofs
begin

text \<open>
  Correctness of \<^verbatim>\<open>pmm_init\<close>: on a well-formed memory map the bitmap it leaves behind describes
  exactly the usable pages above the first megabyte that hold neither the kernel nor the
  bitmap. The three marking loops are specified as changes of the set of free frames.
\<close>

section \<open>The marking loops\<close>

text \<open>\<open>s'\<close> is \<open>s\<close> with another bitmap of the same length, in which the frames \<open>F\<close> are free.\<close>

definition remarked :: "'a pmm_state_scheme \<Rightarrow> nat set \<Rightarrow> 'a pmm_state_scheme \<Rightarrow> bool" where
  "remarked s F s' \<longleftrightarrow> bitmap_ptr s' = bitmap_ptr s \<and> bitmap_size s' = bitmap_size s
     \<and> length (bitmap s') = length (bitmap s) \<and> pmm_last_index s' = pmm_last_index s
     \<and> pmm_lock s' = pmm_lock s \<and> pmm_state.more s' = pmm_state.more s \<and> free_frames s' = F"

lemma remarked_refl: "remarked s (free_frames s) s"
  by (simp add: remarked_def)

lemma remarked_trans: "remarked s F s' \<Longrightarrow> remarked s' G s'' \<Longrightarrow> remarked s G s''"
  by (simp add: remarked_def)

lemma remarked_fold_set:
  "\<forall>n\<in>set xs. n < 8 * length (bitmap s) \<Longrightarrow> remarked s (free_frames s - set xs) (fold frame_set xs s)"
  by (simp add: remarked_def free_frames_fold_set)

lemma unat_page_loop:
  assumes "unat a + unat n * 4096 < 2 ^ 64" and "j < n"
  shows "unat ((a :: u64) + j * PAGE_SIZE) = unat a + unat j * 4096"
proof -
  have "unat j < unat n" using assms(2) by (simp add: word_less_nat_alt)
  then have "unat j * 4096 \<le> unat n * 4096" by simp
  then have j: "unat a + unat j * 4096 < 2 ^ 64" using assms(1) by linarith
  then have "unat (j * PAGE_SIZE) = unat j * 4096" by (subst unat_mult_no_overflow) auto
  then show ?thesis using j by (simp add: unat_add_no_overflow)
qed

text \<open>The frames of a descriptor from page \<open>j\<close> on, and those the loop frees: not the first megabyte.\<close>

definition desc_frames :: "EFI_MEMORY_DESCRIPTOR \<Rightarrow> nat \<Rightarrow> nat set" where
  "desc_frames d j = {unat (physical_start d) div 4096 + j ..<
                      unat (physical_start d) div 4096 + unat (num_pages d)}"

definition desc_within :: "nat \<Rightarrow> EFI_MEMORY_DESCRIPTOR \<Rightarrow> bool" where
  "desc_within lim d \<longleftrightarrow> unat (physical_start d) + unat (num_pages d) * 4096 \<le> lim"

lemma desc_frames_step:
  "j < unat (num_pages d) \<Longrightarrow>
     desc_frames d j = insert (unat (physical_start d) div 4096 + j) (desc_frames d (Suc j))"
  by (auto simp: desc_frames_def)

lemma pmm_unlock_pages_spec:
  assumes "bitmap_ptr s \<noteq> 0" and "desc_within (32768 * length (bitmap s)) d"
    and "length (bitmap s) < 2 ^ 49"
  shows "\<exists>s'. pmm_unlock_pages s d j = Inr s'
    \<and> remarked s (free_frames s \<union> {n \<in> desc_frames d (unat j). 256 \<le> n}) s'"
  using assms
proof (induction s d j rule: pmm_unlock_pages.induct)
  case (1 s d j)
  show ?case
  proof (cases "j < num_pages d")
    case False
    then have "desc_frames d (unat j) = {}" by (simp add: desc_frames_def word_less_nat_alt)
    with False show ?thesis by (simp add: pmm_unlock_pages.simps remarked_refl)
  next
    case True
    define a where "a = physical_start d + j * PAGE_SIZE"
    let ?n = "unat (physical_start d) div 4096 + unat j"
    define s1 where "s1 = (if a \<ge> 0x100000 then frame_clear ?n s else s)"
    have same: "bitmap_ptr s1 = bitmap_ptr s" "length (bitmap s1) = length (bitmap s)"
      by (simp_all add: s1_def)
    have j: "unat j < unat (num_pages d)" using True by (simp add: word_less_nat_alt)
    have top: "unat (physical_start d) + unat (num_pages d) * 4096 < 2 ^ 64"
      using 1(3,4) by (simp add: desc_within_def)
    have a: "unat a = unat (physical_start d) + unat j * 4096"
      unfolding a_def by (rule unat_page_loop [OF top True])
    then have n: "unat a div 4096 = ?n" by simp
    have "unat a + 4096 \<le> 32768 * length (bitmap s)" using a j 1(3) by (simp add: desc_within_def)
    then have bound: "?n < 8 * length (bitmap s)" unfolding n [symmetric] by linarith
    have big: "a \<ge> 0x100000 \<longleftrightarrow> 256 \<le> ?n"
      unfolding n [symmetric] by (auto simp: word_le_nat_alt)
    have r: "(if a \<ge> 0x100000 then pmm_unset_frame s a else Inr s) = Inr s1"
      using 1(2) bound n by (simp add: pmm_unset_frame_eq s1_def)
    from "1.IH" [OF True a_def r] 1(2-4) obtain s' where
      s': "pmm_unlock_pages s1 d (j + 1) = Inr s'"
        "remarked s1 (free_frames s1 \<union> {n \<in> desc_frames d (unat (j + 1)). 256 \<le> n}) s'"
      unfolding same by blast
    have "pmm_unlock_pages s d j = Inr s'"
      using True r s'(1) by (simp add: pmm_unlock_pages.simps [of s] a_def [symmetric])
    moreover have "remarked s (free_frames s1 \<union> {n \<in> desc_frames d (unat (j + 1)). 256 \<le> n}) s'"
      using s'(2) by (auto simp: remarked_def s1_def)
    moreover have "free_frames s1 \<union> {n \<in> desc_frames d (unat (j + 1)). 256 \<le> n}
        = free_frames s \<union> {n \<in> desc_frames d (unat j). 256 \<le> n}"
      using bound big word_step_Suc [OF True] by (auto simp: desc_frames_step [OF j] s1_def)
    ultimately show ?thesis by auto
  qed
qed

definition usable :: "EFI_MEMORY_DESCRIPTOR \<Rightarrow> bool" where
  "usable d \<longleftrightarrow> desc_type d = EFI_CONVENTIONAL_MEMORY \<or> desc_type d = 4"

definition usable_frames :: "EFI_MEMORY_DESCRIPTOR list \<Rightarrow> nat set" where
  "usable_frames ds = (\<Union>d\<in>{d \<in> set ds. usable d}. {n \<in> desc_frames d 0. 256 \<le> n})"

lemma usable_frames_Cons:
  "usable_frames (d # ds) =
     (if usable d then {n \<in> desc_frames d 0. 256 \<le> n} else {}) \<union> usable_frames ds"
  by (auto simp: usable_frames_def)

lemma pmm_unlock_descs_spec:
  assumes "bitmap_ptr s \<noteq> 0" and "\<forall>d\<in>set ds. desc_within (32768 * length (bitmap s)) d"
    and "length (bitmap s) < 2 ^ 49"
  shows "\<exists>s'. pmm_unlock_descs s ds = Inr s' \<and> remarked s (free_frames s \<union> usable_frames ds) s'"
  using assms
proof (induction ds arbitrary: s)
  case Nil
  then show ?case by (simp add: usable_frames_def remarked_refl)
next
  case (Cons d ds)
  have "\<exists>s1. (if usable d then pmm_unlock_pages s d 0 else Inr s) = Inr s1 \<and>
      remarked s (free_frames s \<union> (if usable d then {n \<in> desc_frames d 0. 256 \<le> n} else {})) s1"
    using pmm_unlock_pages_spec [of s d 0] Cons.prems by (simp add: remarked_refl)
  then obtain s1 where s1: "(if usable d then pmm_unlock_pages s d 0 else Inr s) = Inr s1"
    "remarked s (free_frames s \<union> (if usable d then {n \<in> desc_frames d 0. 256 \<le> n} else {})) s1"
    by blast
  with Cons.prems Cons.IH [of s1] obtain s2 where
    s2: "pmm_unlock_descs s1 ds = Inr s2" "remarked s1 (free_frames s1 \<union> usable_frames ds) s2"
    by (auto simp: remarked_def)
  from remarked_trans [OF s1(2) s2(2)] s1(2) have "remarked s (free_frames s \<union> usable_frames (d # ds)) s2"
    by (simp add: remarked_def usable_frames_Cons Un_assoc)
  with s1(1) s2(1) show ?case by (auto simp: usable_def)
qed

text \<open>The frames the loop over \<open>[a, l)\<close> in steps of a page visits.\<close>

definition range_frames :: "nat \<Rightarrow> nat \<Rightarrow> nat set" where
  "range_frames a l = (if a < l then {a div 4096 .. a div 4096 + (l - a - 1) div 4096} else {})"

lemma range_frames_step:
  "a < l \<Longrightarrow> range_frames a l = insert (a div 4096) (range_frames (a + 4096) l)"
proof (cases "a + 4096 < l")
  case True
  then have "l - a - 1 = (l - (a + 4096) - 1) + 4096" by simp
  then have "(l - a - 1) div 4096 = Suc ((l - (a + 4096) - 1) div 4096)"
    by (simp only: div_add_self2)
  moreover have "(a + 4096) div 4096 = Suc (a div 4096)" by simp
  ultimately show ?thesis using True unfolding range_frames_def by (auto simp del: diff_diff_left)
next
  case False
  moreover assume "a < l"
  ultimately show ?thesis by (auto simp: range_frames_def)
qed

lemma pmm_lock_range_spec:
  assumes "bitmap_ptr s \<noteq> 0" and "unat l + 4096 \<le> 2 ^ 64"
    and "\<forall>n\<in>range_frames (unat a) (unat l). n < 8 * length (bitmap s)"
  shows "\<exists>s'. pmm_lock_range s a l = Inr s'
    \<and> remarked s (free_frames s - range_frames (unat a) (unat l)) s'"
  using assms
proof (induction s a l rule: pmm_lock_range.induct)
  case (1 s a l)
  show ?case
  proof (cases "a < l")
    case False
    then show ?thesis
      by (simp add: pmm_lock_range.simps range_frames_def word_less_nat_alt remarked_refl)
  next
    case True
    then have al: "unat a < unat l" by (simp add: word_less_nat_alt)
    let ?n = "unat a div 4096"
    have nxt: "unat (a + PAGE_SIZE) = unat a + 4096"
      using al 1(3) by (simp add: unat_add_no_overflow)
    then have nowrap: "\<not> a + PAGE_SIZE < a" by (simp add: word_less_nat_alt)
    have bound: "?n < 8 * length (bitmap s)" using 1(4) by (simp add: range_frames_step [OF al])
    then have r: "pmm_set_frame s a = Inr (frame_set ?n s)" using 1(2) by (simp add: pmm_set_frame_eq)
    from "1.IH" [OF True r nowrap] 1(2-4) obtain s' where
      s': "pmm_lock_range (frame_set ?n s) (a + PAGE_SIZE) l = Inr s'"
        "remarked (frame_set ?n s) (free_frames (frame_set ?n s) - range_frames (unat a + 4096) (unat l)) s'"
      by (auto simp: range_frames_step [OF al] nxt)
    have "free_frames (frame_set ?n s) - range_frames (unat a + 4096) (unat l)
        = free_frames s - range_frames (unat a) (unat l)"
      using bound by (auto simp: range_frames_step [OF al])
    with s' True r nowrap show ?thesis
      by (auto simp: pmm_lock_range.simps [of s] remarked_def)
  qed
qed

lemma pmm_lock_bitmap_spec:
  assumes "bitmap_ptr s \<noteq> 0" and "unat b + unat n * 4096 < 2 ^ 64"
    and "unat b div 4096 + unat n \<le> 8 * length (bitmap s)"
  shows "\<exists>s'. pmm_lock_bitmap s b n i = Inr s'
    \<and> remarked s (free_frames s - {unat b div 4096 + unat i ..< unat b div 4096 + unat n}) s'"
  using assms
proof (induction s b n i rule: pmm_lock_bitmap.induct)
  case (1 s b n i)
  show ?case
  proof (cases "i < n")
    case False
    then show ?thesis by (simp add: pmm_lock_bitmap.simps word_less_nat_alt remarked_refl)
  next
    case True
    then have i: "unat i < unat n" by (simp add: word_less_nat_alt)
    let ?n = "unat b div 4096 + unat i"
    have n: "unat (b + i * PAGE_SIZE) div 4096 = ?n" using unat_page_loop [OF 1(3) True] by simp
    have bound: "?n < 8 * length (bitmap s)" using 1(4) i by simp
    then have r: "pmm_set_frame s (b + i * PAGE_SIZE) = Inr (frame_set ?n s)"
      using 1(2) n by (simp add: pmm_set_frame_eq)
    from "1.IH" [OF True r] 1(2-4) obtain s' where
      s': "pmm_lock_bitmap (frame_set ?n s) b n (i + 1) = Inr s'"
        "remarked (frame_set ?n s) (free_frames (frame_set ?n s)
           - {unat b div 4096 + unat (i + 1) ..< unat b div 4096 + unat n}) s'"
      by auto
    have "free_frames (frame_set ?n s) - {unat b div 4096 + unat (i + 1) ..< unat b div 4096 + unat n}
        = free_frames s - {?n ..< unat b div 4096 + unat n}"
      using bound i word_step_Suc [OF True] by auto
    with s' True r show ?thesis by (auto simp: pmm_lock_bitmap.simps [of s] remarked_def)
  qed
qed

section \<open>The three passes together\<close>

text \<open>What the UEFI specification says of a descriptor: it starts on a page and does not wrap around.\<close>

definition desc_ok :: "EFI_MEMORY_DESCRIPTOR \<Rightarrow> bool" where
  "desc_ok d \<longleftrightarrow> unat (physical_start d) mod 4096 = 0
     \<and> unat (physical_start d) + unat (num_pages d) * 4096 < 2 ^ 64"

lemma desc_ok_end:
  assumes "desc_ok d"
  shows "unat (physical_start d + num_pages d * PAGE_SIZE) =
    unat (physical_start d) + unat (num_pages d) * 4096"
    and "unat (num_pages d * PAGE_SIZE) = unat (num_pages d) * 4096"
proof -
  from assms have b: "unat (physical_start d) + unat (num_pages d) * 4096 < 2 ^ 64"
    by (simp add: desc_ok_def)
  then show n: "unat (num_pages d * PAGE_SIZE) = unat (num_pages d) * 4096"
    by (subst unat_mult_no_overflow) auto
  with b show "unat (physical_start d + num_pages d * PAGE_SIZE) =
    unat (physical_start d) + unat (num_pages d) * 4096" by (simp add: unat_add_no_overflow)
qed

lemma pmm_highest_addr_ge: "h \<le> pmm_highest_addr ds h"
proof (induction ds arbitrary: h)
  case (Cons d ds)
  let ?e = "physical_start d + num_pages d * PAGE_SIZE"
  have "h \<le> (if ?e > h then ?e else h)" by (auto simp: order_less_imp_le)
  also have "\<dots> \<le> pmm_highest_addr ds (if ?e > h then ?e else h)" by (rule Cons.IH)
  finally show ?case by (simp add: Let_def)
qed simp

lemma pmm_highest_addr_within:
  "\<forall>d\<in>set ds. desc_ok d \<Longrightarrow> d \<in> set ds \<Longrightarrow> desc_within (unat (pmm_highest_addr ds h)) d"
proof (induction ds arbitrary: h)
  case (Cons e ds)
  let ?e = "physical_start e + num_pages e * PAGE_SIZE" and ?h = "pmm_highest_addr (e # ds) h"
  show ?case
  proof (cases "d = e")
    case True
    have "?e \<le> (if ?e > h then ?e else h)" by (auto simp: not_less)
    also have "\<dots> \<le> ?h" using pmm_highest_addr_ge by (simp add: Let_def)
    finally have "unat ?e \<le> unat ?h" by (simp add: word_le_nat_alt)
    with True Cons.prems show ?thesis by (simp add: desc_within_def desc_ok_end)
  next
    case False
    with Cons.prems Cons.IH [of "if ?e > h then ?e else h"] show ?thesis by (simp add: Let_def)
  qed
qed simp

lemma page_align_up_aligned:
  assumes "unat x mod 4096 = 0"
  shows "PAGE_ALIGN_UP x = x"
proof -
  obtain k where k: "unat x = 4096 * k" using assms by (metis mod_0_imp_dvd dvdE)
  then have "k < 2 ^ 52" using unsigned_less [of x, where 'a = nat] by simp
  then have "unat (PAGE_ALIGN_UP x) = 4096 * ((4096 * k + 4095) div 4096)"
    using k by (simp add: unat_page_align_up)
  then have "unat (PAGE_ALIGN_UP x) = unat x" using k by simp
  then show ?thesis by (simp only: word_unat_eq_iff)
qed

lemma pmm_place_bitmap_SomeD:
  assumes "pmm_place_bitmap ds sz = Some p" and "\<forall>d\<in>set ds. desc_ok d"
  shows "\<exists>d\<in>set ds. desc_type d = EFI_CONVENTIONAL_MEMORY \<and> p = physical_start d
    \<and> unat sz \<le> unat (num_pages d) * 4096"
  using assms
proof (induction ds)
  case (Cons d ds)
  show ?case
  proof (cases "desc_type d = EFI_CONVENTIONAL_MEMORY \<and> num_pages d * PAGE_SIZE \<ge> sz")
    case True
    have d: "desc_ok d" using Cons.prems by simp
    then have "PAGE_ALIGN_UP (physical_start d) = physical_start d"
      by (simp add: page_align_up_aligned desc_ok_def)
    with True d Cons.prems desc_ok_end(2) [OF d] show ?thesis by (auto simp: word_le_nat_alt)
  qed (use Cons in auto)
qed simp

text \<open>The frames \<^verbatim>\<open>pmm_init\<close> keeps for the kernel image and for the bitmap at \<open>p\<close> of \<open>sz\<close> bytes.\<close>

definition kernel_frames :: "BootKernel \<Rightarrow> nat set" where
  "kernel_frames k = range_frames (unat (kernel_base k)) (unat (kernel_base k) + unat (kernel_size k) + 4096)"

definition bitmap_frames :: "u64 \<Rightarrow> nat \<Rightarrow> nat set" where
  "bitmap_frames p sz = {unat p div 4096 ..< unat p div 4096 + (sz + 4095) div 4096}"

text \<open>
  A memory map on which the passes stay inside the bitmap: at least a megabyte of address
  space, a number of pages divisible by eight, a place for the bitmap, and the kernel below the top.
\<close>

definition boot_ok :: "BootInfo \<Rightarrow> EFI_MEMORY_DESCRIPTOR list \<Rightarrow> u64 \<Rightarrow> bool" where
  "boot_ok bi ds p \<longleftrightarrow>
     (let h = pmm_highest_addr ds 0; k = bi_kernel bi
      in mmap_entries (bi_mmap bi) = Inr ds \<and> list_all desc_ok ds
       \<and> 0x100000 \<le> unat h \<and> unat h mod 32768 = 0
       \<and> pmm_place_bitmap ds (h div PAGE_SIZE div 8) = Some p \<and> p \<noteq> 0
       \<and> unat (kernel_base k) + unat (kernel_size k) + 8192 \<le> unat h)"

lemma range_frames_bound:
  "n \<in> range_frames a l \<Longrightarrow> l + 4096 \<le> 32768 * m \<Longrightarrow> n < 8 * m"
  by (auto simp: range_frames_def split: if_splits)

lemma range_frames_low: "range_frames 0 0x100000 = {..<256}"
  by (auto simp: range_frames_def)

lemma bitmap_pages:
  "unat (sz :: u64) < 2 ^ 49 \<Longrightarrow> unat ((sz + PAGE_SIZE - 1) div PAGE_SIZE) = (unat sz + 4095) div 4096"
  by (simp add: unat_div unat_add_no_overflow add_diff_eq [symmetric])

lemma boot_ok_bitmap:
  assumes "boot_ok bi ds p"
  defines "sz \<equiv> pmm_highest_addr ds 0 div PAGE_SIZE div 8"
  shows "32768 * unat sz = unat (pmm_highest_addr ds 0)" and "unat sz < 2 ^ 49"
    and "unat p + (unat sz + 4095) div 4096 * 4096 \<le> unat (pmm_highest_addr ds 0)"
    and "unat p mod 4096 = 0"
proof -
  let ?h = "pmm_highest_addr ds 0"
  from assms have "unat ?h mod 32768 = 0" by (simp add: boot_ok_def Let_def)
  moreover have sz: "unat sz = unat ?h div 32768" by (simp add: sz_def unat_div div_mult2_eq [symmetric])
  ultimately show eq: "32768 * unat sz = unat ?h" by (simp add: dvd_mult_div_cancel mod_eq_0_iff_dvd)
  show "unat sz < 2 ^ 49" using eq unsigned_less [of ?h, where 'a = nat] by simp
  have ds: "\<forall>d\<in>set ds. desc_ok d" and pl: "pmm_place_bitmap ds sz = Some p"
    using assms(1) by (simp_all add: boot_ok_def Let_def list_all_iff sz_def)
  from pmm_place_bitmap_SomeD [OF pl ds] obtain d where
    d: "d \<in> set ds" "p = physical_start d" "unat sz \<le> unat (num_pages d) * 4096" by blast
  from pmm_highest_addr_within [OF ds d(1)] have "unat p + unat (num_pages d) * 4096 \<le> unat ?h"
    by (simp add: desc_within_def d(2))
  moreover have "(unat sz + 4095) div 4096 \<le> unat (num_pages d)" using d(3) by linarith
  ultimately show "unat p + (unat sz + 4095) div 4096 * 4096 \<le> unat ?h" by linarith
  show "unat p mod 4096 = 0" using d ds by (simp add: desc_ok_def)
qed

lemma pmm_init_unlocked:
  fixes s :: "'a pmm_state_scheme"
  assumes ok: "boot_ok bi ds p"
  defines "sz \<equiv> pmm_highest_addr ds 0 div PAGE_SIZE div 8"
  defines "s2 \<equiv> s\<lparr>bitmap_size := sz, bitmap_ptr := p, bitmap := replicate (unat sz) 0xFF\<rparr>"
  shows "pmm_init bi s = bind_res (pmm_unlock_descs s2 ds) (\<lambda>s3.
      bind_res (pmm_lock_range s3 0 0x100000) (\<lambda>s4.
      bind_res (pmm_lock_range s4 (kernel_base (bi_kernel bi))
         (kernel_base (bi_kernel bi) + kernel_size (bi_kernel bi) + PAGE_SIZE)) (\<lambda>s5.
      pmm_lock_bitmap s5 (bitmap_ptr s5) ((bitmap_size s5 + PAGE_SIZE - 1) div PAGE_SIZE) 0)))"
    and "free_frames s2 = {}"
    and "\<exists>s3. pmm_unlock_descs s2 ds = Inr s3 \<and> remarked s2 (usable_frames ds) s3"
proof -
  have mm: "mmap_entries (bi_mmap bi) = Inr ds" and pl: "pmm_place_bitmap ds sz = Some p"
    and ds: "\<forall>d\<in>set ds. desc_ok d" and p: "p \<noteq> 0"
    using ok by (simp_all add: boot_ok_def Let_def sz_def list_all_iff)
  show "pmm_init bi s = bind_res (pmm_unlock_descs s2 ds) (\<lambda>s3.
      bind_res (pmm_lock_range s3 0 0x100000) (\<lambda>s4.
      bind_res (pmm_lock_range s4 (kernel_base (bi_kernel bi))
         (kernel_base (bi_kernel bi) + kernel_size (bi_kernel bi) + PAGE_SIZE)) (\<lambda>s5.
      pmm_lock_bitmap s5 (bitmap_ptr s5) ((bitmap_size s5 + PAGE_SIZE - 1) div PAGE_SIZE) 0)))"
    unfolding pmm_init_def mm bind_res.simps Let_def sz_def [symmetric] pl option.case s2_def by simp
  show empty: "free_frames s2 = {}"
    using byte_full [of "0xFF"] by (auto simp: free_frames_def frame_used_def s2_def)
  have "\<forall>d\<in>set ds. desc_within (32768 * length (bitmap s2)) d"
    using pmm_highest_addr_within [OF ds] boot_ok_bitmap(1) [OF ok] by (simp add: s2_def sz_def)
  with pmm_unlock_descs_spec [of s2 ds] boot_ok_bitmap(2) [OF ok] p empty
  show "\<exists>s3. pmm_unlock_descs s2 ds = Inr s3 \<and> remarked s2 (usable_frames ds) s3"
    by (simp add: s2_def sz_def)
qed

lemma pmm_init_locked:
  fixes s3 :: "'a pmm_state_scheme"
  assumes ok: "boot_ok bi ds p"
  defines "sz \<equiv> pmm_highest_addr ds 0 div PAGE_SIZE div 8"
  defines "ks \<equiv> kernel_base (bi_kernel bi)" and "n \<equiv> kernel_size (bi_kernel bi)"
  assumes s3: "length (bitmap s3) = unat sz" "bitmap_ptr s3 = p" "bitmap_size s3 = sz"
  shows "\<exists>s6. bind_res (pmm_lock_range s3 0 0x100000) (\<lambda>s4.
      bind_res (pmm_lock_range s4 ks (ks + n + PAGE_SIZE)) (\<lambda>s5.
      pmm_lock_bitmap s5 (bitmap_ptr s5) ((bitmap_size s5 + PAGE_SIZE - 1) div PAGE_SIZE) 0)) = Inr s6
    \<and> remarked s3 (free_frames s3 - {..<256} - kernel_frames (bi_kernel bi) - bitmap_frames p (unat sz)) s6"
proof -
  define kl where "kl = ks + n + PAGE_SIZE"
  let ?h = "unat (pmm_highest_addr ds 0)"
  note bm = boot_ok_bitmap [OF ok, folded sz_def]
  have p: "p \<noteq> 0" and h: "0x100000 \<le> ?h" and k: "unat ks + unat n + 8192 \<le> ?h"
    using ok by (simp_all add: boot_ok_def Let_def ks_def n_def)
  have h64: "?h < 2 ^ 64" using unsigned_less [of "pmm_highest_addr ds 0", where 'a = nat] by simp
  have kl: "unat kl = unat ks + unat n + 4096" using k h64 by (simp add: kl_def unat_add_no_overflow)
  obtain s4 where s4: "pmm_lock_range s3 0 0x100000 = Inr s4" "remarked s3 (free_frames s3 - {..<256}) s4"
    using pmm_lock_range_spec [of s3 "0x100000" 0] p s3 h bm(1) by (auto simp: range_frames_low)
  obtain s5 where s5: "pmm_lock_range s4 ks kl = Inr s5"
      "remarked s4 (free_frames s4 - kernel_frames (bi_kernel bi)) s5"
    using pmm_lock_range_spec [of s4 kl ks] p s3 s4(2) kl k bm(1) h64 range_frames_bound
    by (auto simp: kernel_frames_def remarked_def ks_def n_def)
  have s5': "length (bitmap s5) = unat sz" "bitmap_ptr s5 = p" "bitmap_size s5 = sz"
    using s3 s4(2) s5(2) by (simp_all add: remarked_def)
  have "unat p div 4096 + (unat sz + 4095) div 4096 \<le> 8 * unat sz" using bm(1,3,4) by linarith
  with pmm_lock_bitmap_spec [of s5 p "(sz + PAGE_SIZE - 1) div PAGE_SIZE" 0] p s5' bm bitmap_pages [OF bm(2)] h64
  obtain s6 where s6: "pmm_lock_bitmap s5 p ((sz + PAGE_SIZE - 1) div PAGE_SIZE) 0 = Inr s6"
      "remarked s5 (free_frames s5 - bitmap_frames p (unat sz)) s6"
    by (auto simp: bitmap_frames_def)
  have "remarked s3 (free_frames s3 - {..<256} - kernel_frames (bi_kernel bi) - bitmap_frames p (unat sz)) s6"
    using remarked_trans [OF remarked_trans [OF s4(2) s5(2)] s6(2)] s4(2) s5(2) by (simp add: remarked_def)
  with s4(1) s5(1) s6(1) s5' show ?thesis by (auto simp: kl_def)
qed


definition sample_boot :: BootInfo where
  "sample_boot = \<lparr>
     bi_fb = \<lparr>framebuffer_size = 0, framebuffer_base = 0, fb_width = 0, fb_height = 0,
              pixels_per_scanline = 0, fb_format = 0, red_mask = 0, green_mask = 0, blue_mask = 0,
              reserved_mask = 0\<rparr>,
     bi_mmap = \<lparr>memory_map = [\<lparr>desc_type = 7, physical_start = 0x100000, virtual_start = 0,
                               num_pages = 0x100, attribute = 0\<rparr>],
                memory_map_size = 40, descriptor_size = 40, descriptor_version = 1\<rparr>,
     bi_rsdp = 0,
     bi_kernel = \<lparr>kernel_entry = 0x180000, kernel_base = 0x180000, kernel_size = 0x3000\<rparr>,
     bi_ramdisk = \<lparr>ramdisk_addr = 0, ramdisk_size = 0\<rparr>\<rparr>"

definition empty_pmm :: pmm_state where
  "empty_pmm = \<lparr>bitmap_ptr = 0, bitmap_size = 0, bitmap = [], pmm_last_index = (\<lambda>_. 0), pmm_lock = spinlock_init\<rparr>"


end
