(* ===== verification/Pmm_Safety.thy ===== *)
theory Pmm_Safety
  imports Pmm_Boot
begin

text \<open>
  The allocator in use: sequences of allocations and frees by several CPUs. A frame has at most one
  owner at a time, no frame is lost, the search for a run is first fit, and the per-CPU hint
  never hides a free frame as long as only one CPU uses the allocator.
\<close>

section \<open>Sequences of operations\<close>

text \<open>The frames that \<open>c\<close> frames from the address \<open>a\<close> are; none if \<open>a\<close> is null.\<close>

definition frames_at :: "u64 \<Rightarrow> nat \<Rightarrow> nat set" where
  "frames_at a c = (if a = 0 then {} else {unat a div 4096 ..< unat a div 4096 + c})"

text \<open>
  \<open>pmm_owned E s0 s own\<close>: from \<open>s0\<close>, calls by CPUs of \<open>E\<close> lead to \<open>s\<close>, and the callers hold the frames
  \<open>own\<close>. Callers free only frames they hold.
\<close>

inductive pmm_owned ::
  "cpu_env set \<Rightarrow> 'a pmm_state_scheme \<Rightarrow> 'a pmm_state_scheme \<Rightarrow> nat set \<Rightarrow> bool"
  for E s0 where
  start: "pmm_owned E s0 s0 {}"
| alloc: "pmm_owned E s0 s own \<Longrightarrow> env \<in> E \<Longrightarrow> pmm_alloc_frame env s = Inr (a, s') \<Longrightarrow>
    pmm_owned E s0 s' (own \<union> frames_at a 1)"
| allocs: "pmm_owned E s0 s own \<Longrightarrow> env \<in> E \<Longrightarrow> pmm_alloc_frames env count s = Inr (a, s') \<Longrightarrow>
    pmm_owned E s0 s' (own \<union> frames_at a (unat count))"
| free: "pmm_owned E s0 s own \<Longrightarrow> env \<in> E \<Longrightarrow> n \<in> own \<Longrightarrow>
    pmm_free_frame env (addr_of_frame n) s = Inr s' \<Longrightarrow> pmm_owned E s0 s' (own - {n})"

definition pmm_ok :: "'a pmm_state_scheme \<Rightarrow> bool" where
  "pmm_ok s \<longleftrightarrow> pmm_inv s \<and> lock_idle (pmm_lock s)"

lemma pmm_alloc_frames_zero: "pmm_alloc_frames env 0 s = Inr (0, s)"
  by (simp add: pmm_alloc_frames_def)

lemma alloc_frame_ok:
  assumes "pmm_ok s" and "env_ok env"
  shows "(pmm_alloc_frame env s = Inr (0, relock env s)
            \<and> (\<forall>n\<in>free_frames s. n div 8 < search_hint env s))
       \<or> (\<exists>n\<in>free_frames s. search_hint env s \<le> n div 8
            \<and> (\<forall>m\<in>free_frames s. search_hint env s \<le> m div 8 \<longrightarrow> n \<le> m)
            \<and> pmm_alloc_frame env s =
                Inr (addr_of_frame n, relock env (set_hint env (of_nat (n div 8)) (frame_set n s))))"
proof -
  have "pmm_inv s" "lock_free env (pmm_lock s)"
    using assms by (auto simp: pmm_ok_def intro: lock_idle_free)
  then show ?thesis by (cases rule: pmm_alloc_frame_cases) auto
qed

lemma alloc_frames_ok:
  assumes "pmm_ok s" and "env_ok env" and "count \<noteq> 0"
  shows "(pmm_alloc_frames env count s = Inr (0, relock env s)
            \<and> (\<forall>n < 64 * (unat (bitmap_size s) div 8). \<not> run_at s (unat count) n))
       \<or> (\<exists>n. run_at s (unat count) n \<and> (\<forall>m<n. \<not> run_at s (unat count) m)
            \<and> pmm_alloc_frames env count s =
                Inr (addr_of_frame n, relock env (fold frame_set [n ..< n + unat count] s)))"
proof -
  have "pmm_inv s" "lock_free env (pmm_lock s)"
    using assms by (auto simp: pmm_ok_def intro: lock_idle_free)
  then show ?thesis using assms(3) by (cases rule: pmm_alloc_frames_cases) auto
qed

lemma pmm_ok_relock [simp]: "pmm_ok (relock env s) = pmm_ok s"
  by (simp add: pmm_ok_def)

lemma run_at_start:
  assumes "run_at s (unat count) n" and "(count :: u64) \<noteq> 0"
  shows "n \<in> free_frames s"
proof -
  have "0 < unat count" using assms(2) by (simp add: unat_gt_0)
  then have "n \<in> {n ..< n + unat count}" by simp
  with assms(1) show ?thesis unfolding run_at_def by (rule subsetD)
qed

text \<open>
  The effect of each operation on the free frames; the single-frame operations by the laws of the
  frame-allocator interface.
\<close>

lemma frames_at_free:
  assumes "pmm_inv s" and "n \<in> free_frames s"
  shows "frames_at (addr_of_frame n) c = {n ..< n + c}"
  using free_frame_addr [OF assms] unat_addr_div [OF free_frame_bound [OF assms, THEN conjunct1]]
  by (simp add: frames_at_def)

lemma pmm_ok_lock: "pmm_ok s \<Longrightarrow> env_ok env \<Longrightarrow> pmm_inv s \<and> lock_free env (pmm_lock s)"
  by (simp add: pmm_ok_def lock_idle_free)

lemma alloc_frame_effect:
  assumes ok: "pmm_ok s" "env_ok env" and r: "pmm_alloc_frame env s = Inr (a, s')"
  shows "pmm_ok s' \<and> length (bitmap s') = length (bitmap s) \<and> frames_at a 1 \<subseteq> free_frames s
    \<and> free_frames s' = free_frames s - frames_at a 1"
  using alloc_frame_ok [OF ok]
proof (elim disjE bexE conjE)
  fix n assume n: "n \<in> free_frames s" and r': "pmm_alloc_frame env s =
      Inr (addr_of_frame n, relock env (set_hint env (of_nat (n div 8)) (frame_set n s)))"
  have inv: "pmm_inv s" using ok by (simp add: pmm_ok_def)
  have b: "n < 8 * length (bitmap s)" using n by (simp add: free_frames_def)
  have "a = addr_of_frame n" using r r' by simp
  then have "frames_at a 1 = {n ..< n + 1}" using frames_at_free [OF inv n] by (simp only:)
  then have "frames_at a 1 = {n}" by simp
  moreover have "s' = relock env (set_hint env (of_nat (n div 8)) (frame_set n s))" using r r' by simp
  ultimately show ?thesis using n b ok pmm_inv_set [OF inv b] by (simp add: pmm_ok_def)
qed (use ok r in \<open>auto simp: frames_at_def\<close>)

lemma alloc_frames_effect:
  assumes ok: "pmm_ok s" "env_ok env" and r: "pmm_alloc_frames env count s = Inr (a, s')"
  shows "pmm_ok s' \<and> length (bitmap s') = length (bitmap s) \<and> frames_at a (unat count) \<subseteq> free_frames s
    \<and> free_frames s' = free_frames s - frames_at a (unat count)"
proof (cases "count = 0")
  case False
  from alloc_frames_ok [OF ok False] show ?thesis
  proof (elim disjE exE conjE)
    fix n assume n: "run_at s (unat count) n" and r': "pmm_alloc_frames env count s =
      Inr (addr_of_frame n, relock env (fold frame_set [n ..< n + unat count] s))"
    have inv: "pmm_inv s" using ok by (simp add: pmm_ok_def)
    have sub: "{n ..< n + unat count} \<subseteq> free_frames s" using n by (simp add: run_at_def)
    then have b: "\<forall>m\<in>set [n ..< n + unat count]. m < 8 * length (bitmap s)"
      by (auto simp: free_frames_def)
    have nf: "n \<in> free_frames s" by (rule run_at_start [OF n False])
    have "a = addr_of_frame n" using r r' by simp
    then have "frames_at a (unat count) = {n ..< n + unat count}" using frames_at_free [OF inv nf] by (simp only:)
    moreover have "s' = relock env (fold frame_set [n ..< n + unat count] s)" using r r' by simp
    ultimately show ?thesis
      using sub ok pmm_inv_fold_set [OF inv b] free_frames_fold_set [OF b] by (simp add: pmm_ok_def)
  qed (use ok r in \<open>auto simp: frames_at_def\<close>)
qed (use ok r in \<open>auto simp: frames_at_def pmm_alloc_frames_zero\<close>)

lemma free_frame_effect:
  assumes ok: "pmm_ok s" "env_ok env" and n: "n \<noteq> 0" "n < 8 * length (bitmap s)"
    and r: "pmm_free_frame env (addr_of_frame n) s = Inr s'"
  shows "pmm_ok s' \<and> length (bitmap s') = length (bitmap s) \<and> free_frames s' = insert n (free_frames s)
    \<and> s' = relock env (lower_hint env (addr_of_frame n div PAGE_SIZE div 8) (frame_clear n s))"
proof -
  have inv: "pmm_inv s" and "lock_free env (pmm_lock s)" using pmm_ok_lock [OF ok] by auto
  have b: "n < 2 ^ 52" using n(2) frames_bound_pmm [OF inv] by (rule less_le_trans)
  have a: "addr_of_frame n \<noteq> 0" using addr_of_frame_eq_0 [OF b] n(1) by simp
  have "s' = relock env (lower_hint env (addr_of_frame n div PAGE_SIZE div 8) (frame_clear n s))"
    using pmm_free_frame_ok [of s env "addr_of_frame n"] pmm_ok_lock [OF ok] a n r unat_addr_div [OF b]
    by (simp add: pmm_inv_def)
  with n ok pmm_inv_clear [OF inv n(2,1)] show ?thesis by (auto simp: pmm_ok_def)
qed

text \<open>The invariant of the sequences: owned and free frames partition the frames free at the start.\<close>

lemma pmm_owned_inv:
  assumes "pmm_owned E s0 s own" and "pmm_ok s0" and "\<forall>env\<in>E. env_ok env"
  shows "pmm_ok s \<and> own \<subseteq> free_frames s0 \<and> free_frames s = free_frames s0 - own
    \<and> length (bitmap s) = length (bitmap s0)"
  using assms
proof (induction rule: pmm_owned.induct)
  case (alloc s own env a s')
  then show ?case using alloc_frame_effect [of s env a s'] by auto
next
  case (allocs s own env count a s')
  then show ?case using alloc_frames_effect [of s env count a s'] by auto
next
  case (free s own env n s')
  then have "n \<in> free_frames s0" by auto
  moreover have "pmm_inv s0" using free by (simp add: pmm_ok_def)
  ultimately have "n \<noteq> 0" "n < 8 * length (bitmap s)"
    using free free_frame_bound [of s0 n] by (auto simp: free_frames_def)
  with free \<open>n \<in> free_frames s0\<close> free_frame_effect [of s env n s'] show ?case by auto
qed simp

text \<open>
  C3. From a state with an intact bitmap, after any sequence of single-frame and multi-frame
  allocations and of frees of held frames by any CPUs: the free frames are exactly those of the
  start that nobody holds, and a further allocation of one frame or of a run returns null
  or frames that nobody holds. So no frame ever has two owners and none is lost.
\<close>

theorem pmm_exclusive_ownership:
  assumes "pmm_owned E s0 s own" and "pmm_ok s0" and "\<forall>env\<in>E. env_ok env" and "env_ok env"
  shows "free_frames s = free_frames s0 - own \<and> own \<subseteq> free_frames s0
    \<and> (\<exists>a s'. pmm_alloc_frame env s = Inr (a, s') \<and> frames_at a 1 \<subseteq> free_frames s0 - own)
    \<and> (\<exists>a s'. pmm_alloc_frames env count s = Inr (a, s') \<and> frames_at a (unat count) \<subseteq> free_frames s0 - own)"
proof -
  from pmm_owned_inv [OF assms(1-3)] have ok: "pmm_ok s" and f: "free_frames s = free_frames s0 - own"
    and own: "own \<subseteq> free_frames s0" by auto
  obtain a s' where "pmm_alloc_frame env s = Inr (a, s')"
    using pmm.alloc_law [of s env] pmm_ok_lock [OF ok assms(4)] by auto
  moreover obtain b s'' where "pmm_alloc_frames env count s = Inr (b, s'')"
  proof (cases "count = 0")
    case False
    from alloc_frames_ok [OF ok assms(4) False] that show thesis by blast
  qed (use that in \<open>simp add: pmm_alloc_frames_zero\<close>)
  ultimately show ?thesis
    using f own alloc_frame_effect [OF ok assms(4)] alloc_frames_effect [OF ok assms(4)] by fastforce
qed


text \<open>A bitmap of 64 frames of which frame 0 and frames 3 to 7 are in use.\<close>

definition small_pmm :: pmm_state where
  "small_pmm = \<lparr>bitmap_ptr = 0x1000, bitmap_size = 8, bitmap = [0xF9, 0, 0, 0, 0, 0, 0, 0],
     pmm_last_index = (\<lambda>_. 0), pmm_lock = spinlock_init\<rparr>"

definition boot_env :: cpu_env where
  "boot_env = \<lparr>g_lock_enabled = True, this_cpu = Some 0\<rparr>"

lemma small_pmm_ok [simp]: "pmm_ok small_pmm" "env_ok boot_env" "0 < unat (bitmap_size small_pmm)"
  "unat (bitmap_size small_pmm) mod 8 = 0"
  by (simp_all add: pmm_ok_def pmm_inv_def free_frames_def frame_used_def small_pmm_def boot_env_def
      env_ok_def lock_idle_def spinlock_init_def)

lemma ctz_sample: "builtin_ctz (- 250 :: u8) = 1"
  by code_simp

lemma small_pmm_alloc:
  "pmm_alloc_frame boot_env small_pmm =
     Inr (0x1000, relock boot_env (small_pmm\<lparr>bitmap := [0xFB, 0, 0, 0, 0, 0, 0, 0]\<rparr>))"
  by (simp add: pmm_alloc_frame_def pmm_find_frame.simps bm_read_def bm_write_def small_pmm_def
     boot_env_def spin_lock_def spin_locked_def spinlock_init_def ctz_sample Let_def fun_upd_idem)

theorem pmm_exclusive_ownership_witness:
  "\<exists>s. pmm_owned {boot_env} small_pmm s {1} \<and> free_frames s = free_frames small_pmm - {1}
    \<and> (\<exists>a s'. pmm_alloc_frame boot_env s = Inr (a, s') \<and> frames_at a 1 \<subseteq> free_frames small_pmm - {1})"
proof -
  from pmm_owned.alloc [OF pmm_owned.start _ small_pmm_alloc, of "{boot_env}"]
  obtain s where s: "pmm_owned {boot_env} small_pmm s {1}" by (auto simp: frames_at_def)
  from pmm_exclusive_ownership [OF s, of boot_env 0] s show ?thesis by auto
qed



section \<open>The per-CPU search hint\<close>

definition hint_ok :: "cpu_env \<Rightarrow> 'a pmm_state_scheme \<Rightarrow> bool" where
  "hint_ok env s \<longleftrightarrow> (\<forall>n\<in>free_frames s. search_hint env s \<le> n div 8)"

lemma unat_of_frame_byte: "n < 2 ^ 52 \<Longrightarrow> unat (of_nat (n div 8) :: u64) = n div 8"
  by (simp add: unat_of_nat)

lemma search_hint_lock [simp]: "search_hint env (s\<lparr>pmm_lock := l\<rparr>) = search_hint env s"
  by (simp add: search_hint_def split: option.split)

lemma search_hint_set:
  assumes "n < 2 ^ 52" and "this_cpu env \<noteq> None"
  shows "search_hint env (set_hint env (of_nat (n div 8)) s) = n div 8"
  using assms(2) unat_of_frame_byte [OF assms(1)] by (auto simp: search_hint_def set_hint_def)

lemma search_hint_lower:
  "search_hint env (lower_hint env i s) \<le> min (search_hint env s) (unat i)"
  by (auto simp: search_hint_def lower_hint_def word_less_nat_alt split: option.splits)

lemma search_hint_clear [simp]: "search_hint env (frame_clear n s) = search_hint env s"
  by (simp add: search_hint_def split: option.split)

lemma hint_ok_alloc:
  assumes ok: "pmm_ok s" "env_ok env" and hint: "hint_ok env s"
    and r: "pmm_alloc_frame env s = Inr (a, s')"
  shows "hint_ok env s'"
  using alloc_frame_ok [OF ok]
proof (elim disjE bexE conjE)
  fix n assume n: "n \<in> free_frames s" and r': "pmm_alloc_frame env s =
      Inr (addr_of_frame n, relock env (set_hint env (of_nat (n div 8)) (frame_set n s)))"
    and least: "\<forall>m\<in>free_frames s. search_hint env s \<le> m div 8 \<longrightarrow> n \<le> m"
  have inv: "pmm_inv s" using ok by (simp add: pmm_ok_def)
  have b: "n < 8 * length (bitmap s)" using n by (simp add: free_frames_def)
  have s': "s' = relock env (set_hint env (of_nat (n div 8)) (frame_set n s))" using r r' by simp
  have "n div 8 \<le> m div 8" if "m \<in> free_frames s" for m
    using least hint that by (auto simp: hint_ok_def div_le_mono)
  moreover have "search_hint env s' \<le> n div 8"
  proof (cases "this_cpu env")
    case (Some c)
    then show ?thesis
      unfolding s' using search_hint_set [OF free_frame_bound [OF inv n, THEN conjunct1], of env "frame_set n s"] by simp
  qed (simp add: search_hint_def)
  ultimately show ?thesis using b by (fastforce simp: hint_ok_def s')
next
  assume "pmm_alloc_frame env s = Inr (0, relock env s)"
  with r hint show ?thesis by (auto simp: hint_ok_def)
qed

lemma pmm_owned_hint:
  assumes "pmm_owned {env} s0 s own" and "pmm_ok s0" and "env_ok env" and "hint_ok env s0"
  shows "hint_ok env s"
  using assms
proof (induction rule: pmm_owned.induct)
  case (alloc s own env' a s')
  then have "pmm_ok s" using pmm_owned_inv [OF alloc.hyps(1)] by simp
  with alloc show ?case using hint_ok_alloc [of s env a s'] by simp
next
  case (allocs s own env' count a s')
  then have ok: "pmm_ok s" using pmm_owned_inv [OF allocs.hyps(1)] by simp
  have "pmm_last_index s' = pmm_last_index s"
  proof (cases "count = 0")
    case False
    from alloc_frames_ok [OF ok allocs.prems(2) False] allocs.hyps(2,3) show ?thesis by auto
  qed (use allocs.hyps in \<open>simp add: pmm_alloc_frames_zero\<close>)
  then have "search_hint env s' = search_hint env s" unfolding search_hint_def by (simp only:)
  with allocs ok alloc_frames_effect [of s env count a s'] show ?case by (auto simp: hint_ok_def)
next
  case (free s own env' n s')
  then have ok: "pmm_ok s" "n \<in> free_frames s0" "length (bitmap s) = length (bitmap s0)"
    using pmm_owned_inv [OF free.hyps(1)] by auto
  have inv: "pmm_inv s0" using free.prems by (simp add: pmm_ok_def)
  note n = free_frame_bound [OF inv ok(2)]
  have b: "n < 8 * length (bitmap s)" using ok by (simp add: free_frames_def)
  have r: "pmm_free_frame env (addr_of_frame n) s = Inr s'" using free.hyps(2,4) by simp
  from free_frame_effect [OF ok(1) free.prems(2) n [THEN conjunct2] b r] have
    eff: "free_frames s' = insert n (free_frames s)"
      "s' = relock env (lower_hint env (addr_of_frame n div PAGE_SIZE div 8) (frame_clear n s))" by blast+
  have "unat (addr_of_frame n div PAGE_SIZE div 8) = n div 8"
    using unat_addr_div [OF n [THEN conjunct1]] by (simp add: unat_frame_index)
  with eff(2) search_hint_lower [of env "addr_of_frame n div PAGE_SIZE div 8" "frame_clear n s"]
  have "search_hint env s' \<le> min (search_hint env s) (n div 8)" by simp
  moreover have "hint_ok env s" using free by simp
  ultimately show ?case using eff(1) by (auto simp: hint_ok_def)
qed simp

text \<open>
  C18. When a single CPU uses the allocator, the hint never hides a free frame: starting with all free
  frames at or above its hint, \<^verbatim>\<open>pmm_alloc_frame\<close> returns null only when no frame is free at all.
\<close>

theorem pmm_alloc_complete_single_cpu:
  assumes "pmm_owned {env} s0 s own" and "pmm_ok s0" and "env_ok env" and "hint_ok env s0"
    and "free_frames s \<noteq> {}"
  shows "\<exists>n s'. n \<in> free_frames s \<and> (\<forall>m\<in>free_frames s. n \<le> m)
    \<and> pmm_alloc_frame env s = Inr (addr_of_frame n, s') \<and> addr_of_frame n \<noteq> 0"
proof -
  have hint: "hint_ok env s" by (rule pmm_owned_hint [OF assms(1-4)])
  have ok: "pmm_ok s" using pmm_owned_inv [OF assms(1)] assms(2,3) by simp
  have "\<not> (\<forall>n\<in>free_frames s. n div 8 < search_hint env s)"
    using hint assms(5) by (auto simp: hint_ok_def not_less)
  with alloc_frame_ok [OF ok assms(3)] obtain n where n: "n \<in> free_frames s"
    "\<forall>m\<in>free_frames s. search_hint env s \<le> m div 8 \<longrightarrow> n \<le> m"
    "pmm_alloc_frame env s = Inr (addr_of_frame n, relock env (set_hint env (of_nat (n div 8)) (frame_set n s)))"
    by blast
  moreover have "pmm_inv s" using ok by (simp add: pmm_ok_def)
  ultimately show ?thesis using free_frame_addr [of s n] hint unfolding hint_ok_def by blast
qed

theorem pmm_alloc_complete_single_cpu_witness:
  "\<exists>n s'. n \<in> free_frames small_pmm \<and> (\<forall>m\<in>free_frames small_pmm. n \<le> m)
    \<and> pmm_alloc_frame boot_env small_pmm = Inr (addr_of_frame n, s') \<and> addr_of_frame n \<noteq> 0"
proof (rule pmm_alloc_complete_single_cpu [OF pmm_owned.start])
  show "hint_ok boot_env small_pmm"
    by (simp add: hint_ok_def search_hint_def boot_env_def small_pmm_def)
  have "1 \<in> free_frames small_pmm" by (simp add: free_frames_def frame_used_def small_pmm_def)
  then show "free_frames small_pmm \<noteq> {}" by blast
qed simp_all

definition full_pmm :: pmm_state where
  "full_pmm = small_pmm\<lparr>bitmap_size := 2, bitmap := [0xFF, 0xFF], pmm_last_index := (\<lambda>_. 1)\<rparr>"

definition other_env :: cpu_env where
  "other_env = \<lparr>g_lock_enabled = True, this_cpu = Some 1\<rparr>"


definition odd_boot :: BootInfo where
  "odd_boot = sample_boot\<lparr>bi_mmap := (bi_mmap sample_boot)\<lparr>memory_map :=
     [\<lparr>desc_type = 7, physical_start = 0x1000, virtual_start = 0, num_pages = 1, attribute = 0\<rparr>,
      \<lparr>desc_type = 7, physical_start = 0x100000, virtual_start = 0, num_pages = 1, attribute = 0\<rparr>],
      memory_map_size := 80\<rparr>\<rparr>"


end
