(* ===== verification/Vmm_Proofs.thy ===== *)
theory Vmm_Proofs
  imports Vmm Pmm_Safety
begin

text \<open>
  The page tables of one address space as a tree: the table reached along a path of indices, the
  translation it defines, and the invariant that the tree has no sharing, so that writing one
  leaf changes one page. Every mapping step is shown to keep the tree and the translation
  of all other pages; the operations of \<^verbatim>\<open>vmm.c\<close> follow.
\<close>

section \<open>Entries\<close>

lemma addr_mask_split: "(x :: u64) AND VMM_ADDR_MASK = (x AND mask 40) AND NOT 0xFFF"
proof -
  have "VMM_ADDR_MASK = mask 40 AND NOT 0xFFF" by (simp add: mask_eq_exp_minus_1)
  then show ?thesis by (simp add: and.assoc)
qed

lemma mask40_aligned: "unat ((x :: u64) AND VMM_ADDR_MASK) mod 4096 = 0"
  unfolding addr_mask_split by (simp add: unat_and_neg_4096)

lemma mask40_bound: "unat ((x :: u64) AND VMM_ADDR_MASK) < 2 ^ 40"
proof -
  have "x AND VMM_ADDR_MASK \<le> VMM_ADDR_MASK" by (rule word_and_le1)
  then show ?thesis by (simp add: word_le_nat_alt)
qed

lemma mask40_id:
  assumes "unat (x :: u64) mod 4096 = 0" and "unat x < 2 ^ 40"
  shows "x AND VMM_ADDR_MASK = x"
proof -
  have "unat (x AND mask 40) = unat x" using assms(2) by (simp add: unat_and_mask)
  then have "x AND mask 40 = x" by (simp only: word_unat_eq_iff)
  moreover have "unat (x AND NOT 0xFFF) = unat x" using assms(1) by (auto simp: unat_and_neg_4096)
  then have "x AND NOT 0xFFF = x" by (simp only: word_unat_eq_iff)
  ultimately show ?thesis unfolding addr_mask_split by (simp only:)
qed

lemma pte_new [simp]:
  "((p AND VMM_ADDR_MASK) OR PTE_PRESENT OR PTE_WRITABLE OR PTE_USER) AND VMM_ADDR_MASK = p AND VMM_ADDR_MASK"
  "pte_present ((p AND VMM_ADDR_MASK) OR PTE_PRESENT OR PTE_WRITABLE OR PTE_USER)"
  "((p AND VMM_ADDR_MASK) OR PTE_PRESENT OR PTE_WRITABLE OR PTE_USER) AND PTE_HUGE = 0"
  by (simp_all add: pte_present_def bit.conj_disj_distrib2 and.assoc)

text \<open>Two entries that lead to the same place.\<close>

definition pte_same :: "u64 \<Rightarrow> u64 \<Rightarrow> bool" where
  "pte_same e e' \<longleftrightarrow> pte_present e = pte_present e' \<and> e AND VMM_ADDR_MASK = e' AND VMM_ADDR_MASK
     \<and> e AND PTE_HUGE = e' AND PTE_HUGE"

lemma pte_same_refl [simp]: "pte_same e e"
  by (simp add: pte_same_def)

lemma pte_same_trans: "pte_same a b \<Longrightarrow> pte_same b c \<Longrightarrow> pte_same a c"
  by (simp add: pte_same_def)

lemma pte_same_widen: "pte_same e (e OR PTE_USER)" "pte_same e (e OR PTE_WRITABLE)"
  by (simp_all add: pte_same_def pte_present_def bit.conj_disj_distrib2)

lemma pte_leaf:
  assumes "flags AND VMM_ADDR_MASK = 0"
  shows "((p AND VMM_ADDR_MASK) OR flags OR PTE_PRESENT) AND VMM_ADDR_MASK = p AND VMM_ADDR_MASK"
    and "pte_present ((p AND VMM_ADDR_MASK) OR flags OR PTE_PRESENT)"
  using assms by (simp_all add: pte_present_def bit.conj_disj_distrib2 and.assoc)

section \<open>The tree of tables\<close>

definition pt_index :: "u64 \<Rightarrow> bool" where
  "pt_index i \<longleftrightarrow> i < 512"

lemma idx_bound [simp]:
  "pt_index (PML4_IDX v)" "pt_index (PDPT_IDX v)" "pt_index (PD_IDX v)" "pt_index (PT_IDX v)"
  by (simp_all add: pt_index_def PML4_IDX_def PDPT_IDX_def PD_IDX_def PT_IDX_def word_less_nat_alt unat_and_511)

definition entry_addr :: "u64 \<Rightarrow> u64 \<Rightarrow> u64" where
  "entry_addr t i = t + 8 * i"

definition frame_of :: "u64 \<Rightarrow> nat" where
  "frame_of a = unat a div 4096"

definition table_ok :: "u64 \<Rightarrow> bool" where
  "table_ok t \<longleftrightarrow> t \<noteq> 0 \<and> unat t mod 4096 = 0 \<and> unat t < 2 ^ 40"

lemma unat_entry_addr:
  assumes "table_ok t" and "pt_index i"
  shows "unat (entry_addr t i) = unat t + 8 * unat i"
proof -
  have i: "unat i < 512" using assms(2) by (simp add: pt_index_def word_less_nat_alt)
  then have "unat (8 * i) = 8 * unat i" by (simp add: unat_mult_no_overflow)
  with i assms(1) show ?thesis by (simp add: entry_addr_def table_ok_def unat_add_no_overflow)
qed

lemma frame_of_entry:
  assumes "table_ok t" and "pt_index i"
  shows "frame_of (entry_addr t i) = frame_of t"
proof -
  have "unat i < 512" using assms(2) by (simp add: pt_index_def word_less_nat_alt)
  with assms show ?thesis by (simp add: frame_of_def unat_entry_addr) (simp add: table_ok_def div_add1_eq)
qed

lemma table_eq_frame:
  assumes "table_ok t" and "table_ok t'"
  shows "frame_of t = frame_of t' \<longleftrightarrow> t = t'"
proof
  assume "frame_of t = frame_of t'"
  then have "unat t div 4096 = unat t' div 4096" "unat t mod 4096 = unat t' mod 4096"
    using assms by (simp_all add: frame_of_def table_ok_def)
  then have "unat t = unat t'" by (metis div_mult_mod_eq)
  then show "t = t'" by (simp add: word_unat_eq_iff)
qed simp

lemma entry_addr_inj:
  assumes "table_ok t" and "table_ok t'" and "pt_index i" and "pt_index j"
  shows "entry_addr t i = entry_addr t' j \<longleftrightarrow> t = t' \<and> i = j"
proof
  assume eq: "entry_addr t i = entry_addr t' j"
  then have "frame_of t = frame_of t'"
    using frame_of_entry [OF assms(1,3)] frame_of_entry [OF assms(2,4)] by simp
  then have t: "t = t'" using table_eq_frame [OF assms(1,2)] by simp
  with eq have "unat i = unat j"
    using unat_entry_addr [OF assms(1,3)] unat_entry_addr [OF assms(2,4)] by simp
  with t show "t = t' \<and> i = j" by (simp add: word_unat_eq_iff)
qed simp

text \<open>The table reached from \<open>r\<close> along a path of indices.\<close>

fun tbl :: "(u64 \<Rightarrow> u64) \<Rightarrow> u64 \<Rightarrow> u64 list \<Rightarrow> u64 option" where
  "tbl M r [] = Some r"
| "tbl M r (i # p) = (let e = M (entry_addr r i) in if pte_present e then tbl M (e AND VMM_ADDR_MASK) p else None)"

lemma tbl_snoc:
  "tbl M r (p @ [i]) = (case tbl M r p of None \<Rightarrow> None
     | Some t \<Rightarrow> let e = M (entry_addr t i) in if pte_present e then Some (e AND VMM_ADDR_MASK) else None)"
  by (induction p arbitrary: r) (auto simp: Let_def)

declare tbl.simps(2) [simp del]

definition table_path :: "u64 list \<Rightarrow> bool" where
  "table_path p \<longleftrightarrow> length p \<le> 3 \<and> list_all pt_index p"

definition vpath :: "u64 \<Rightarrow> u64 list" where
  "vpath v = [PML4_IDX v, PDPT_IDX v, PD_IDX v]"

lemma length_vpath [simp]: "length (vpath v) = 3"
  by (simp add: vpath_def)

lemma table_path_simps [simp]: "table_path []" "table_path (vpath v)" "table_path (take k (vpath v))"
  by (auto simp: table_path_def vpath_def take_Cons split: nat.split)

lemma table_path_snoc: "table_path (p @ [i]) \<longleftrightarrow> length p \<le> 2 \<and> table_path p \<and> pt_index i"
  by (auto simp: table_path_def)

text \<open>What \<open>v\<close> translates to; \<open>0\<close> if its page is not mapped.\<close>

definition translate :: "(u64 \<Rightarrow> u64) \<Rightarrow> u64 \<Rightarrow> u64 \<Rightarrow> u64" where
  "translate M r v = (case tbl M r (vpath v) of None \<Rightarrow> 0
     | Some t \<Rightarrow> let e = M (entry_addr t (PT_IDX v))
                in if pte_present e then (e AND VMM_ADDR_MASK) + (v AND 0xFFF) else 0)"

text \<open>The tree has no sharing, its tables are proper frames, and it has no large pages.\<close>

definition pt_tree :: "(u64 \<Rightarrow> u64) \<Rightarrow> u64 \<Rightarrow> bool" where
  "pt_tree M r \<longleftrightarrow>
     (\<forall>p t. table_path p \<longrightarrow> tbl M r p = Some t \<longrightarrow> table_ok t)
   \<and> (\<forall>p q t. table_path p \<longrightarrow> table_path q \<longrightarrow> tbl M r p = Some t \<longrightarrow> tbl M r q = Some t \<longrightarrow> p = q)
   \<and> (\<forall>p t i. table_path p \<longrightarrow> length p = 2 \<longrightarrow> pt_index i \<longrightarrow> tbl M r p = Some t
         \<longrightarrow> M (entry_addr t i) AND PTE_HUGE = 0)"

definition table_frames :: "(u64 \<Rightarrow> u64) \<Rightarrow> u64 \<Rightarrow> nat set" where
  "table_frames M r = {frame_of t | p t. table_path p \<and> tbl M r p = Some t}"

lemma pt_treeD:
  assumes "pt_tree M r"
  shows "table_path p \<Longrightarrow> tbl M r p = Some t \<Longrightarrow> table_ok t"
    and "table_path p \<Longrightarrow> table_path q \<Longrightarrow> tbl M r p = Some t \<Longrightarrow> tbl M r q = Some t \<Longrightarrow> p = q"
    and "table_path p \<Longrightarrow> length p = 2 \<Longrightarrow> pt_index i \<Longrightarrow> tbl M r p = Some t \<Longrightarrow>
      M (entry_addr t i) AND PTE_HUGE = 0"
  using assms unfolding pt_tree_def by blast+

lemma pt_tree_root: "pt_tree M r \<Longrightarrow> table_ok r"
  using pt_treeD(1) [of M r "[]" r] by simp

lemma table_framesI: "table_path p \<Longrightarrow> tbl M r p = Some t \<Longrightarrow> frame_of t \<in> table_frames M r"
  by (auto simp: table_frames_def)

lemma table_frames_cong:
  assumes "\<And>p. table_path p \<Longrightarrow> tbl M' r p = tbl M r p"
  shows "table_frames M' r = table_frames M r"
  unfolding table_frames_def using assms by (intro Collect_cong ex_cong1) auto

section \<open>Changes of the memory\<close>

text \<open>Entries replaced by entries that lead to the same place change nothing.\<close>

lemma tbl_same:
  assumes "\<And>a. pte_same (M a) (M' a)"
  shows "tbl M' r p = tbl M r p"
proof (induction p arbitrary: r)
  case (Cons i p)
  then show ?case using assms [of "entry_addr r i"] by (simp add: tbl.simps(2) pte_same_def Let_def)
qed simp

lemma same_tree:
  assumes "\<And>a. pte_same (M a) (M' a)"
  shows "pt_tree M' r = pt_tree M r" and "translate M' r v = translate M r v"
    and "table_frames M' r = table_frames M r"
proof -
  note t = tbl_same [of M M', OF assms]
  have h: "M' a AND PTE_HUGE = M a AND PTE_HUGE" for a using assms [of a] by (simp add: pte_same_def)
  show "pt_tree M' r = pt_tree M r" by (simp only: pt_tree_def t h)
  show "table_frames M' r = table_frames M r" by (simp only: table_frames_def t)
  have "pte_present (M' a) = pte_present (M a)" "M' a AND VMM_ADDR_MASK = M a AND VMM_ADDR_MASK" for a
    using assms [of a] by (simp_all add: pte_same_def)
  then show "translate M' r v = translate M r v" by (simp add: translate_def t Let_def split: option.split)
qed

text \<open>Memory outside the tables of a tree does not matter to it.\<close>

lemma agree_tbl:
  assumes tree: "pt_tree M r" and agree: "\<And>a. frame_of a \<in> table_frames M r \<Longrightarrow> M' a = M a"
  shows "table_path p \<Longrightarrow> tbl M' r p = tbl M r p"
proof (induction p rule: rev_induct)
  case (snoc i p)
  then have p: "table_path p" "pt_index i" by (simp_all add: table_path_snoc)
  have "M' (entry_addr t i) = M (entry_addr t i)" if "tbl M r p = Some t" for t
    using agree table_framesI [OF p(1) that] frame_of_entry [OF pt_treeD(1) [OF tree p(1) that] p(2)] by simp
  with snoc.IH [OF p(1)] show ?case by (simp add: tbl_snoc split: option.split)
qed simp

lemma agree_entry:
  assumes "pt_tree M r" and "\<And>a. frame_of a \<in> table_frames M r \<Longrightarrow> M' a = M a"
    and "table_path p" and "tbl M r p = Some t" and "pt_index i"
  shows "M' (entry_addr t i) = M (entry_addr t i)"
  using assms(2) table_framesI [OF assms(3,4)] frame_of_entry [OF pt_treeD(1) [OF assms(1,3,4)] assms(5)] by simp

lemma agree_tree:
  assumes tree: "pt_tree M r" and agree: "\<And>a. frame_of a \<in> table_frames M r \<Longrightarrow> M' a = M a"
  shows "pt_tree M' r" and "translate M' r v = translate M r v" and "table_frames M' r = table_frames M r"
proof -
  have t: "tbl M' r p = tbl M r p" if "table_path p" for p
    using agree_tbl [OF tree _ that, of M'] agree by blast
  have e: "M' (entry_addr t i) = M (entry_addr t i)" if "table_path p" "tbl M r p = Some t" "pt_index i" for p t i
    using agree_entry [OF tree _ that, of M'] agree by blast
  show "table_frames M' r = table_frames M r" by (rule table_frames_cong [OF t])
  have ok: "table_ok t'" if "table_path p" "tbl M' r p = Some t'" for p t'
    using that pt_treeD(1) [OF tree that(1)] by (simp add: t)
  have inj: "p = q" if "table_path p" "table_path q" "tbl M' r p = Some t'" "tbl M' r q = Some t'" for p q t'
    using that pt_treeD(2) [OF tree that(1,2)] by (simp add: t)
  have huge: "M' (entry_addr t' i) AND PTE_HUGE = 0"
    if "table_path p" "length p = 2" "pt_index i" "tbl M' r p = Some t'" for p t' i
    using that pt_treeD(3) [OF tree that(1,2,3)] e [OF that(1) _ that(3)] by (simp add: t)
  show "pt_tree M' r" unfolding pt_tree_def using ok inj huge by blast
  have "tbl M' r (vpath v) = tbl M r (vpath v)" by (rule t) simp
  then show "translate M' r v = translate M r v"
    using e [of "vpath v"] by (simp add: translate_def split: option.split)
qed

text \<open>Writing a leaf entry.\<close>

lemma leaf_tbl:
  assumes tree: "pt_tree M r" and t: "table_path q" "length q = 3" "tbl M r q = Some t" and j: "pt_index j"
  shows "table_path p \<Longrightarrow> tbl (M(entry_addr t j := e)) r p = tbl M r p"
proof (induction p rule: rev_induct)
  case (snoc i p)
  then have p: "table_path p" "pt_index i" "length p \<le> 2" by (simp_all add: table_path_snoc)
  have "entry_addr t' i \<noteq> entry_addr t j" if "tbl M r p = Some t'" for t'
  proof -
    have "t' \<noteq> t" using pt_treeD(2) [OF tree p(1) t(1) that] t(2,3) p(3) by auto
    with entry_addr_inj [OF pt_treeD(1) [OF tree p(1) that] pt_treeD(1) [OF tree t(1,3)] p(2) j]
    show ?thesis by simp
  qed
  with snoc.IH [OF p(1)] show ?case by (simp add: tbl_snoc split: option.split)
qed simp

definition same_page :: "u64 \<Rightarrow> u64 \<Rightarrow> bool" where
  "same_page v w \<longleftrightarrow> vpath v = vpath w \<and> PT_IDX v = PT_IDX w"

lemma leaf_tree:
  fixes e :: u64
  assumes tree: "pt_tree M r" and t: "tbl M r (vpath v) = Some t"
  defines "M' \<equiv> M(entry_addr t (PT_IDX v) := e)"
  shows "pt_tree M' r" and "table_frames M' r = table_frames M r"
    and "\<not> same_page w v \<Longrightarrow> translate M' r w = translate M r w"
    and "same_page w v \<Longrightarrow>
      translate M' r w = (if pte_present e then (e AND VMM_ADDR_MASK) + (w AND 0xFFF) else 0)"
proof -
  have q: "table_path (vpath v)" "length (vpath v) = 3" by simp_all
  note tb = leaf_tbl [OF tree q t idx_bound(4) [of v], of _ e, folded M'_def]
  have neq: "entry_addr t' i \<noteq> entry_addr t (PT_IDX v)"
    if "table_path p" "tbl M r p = Some t'" "pt_index i" "p \<noteq> vpath v \<or> i \<noteq> PT_IDX v" for p t' i
    using that pt_treeD(2) [OF tree that(1) q(1) that(2)] t
      entry_addr_inj [OF pt_treeD(1) [OF tree that(1,2)] pt_treeD(1) [OF tree q(1) t] that(3) idx_bound(4)]
    by auto
  show "table_frames M' r = table_frames M r" by (rule table_frames_cong [OF tb])
  have ok: "table_ok t'" if "table_path p" "tbl M' r p = Some t'" for p t'
    using that pt_treeD(1) [OF tree that(1)] by (simp add: tb)
  have inj: "p = q" if "table_path p" "table_path q" "tbl M' r p = Some t'" "tbl M' r q = Some t'" for p q t'
    using that pt_treeD(2) [OF tree that(1,2)] by (simp add: tb)
  have huge: "M' (entry_addr t' i) AND PTE_HUGE = 0"
    if "table_path p" "length p = 2" "pt_index i" "tbl M' r p = Some t'" for p t' i
  proof -
    have t': "tbl M r p = Some t'" using that by (simp add: tb)
    have "p \<noteq> vpath v" using that(2) by auto
    with neq [OF that(1) t' that(3)] pt_treeD(3) [OF tree that(1,2,3) t'] show ?thesis by (simp add: M'_def)
  qed
  show "pt_tree M' r" unfolding pt_tree_def using ok inj huge by blast
  have w: "tbl M' r (vpath w) = tbl M r (vpath w)" by (rule tb) simp
  show "translate M' r w = translate M r w" if "\<not> same_page w v"
    using w neq [of "vpath w"] that by (simp add: translate_def same_page_def M'_def split: option.split)
  show "translate M' r w = (if pte_present e then (e AND VMM_ADDR_MASK) + (w AND 0xFFF) else 0)"
    if "same_page w v"
    using w t that by (simp add: translate_def same_page_def M'_def Let_def)
qed

text \<open>
  Linking the empty table \<open>n\<close>, which the tree does not have yet, by the entry \<open>e\<close> at index \<open>i\<close> of the
  table \<open>t\<close> that the path \<open>q\<close> leads to.
\<close>

definition linkable ::
  "(u64 \<Rightarrow> u64) \<Rightarrow> u64 \<Rightarrow> u64 list \<Rightarrow> u64 \<Rightarrow> u64 \<Rightarrow> u64 \<Rightarrow> u64 \<Rightarrow> bool" where
  "linkable M r q i t n e \<longleftrightarrow> pt_tree M r \<and> table_path (q @ [i]) \<and> tbl M r q = Some t
     \<and> \<not> pte_present (M (entry_addr t i)) \<and> table_ok n \<and> frame_of n \<notin> table_frames M r
     \<and> (\<forall>j. pt_index j \<longrightarrow> M (entry_addr n j) = 0)
     \<and> pte_present e \<and> e AND VMM_ADDR_MASK = n \<and> e AND PTE_HUGE = 0"

lemma linkableD:
  assumes "linkable M r q i t n e"
  shows "pt_tree M r" "table_path q" "pt_index i" "length q \<le> 2" "tbl M r q = Some t"
    "tbl M r (q @ [i]) = None" "table_ok t" "table_ok n" "t \<noteq> n"
    "pte_present e" "e AND VMM_ADDR_MASK = n" "e AND PTE_HUGE = 0"
proof -
  show *: "pt_tree M r" "table_path q" "pt_index i" "length q \<le> 2" "tbl M r q = Some t" "table_ok n"
    "pte_present e" "e AND VMM_ADDR_MASK = n" "e AND PTE_HUGE = 0"
    using assms by (simp_all add: linkable_def table_path_snoc)
  show "table_ok t" by (rule pt_treeD(1) [OF *(1,2,5)])
  show "tbl M r (q @ [i]) = None" unfolding tbl_snoc using assms by (simp add: linkable_def)
  show "t \<noteq> n" using assms table_framesI [OF *(2,5)] by (auto simp: linkable_def)
qed

lemma link_fresh:
  "linkable M r q i t n e \<Longrightarrow> table_path p \<Longrightarrow> tbl M r p = Some t' \<Longrightarrow> t' \<noteq> n"
  using table_framesI [of p M r t'] by (auto simp: linkable_def)

lemma link_new_entry:
  assumes "linkable M r q i t n e" and "pt_index j"
  shows "(M(entry_addr t i := e)) (entry_addr n j) = 0"
  using entry_addr_inj [OF linkableD(8,7) [OF assms(1)] assms(2) linkableD(3) [OF assms(1)]] linkableD(9) [OF assms(1)]
    assms by (simp add: linkable_def)

lemma link_old_entry:
  assumes l: "linkable M r q i t n e" and p: "table_path p" "tbl M r p = Some t'" "pt_index j"
  shows "entry_addr t' j = entry_addr t i \<longleftrightarrow> p = q \<and> j = i"
  using entry_addr_inj [OF pt_treeD(1) [OF linkableD(1) [OF l] p(1,2)] linkableD(7) [OF l] p(3) linkableD(3) [OF l]]
    pt_treeD(2) [OF linkableD(1) [OF l] p(1) linkableD(2) [OF l] p(2)] p(2) linkableD(5) [OF l] by auto

lemma link_tbl:
  assumes l: "linkable M r q i t n e"
  shows "table_path p \<Longrightarrow>
    tbl (M(entry_addr t i := e)) r p = (if p = q @ [i] then Some n else tbl M r p)"
proof (induction p rule: rev_induct)
  case (snoc j p)
  from snoc have p: "table_path p" "pt_index j" by (simp_all add: table_path_snoc)
  define M' where "M' = M(entry_addr t i := e)"
  have IH: "tbl M' r p = (if p = q @ [i] then Some n else tbl M r p)"
    unfolding M'_def by (rule snoc.IH [OF p(1)])
  show ?case unfolding M'_def [symmetric]
  proof (cases "p = q @ [i]")
    case True
    have "tbl M r p = None" using linkableD(6) [OF l] True by simp
    then have "tbl M r (p @ [j]) = None" unfolding tbl_snoc by simp
    moreover have "tbl M' r (p @ [j]) = None"
      unfolding tbl_snoc using IH True link_new_entry [OF l p(2)] by (simp add: pte_present_def M'_def)
    ultimately show "tbl M' r (p @ [j]) = (if p @ [j] = q @ [i] then Some n else tbl M r (p @ [j]))"
      using True by simp
  next
    case False
    then have same: "tbl M' r p = tbl M r p" using IH by simp
    show "tbl M' r (p @ [j]) = (if p @ [j] = q @ [i] then Some n else tbl M r (p @ [j]))"
    proof (cases "tbl M r p")
      case None
      then have "p \<noteq> q" using linkableD(5) [OF l] by auto
      with None show ?thesis unfolding tbl_snoc same by simp
    next
      case (Some t')
      with link_old_entry [OF l p(1) Some p(2)] linkableD(10,11) [OF l] show ?thesis
        unfolding tbl_snoc same by (auto simp: M'_def)
    qed
  qed
qed auto

lemma link_pt_tree:
  assumes l: "linkable M r q i t n e"
  shows "pt_tree (M(entry_addr t i := e)) r"
proof -
  define M' where "M' = M(entry_addr t i := e)"
  have tb: "tbl M' r p = (if p = q @ [i] then Some n else tbl M r p)" if "table_path p" for p
    unfolding M'_def by (rule link_tbl [OF l that])
  note tree = linkableD(1) [OF l]
  have ok: "table_ok t'" if "table_path p" "tbl M' r p = Some t'" for p t'
    using that linkableD(8) [OF l] pt_treeD(1) [OF tree that(1)] by (auto simp: tb split: if_splits)
  have inj: "p = p'" if "table_path p" "table_path p'" "tbl M' r p = Some t'" "tbl M' r p' = Some t'" for p p' t'
    using that pt_treeD(2) [OF tree that(1,2)] link_fresh [OF l] by (auto simp: tb split: if_splits)
  have huge: "M' (entry_addr t' j) AND PTE_HUGE = 0"
    if "table_path p" "length p = 2" "pt_index j" "tbl M' r p = Some t'" for p t' j
  proof (cases "p = q @ [i]")
    case True
    then have "t' = n" using that by (simp add: tb)
    then show ?thesis using link_new_entry [OF l that(3)] by (simp add: M'_def)
  next
    case False
    then have t': "tbl M r p = Some t'" using that by (simp add: tb)
    with link_old_entry [OF l that(1) t' that(3)] pt_treeD(3) [OF tree that(1,2,3) t'] linkableD(12) [OF l]
    show ?thesis by (auto simp: M'_def)
  qed
  show ?thesis unfolding pt_tree_def M'_def [symmetric] using ok inj huge by blast
qed

lemma link_table_frames:
  assumes l: "linkable M r q i t n e"
  shows "table_frames (M(entry_addr t i := e)) r = insert (frame_of n) (table_frames M r)"
proof (intro equalityI subsetI)
  fix x assume "x \<in> table_frames (M(entry_addr t i := e)) r"
  then show "x \<in> insert (frame_of n) (table_frames M r)"
    by (auto simp: table_frames_def link_tbl [OF l] split: if_splits)
next
  fix x assume "x \<in> insert (frame_of n) (table_frames M r)"
  then consider "x = frame_of n" | p t' where "x = frame_of t'" "table_path p" "tbl M r p = Some t'"
    by (auto simp: table_frames_def)
  then show "x \<in> table_frames (M(entry_addr t i := e)) r"
  proof cases
    case 1
    have "table_path (q @ [i])" using l by (simp add: linkable_def)
    with 1 link_tbl [OF l this] show ?thesis using table_framesI by fastforce
  next
    case 2
    then have "tbl (M(entry_addr t i := e)) r p = Some t'"
      using linkableD(6) [OF l] link_tbl [OF l 2(2)] by auto
    with 2 show ?thesis using table_framesI by blast
  qed
qed

lemma link_translate:
  assumes l: "linkable M r q i t n e"
  shows "translate (M(entry_addr t i := e)) r v = translate M r v"
proof (cases "vpath v = q @ [i]")
  case True
  have "table_path (q @ [i])" using l by (simp add: linkable_def)
  with link_tbl [OF l this] link_new_entry [OF l idx_bound(4) [of v]] linkableD(6) [OF l] show ?thesis
    unfolding translate_def True by (simp add: pte_present_def)
next
  case False
  have "vpath v \<noteq> q" using linkableD(4) [OF l] by auto
  moreover have "tbl (M(entry_addr t i := e)) r (vpath v) = tbl M r (vpath v)"
    using link_tbl [OF l table_path_simps(2)] False by simp
  ultimately show ?thesis
    using link_old_entry [OF l table_path_simps(2) _ idx_bound(4)]
    by (simp add: translate_def split: option.split)
qed

end
