(* ===== verification/Vmm_Ops.thy ===== *)
theory Vmm_Ops
  imports Vmm_Proofs
begin

text \<open>
  The operations of \<^verbatim>\<open>vmm.c\<close> on an intact tree of tables: mapping, unmapping, ranges, and the
  creation of an address space.
\<close>

section \<open>Pointers to tables\<close>

lemma table_nonzero: "table_ok t \<Longrightarrow> vmm_get_table s t \<noteq> 0"
proof
  assume "table_ok t" and "vmm_get_table s t = 0"
  then have t: "t = - HHDM_OFFSET" "unat t < 2 ^ 40"
    by (auto simp: vmm_get_table_def phys_to_virt_def table_ok_def eq_neg_iff_add_eq_0 split: if_splits)
  have "unat (- HHDM_OFFSET) = 2 ^ 47" by simp
  with t show False by simp
qed

lemma ptr_phys_table: "kernel_pml4 s' = kernel_pml4 s \<Longrightarrow> ptr_phys s' (vmm_get_table s t) = t"
  by (simp add: ptr_phys_def vmm_get_table_def phys_to_virt_def)

lemma vmm_get_table_cong: "kernel_pml4 s' = kernel_pml4 s \<Longrightarrow> vmm_get_table s' t = vmm_get_table s t"
  by (simp add: vmm_get_table_def)

lemma vmm_get_table_upd [simp]:
  "vmm_get_table (s\<lparr>pt_mem := M\<rparr>) t = vmm_get_table s t" "vmm_get_table (s\<lparr>vmm_lock := l\<rparr>) t = vmm_get_table s t"
  by (simp_all add: vmm_get_table_def)

lemma pt_read_table:
  "table_ok t \<Longrightarrow> kernel_pml4 s' = kernel_pml4 s \<Longrightarrow>
     pt_read s' (vmm_get_table s t) i = Inr (pt_mem s' (entry_addr t i))"
  by (simp add: pt_read_def table_nonzero entry_addr_def ptr_phys_table)

lemma pt_write_table:
  "table_ok t \<Longrightarrow> kernel_pml4 s' = kernel_pml4 s \<Longrightarrow>
     pt_write (vmm_get_table s t) i v s' = Inr (s'\<lparr>pt_mem := (pt_mem s')(entry_addr t i := v)\<rparr>)"
  by (simp add: pt_write_def table_nonzero entry_addr_def ptr_phys_table)

lemma in_table_iff:
  assumes "table_ok t"
  shows "a - t < PAGE_SIZE \<longleftrightarrow> frame_of a = frame_of t"
proof -
  obtain k where k: "unat t = 4096 * k" using assms by (auto simp: table_ok_def)
  show ?thesis
  proof (cases "t \<le> a")
    case True
    then have "unat (a - t) = unat a - unat t" "unat t \<le> unat a"
      by (simp_all add: unat_sub word_le_nat_alt)
    then show ?thesis using k by (simp add: word_less_nat_alt frame_of_def) linarith
  next
    case False
    then have lt: "unat a < unat t" by (simp add: word_le_nat_alt)
    have "unat (a - t) = unat a + 18446744073709551616 - unat t"
      using False unsigned_less [of t, where 'a = nat] by (simp add: unat_sub_if_size word_size word_le_nat_alt)
    moreover have "unat t < 1099511627776" using assms by (simp add: table_ok_def)
    ultimately have "\<not> unat (a - t) < 4096" by linarith
    then have "\<not> a - t < PAGE_SIZE" by (simp add: word_less_nat_alt)
    moreover have "unat a div 4096 < k" using lt k by (simp add: less_mult_imp_div_less mult.commute)
    ultimately show ?thesis using k by (simp add: frame_of_def)
  qed
qed

definition zero_frame :: "u64 \<Rightarrow> (u64 \<Rightarrow> u64) \<Rightarrow> u64 \<Rightarrow> u64" where
  "zero_frame t M = (\<lambda>a. if frame_of a = frame_of t then 0 else M a)"

lemma pt_zero_table:
  "table_ok t \<Longrightarrow> kernel_pml4 s' = kernel_pml4 s \<Longrightarrow>
     pt_zero (vmm_get_table s t) s' = Inr (s'\<lparr>pt_mem := zero_frame t (pt_mem s')\<rparr>)"
  by (simp add: pt_zero_def table_nonzero in_table_iff zero_frame_def ptr_phys_table)

lemmas table_access = pt_read_table pt_write_table pt_zero_table

section \<open>The invariant and the steps of a walk\<close>

definition vmm_inv :: "'a vmm_state_scheme \<Rightarrow> u64 \<Rightarrow> bool" where
  "vmm_inv s r \<longleftrightarrow> pmm_ok s \<and> 8 * length (bitmap s) \<le> 2 ^ 28
     \<and> pt_tree (pt_mem s) r \<and> table_frames (pt_mem s) r \<inter> free_frames s = {}"

definition walk_frames :: "(u64 \<Rightarrow> u64) \<Rightarrow> u64 \<Rightarrow> u64 \<Rightarrow> nat set" where
  "walk_frames M r v = {frame_of t | k t. k \<le> 3 \<and> tbl M r (take k (vpath v)) = Some t}"

text \<open>
  A step of the walk that maps \<open>v\<close>: it may take frames and extend the tree, but changes no translation, and
  it writes only to the tables on the way to \<open>v\<close> and to the frames it took.
\<close>

definition walk_step :: "u64 \<Rightarrow> u64 \<Rightarrow> 'a vmm_state_scheme \<Rightarrow> 'a vmm_state_scheme \<Rightarrow> bool" where
  "walk_step r v s s' \<longleftrightarrow> vmm_inv s' r \<and> (\<forall>w. translate (pt_mem s') r w = translate (pt_mem s) r w)
     \<and> kernel_pml4 s' = kernel_pml4 s \<and> kernel_pml4_phys s' = kernel_pml4_phys s \<and> vmm_lock s' = vmm_lock s
     \<and> hw_log s' = hw_log s \<and> vmm_state.more s' = vmm_state.more s
     \<and> length (bitmap s') = length (bitmap s) \<and> free_frames s' \<subseteq> free_frames s
     \<and> (\<forall>p t. table_path p \<longrightarrow> tbl (pt_mem s) r p = Some t \<longrightarrow> tbl (pt_mem s') r p = Some t)
     \<and> walk_frames (pt_mem s') r v \<subseteq> walk_frames (pt_mem s) r v \<union> (free_frames s - free_frames s')
     \<and> (\<forall>a. frame_of a \<notin> walk_frames (pt_mem s) r v \<union> (free_frames s - free_frames s')
           \<longrightarrow> pt_mem s' a = pt_mem s a)"

lemma walk_step_refl: "vmm_inv s r \<Longrightarrow> walk_step r v s s"
  by (simp add: walk_step_def)

lemma walk_stepD:
  assumes "walk_step r v s s'"
  shows "vmm_inv s' r" "translate (pt_mem s') r w = translate (pt_mem s) r w" "kernel_pml4 s' = kernel_pml4 s"
    "length (bitmap s') = length (bitmap s)" "free_frames s' \<subseteq> free_frames s"
    "vmm_lock s' = vmm_lock s" "vmm_state.more s' = vmm_state.more s" "kernel_pml4_phys s' = kernel_pml4_phys s"
    "table_path p \<Longrightarrow> tbl (pt_mem s) r p = Some t \<Longrightarrow> tbl (pt_mem s') r p = Some t"
    "walk_frames (pt_mem s') r v \<subseteq> walk_frames (pt_mem s) r v \<union> (free_frames s - free_frames s')"
    "frame_of a \<notin> walk_frames (pt_mem s) r v \<Longrightarrow> frame_of a \<notin> free_frames s - free_frames s' \<Longrightarrow>
      pt_mem s' a = pt_mem s a"
    "hw_log s' = hw_log s"
  using assms unfolding walk_step_def by blast+

lemma walk_step_trans:
  assumes st: "walk_step r v s s'" and st': "walk_step r v s' s''"
  shows "walk_step r v s s''"
proof -
  note d = walk_stepD [OF st] and d' = walk_stepD [OF st']
  have sub: "free_frames s'' \<subseteq> free_frames s" by (rule subset_trans [OF d'(5) d(5)])
  have mono: "free_frames s - free_frames s' \<subseteq> free_frames s - free_frames s''"
    "free_frames s' - free_frames s'' \<subseteq> free_frames s - free_frames s''" using d(5) d'(5) by auto
  have walk: "walk_frames (pt_mem s'') r v \<subseteq> walk_frames (pt_mem s) r v \<union> (free_frames s - free_frames s'')"
    using d(10) d'(10) mono by blast
  have mem: "pt_mem s'' a = pt_mem s a"
    if "frame_of a \<notin> walk_frames (pt_mem s) r v \<union> (free_frames s - free_frames s'')" for a
  proof -
    have "pt_mem s' a = pt_mem s a" using that mono(1) by (intro d(11)) auto
    moreover have "pt_mem s'' a = pt_mem s' a" using that mono d(10) by (intro d'(11)) blast+
    ultimately show ?thesis by simp
  qed
  show ?thesis
    unfolding walk_step_def
    by (intro conjI allI impI) (use d d' sub walk mem in \<open>simp_all\<close>)
qed

section \<open>One level of the walk\<close>

lemma pmm_more_vmm:
  assumes "pmm_state.more s' = pmm_state.more (s :: 'a vmm_state_scheme)"
  shows "pt_mem s' = pt_mem s" "kernel_pml4 s' = kernel_pml4 s" "kernel_pml4_phys s' = kernel_pml4_phys s"
    "vmm_lock s' = vmm_lock s" "hw_log s' = hw_log s" "vmm_state.more s' = vmm_state.more s"
  using assms by (cases s; cases s'; simp)+

lemma vmm_alloc:
  assumes "pmm_ok s" and "env_ok env"
  shows "\<exists>a s'. pmm_alloc_frame env s = Inr (a, s') \<and> pmm_ok s' \<and> length (bitmap s') = length (bitmap s)
    \<and> pmm_state.more s' = pmm_state.more s
    \<and> (a = 0 \<and> free_frames s' = free_frames s
       \<or> (\<exists>n\<in>free_frames s. a = addr_of_frame n \<and> a \<noteq> 0 \<and> free_frames s' = free_frames s - {n}))"
proof -
  obtain a s' where r: "pmm_alloc_frame env s = Inr (a, s')" and m: "pmm_state.more s' = pmm_state.more s"
    and f: "a = 0 \<and> free_frames s' = free_frames s
       \<or> (\<exists>n\<in>free_frames s. a = addr_of_frame n \<and> a \<noteq> 0 \<and> free_frames s' = free_frames s - {n})"
    using pmm.alloc_law [of s env] pmm_ok_lock [OF assms] by blast
  with alloc_frame_effect [OF assms r] show ?thesis by (intro exI [of _ a] exI [of _ s'] conjI) simp_all
qed

lemma frame_table_ok:
  assumes "vmm_inv s r" and "n \<in> free_frames s"
  shows "table_ok (addr_of_frame n)" and "frame_of (addr_of_frame n) = n"
    and "addr_of_frame n AND VMM_ADDR_MASK = addr_of_frame n"
proof -
  have inv: "pmm_inv s" and len: "8 * length (bitmap s) \<le> 2 ^ 28" using assms(1) by (simp_all add: vmm_inv_def pmm_ok_def)
  have n: "n < 2 ^ 28" using assms(2) len by (simp add: free_frames_def)
  have u: "unat (addr_of_frame n) = n * 4096"
    using free_frame_bound [OF inv assms(2)] by (simp only: unat_addr_of_frame)
  then show "frame_of (addr_of_frame n) = n" by (simp add: frame_of_def)
  show ok: "table_ok (addr_of_frame n)" using u n free_frame_addr [OF inv assms(2)] by (simp add: table_ok_def)
  then show "addr_of_frame n AND VMM_ADDR_MASK = addr_of_frame n" by (intro mask40_id) (simp_all add: table_ok_def)
qed

lemma zero_frame_tree:
  assumes "pt_tree M r" and "frame_of t \<notin> table_frames M r"
  shows "pt_tree (zero_frame t M) r" and "translate (zero_frame t M) r v = translate M r v"
    and "table_frames (zero_frame t M) r = table_frames M r"
    and "table_path p \<Longrightarrow> tbl (zero_frame t M) r p = tbl M r p"
proof -
  have "zero_frame t M a = M a" if "frame_of a \<in> table_frames M r" for a
    using that assms(2) by (auto simp: zero_frame_def)
  note agree = agree_tree [OF assms(1), of "zero_frame t M", OF this] and tb = agree_tbl [OF assms(1), of "zero_frame t M", OF this]
  show "pt_tree (zero_frame t M) r" "translate (zero_frame t M) r v = translate M r v"
    "table_frames (zero_frame t M) r = table_frames M r" by (rule agree, assumption)+
  show "tbl (zero_frame t M) r p = tbl M r p" if "table_path p" by (rule tb [OF _ that])
qed

lemma vmm_inv_mem:
  "vmm_inv (s\<lparr>pt_mem := M\<rparr>) r \<longleftrightarrow> pmm_ok s \<and> 8 * length (bitmap s) \<le> 2 ^ 28
     \<and> pt_tree M r \<and> table_frames M r \<inter> free_frames s = {}"
  by (simp add: vmm_inv_def pmm_ok_def pmm_inv_def free_frames_def frame_used_def)

lemma free_frames_mem [simp]: "free_frames (s\<lparr>pt_mem := M\<rparr>) = free_frames s"
  by (simp add: free_frames_def frame_used_def)

lemma vmm_inv_log [simp]:
  "free_frames (s\<lparr>hw_log := h\<rparr>) = free_frames s" "free_frames (s\<lparr>vmm_lock := l\<rparr>) = free_frames s"
  "pmm_ok (s\<lparr>hw_log := h\<rparr>) = pmm_ok s" "pmm_ok (s\<lparr>vmm_lock := l\<rparr>) = pmm_ok s"
  "vmm_inv (s\<lparr>hw_log := h\<rparr>) r = vmm_inv s r" "vmm_inv (s\<lparr>vmm_lock := l\<rparr>) r = vmm_inv s r"
  by (simp_all add: free_frames_def frame_used_def pmm_ok_def pmm_inv_def vmm_inv_def)

lemma walk_framesI: "k \<le> 3 \<Longrightarrow> tbl M r (take k (vpath v)) = Some t \<Longrightarrow> frame_of t \<in> walk_frames M r v"
  by (auto simp: walk_frames_def)

lemma walk_widen:
  assumes inv: "vmm_inv s r" and k: "k \<le> 3" and t: "tbl (pt_mem s) r (take k (vpath v)) = Some t"
    and i: "pt_index i" and e: "pte_same (pt_mem s (entry_addr t i)) e"
  shows "walk_step r v s (s\<lparr>pt_mem := (pt_mem s)(entry_addr t i := e)\<rparr>)"
proof -
  let ?M' = "(pt_mem s)(entry_addr t i := e)"
  have same: "pte_same (pt_mem s a) (?M' a)" for a using e by simp
  note st = same_tree [of "pt_mem s" ?M', OF same] and tb = tbl_same [of "pt_mem s" ?M', OF same]
  have tree: "pt_tree (pt_mem s) r" using inv by (simp add: vmm_inv_def)
  have "table_ok t" using pt_treeD(1) [OF tree _ t] by simp
  then have "frame_of (entry_addr t i) \<in> walk_frames (pt_mem s) r v"
    using frame_of_entry i walk_framesI [OF k t] by simp
  moreover have "walk_frames ?M' r v = walk_frames (pt_mem s) r v" by (simp add: walk_frames_def tb)
  ultimately show ?thesis using inv
    by (auto simp: walk_step_def vmm_inv_mem st tb) (auto simp: vmm_inv_def)
qed

lemma take_Suc_vpath: "k < 3 \<Longrightarrow> take (Suc k) (vpath v) = take k (vpath v) @ [vpath v ! k]"
  by (simp add: take_Suc_conv_app_nth)

lemma walk_linkable:
  assumes inv: "vmm_inv s r" and k: "k < 3" and t: "tbl (pt_mem s) r (take k (vpath v)) = Some t"
    and absent: "\<not> pte_present (pt_mem s (entry_addr t (vpath v ! k)))" and n: "n \<in> free_frames s"
    and e: "e = (addr_of_frame n AND VMM_ADDR_MASK) OR PTE_PRESENT OR PTE_WRITABLE OR PTE_USER"
  shows "linkable (zero_frame (addr_of_frame n) (pt_mem s)) r (take k (vpath v)) (vpath v ! k) t (addr_of_frame n) e"
proof -
  have tree: "pt_tree (pt_mem s) r" and dis: "table_frames (pt_mem s) r \<inter> free_frames s = {}"
    using inv by (simp_all add: vmm_inv_def)
  note ft = frame_table_ok [OF inv n]
  have fresh: "frame_of (addr_of_frame n) \<notin> table_frames (pt_mem s) r" using dis n ft(2) by auto
  note z = zero_frame_tree [OF tree fresh]
  have path: "table_path (take k (vpath v) @ [vpath v ! k])"
    using table_path_simps(3) [of "Suc k" v] by (simp only: take_Suc_vpath [OF k])
  then have i: "pt_index (vpath v ! k)" by (simp add: table_path_snoc)
  have "table_ok t" by (rule pt_treeD(1) [OF tree _ t]) simp
  then have "frame_of (entry_addr t (vpath v ! k)) \<in> table_frames (pt_mem s) r"
    using frame_of_entry [OF _ i] table_framesI [OF table_path_simps(3) t] by simp
  then have "\<not> pte_present (zero_frame (addr_of_frame n) (pt_mem s) (entry_addr t (vpath v ! k)))"
    using absent fresh by (auto simp: zero_frame_def)
  moreover have "zero_frame (addr_of_frame n) (pt_mem s) (entry_addr (addr_of_frame n) j) = 0" if "pt_index j" for j
    using frame_of_entry [OF ft(1) that] by (simp add: zero_frame_def)
  moreover have "pte_present e" "e AND VMM_ADDR_MASK = addr_of_frame n" "e AND PTE_HUGE = 0"
    unfolding e by (rule pte_new(2), rule trans [OF pte_new(1) ft(3)], rule pte_new(3))
  ultimately show ?thesis unfolding linkable_def using z path t fresh ft by simp
qed

lemma walk_link:
  assumes inv: "vmm_inv s r" and k: "k < 3" and t: "tbl (pt_mem s) r (take k (vpath v)) = Some t"
    and absent: "\<not> pte_present (pt_mem s (entry_addr t (vpath v ! k)))" and n: "n \<in> free_frames s"
    and e: "e = (addr_of_frame n AND VMM_ADDR_MASK) OR PTE_PRESENT OR PTE_WRITABLE OR PTE_USER"
    and s1: "pmm_ok s1" "length (bitmap s1) = length (bitmap s)" "free_frames s1 = free_frames s - {n}"
      "pmm_state.more s1 = pmm_state.more s"
  defines "M' \<equiv> (zero_frame (addr_of_frame n) (pt_mem s))(entry_addr t (vpath v ! k) := e)"
  shows "walk_step r v s (s1\<lparr>pt_mem := M'\<rparr>)" and "tbl M' r (take (Suc k) (vpath v)) = Some (addr_of_frame n)"
proof -
  note l = walk_linkable [OF inv k t absent n e]
  have tree: "pt_tree (pt_mem s) r" and dis: "table_frames (pt_mem s) r \<inter> free_frames s = {}"
    using inv by (simp_all add: vmm_inv_def)
  note ft = frame_table_ok [OF inv n] and more = pmm_more_vmm [OF s1(4)]
  have fresh: "frame_of (addr_of_frame n) \<notin> table_frames (pt_mem s) r" using dis n ft(2) by auto
  note z = zero_frame_tree [OF tree fresh]
  have tb: "tbl M' r p = (if p = take (Suc k) (vpath v) then Some (addr_of_frame n) else tbl (pt_mem s) r p)"
    if "table_path p" for p
    unfolding M'_def take_Suc_vpath [OF k] using link_tbl [OF l that] z(4) [OF that] by simp
  show "tbl M' r (take (Suc k) (vpath v)) = Some (addr_of_frame n)" by (simp add: tb)
  have none: "tbl (pt_mem s) r (take (Suc k) (vpath v)) = None"
    using linkableD(6) [OF l, folded take_Suc_vpath [OF k]] z(4) [OF table_path_simps(3)] by simp
  have inv': "vmm_inv (s1\<lparr>pt_mem := M'\<rparr>) r"
    unfolding vmm_inv_mem M'_def link_table_frames [OF l]
    using link_pt_tree [OF l] s1 inv dis z(3) ft(2) by (auto simp: vmm_inv_def)
  have walk: "walk_frames M' r v \<subseteq> walk_frames (pt_mem s) r v \<union> {n}"
    by (auto simp: walk_frames_def tb ft(2) split: if_splits)
  have tfr: "frame_of (entry_addr t (vpath v ! k)) \<in> walk_frames (pt_mem s) r v"
    using frame_of_entry [OF linkableD(7) [OF l] linkableD(3) [OF l]] walk_framesI [of k, OF _ t] k by simp
  have mem: "M' a = pt_mem s a" if "frame_of a \<notin> walk_frames (pt_mem s) r v \<union> {n}" for a
    using that tfr ft(2) by (auto simp: M'_def zero_frame_def)
  have trans: "translate M' r w = translate (pt_mem s) r w" for w
    unfolding M'_def by (simp add: link_translate [OF l] z(2))
  have keep: "tbl M' r p = Some t'" if "table_path p" "tbl (pt_mem s) r p = Some t'" for p t'
    using that none tb by auto
  have diff: "free_frames s - free_frames s1 = {n}" using s1(3) n by auto
  show "walk_step r v s (s1\<lparr>pt_mem := M'\<rparr>)"
    unfolding walk_step_def free_frames_mem diff
    by (intro conjI allI impI) (use inv' trans more s1 keep walk mem in \<open>simp_all, blast?\<close>)
qed

text \<open>One pass of the loop of \<^verbatim>\<open>_vmm_map_unlocked\<close>: a step of the walk, which reaches the next table or
  finds no frame.\<close>

lemma pt_mem_triv: "s\<lparr>pt_mem := pt_mem s\<rparr> = s"
  by simp

lemma vmm_map_level_present:
  assumes inv: "vmm_inv s r" and k: "k < 3" and t: "tbl (pt_mem s) r (take k (vpath v)) = Some t"
    and pr: "pte_present (pt_mem s (entry_addr t (vpath v ! k)))"
  shows "\<exists>t' s'. vmm_map_level env flags (vmm_get_table s t) (vpath v ! k) s = Inr (Some (vmm_get_table s' t'), s')
    \<and> walk_step r v s s' \<and> tbl (pt_mem s') r (take (Suc k) (vpath v)) = Some t'"
proof -
  define i where "i = vpath v ! k"
  have path: "table_path (take k (vpath v) @ [i])"
    using table_path_simps(3) [of "Suc k" v] by (simp only: take_Suc_vpath [OF k] i_def)
  then have i: "pt_index i" by (simp add: table_path_snoc)
  have tok: "table_ok t" using inv pt_treeD(1) [OF _ table_path_simps(3) t] by (simp add: vmm_inv_def)
  let ?e = "pt_mem s (entry_addr t i)"
  let ?e1 = "if flags AND PTE_USER \<noteq> 0 then ?e OR PTE_USER else ?e"
  let ?e2 = "if flags AND PTE_WRITABLE \<noteq> 0 then ?e1 OR PTE_WRITABLE else ?e1"
  define s' where "s' = s\<lparr>pt_mem := (pt_mem s)(entry_addr t i := ?e2)\<rparr>"
  have same: "pte_same ?e ?e2" using pte_same_widen pte_same_trans by (auto intro: pte_same_trans)
  have r: "vmm_map_level env flags (vmm_get_table s t) i s = Inr (Some (vmm_get_table s' (?e2 AND VMM_ADDR_MASK)), s')"
    using pr unfolding vmm_map_level_def s'_def
    by (cases "flags AND PTE_USER \<noteq> 0"; cases "flags AND PTE_WRITABLE \<noteq> 0";
        simp add: table_access tok i_def [symmetric] pt_mem_triv)
  have st: "walk_step r v s s'" unfolding s'_def by (rule walk_widen [OF inv _ t i same]) (use k in simp)
  have "tbl (pt_mem s') r (take k (vpath v)) = Some t" by (rule walk_stepD(9) [OF st _ t]) simp
  then have "tbl (pt_mem s') r (take (Suc k) (vpath v)) = Some (?e2 AND VMM_ADDR_MASK)"
    unfolding take_Suc_vpath [OF k] tbl_snoc i_def [symmetric] using same pr
    by (simp add: s'_def pte_same_def i_def)
  with r st show ?thesis unfolding i_def by blast
qed


lemma vmm_map_level_absent:
  assumes inv: "vmm_inv s r" and env: "env_ok env" and k: "k < 3"
    and t: "tbl (pt_mem s) r (take k (vpath v)) = Some t"
    and ab: "\<not> pte_present (pt_mem s (entry_addr t (vpath v ! k)))"
  shows "(\<exists>s'. vmm_map_level env flags (vmm_get_table s t) (vpath v ! k) s = Inr (None, s')
        \<and> walk_step r v s s' \<and> pt_mem s' = pt_mem s)
    \<or> (\<exists>t' s'. vmm_map_level env flags (vmm_get_table s t) (vpath v ! k) s = Inr (Some (vmm_get_table s' t'), s')
        \<and> walk_step r v s s' \<and> tbl (pt_mem s') r (take (Suc k) (vpath v)) = Some t')"
proof -
  have ok: "pmm_ok s" and tok: "table_ok t"
    using inv pt_treeD(1) [OF _ table_path_simps(3) t] by (simp_all add: vmm_inv_def)
  from vmm_alloc [OF ok env] obtain a s1 where s1: "pmm_alloc_frame env s = Inr (a, s1)" "pmm_ok s1"
    "length (bitmap s1) = length (bitmap s)" "pmm_state.more s1 = pmm_state.more s"
    and c: "a = 0 \<and> free_frames s1 = free_frames s \<or>
      (\<exists>n\<in>free_frames s. a = addr_of_frame n \<and> a \<noteq> 0 \<and> free_frames s1 = free_frames s - {n})" by blast
  note more = pmm_more_vmm [OF s1(4)]
  from c show ?thesis
  proof (elim disjE bexE conjE)
    assume a: "a = 0" "free_frames s1 = free_frames s"
    have "vmm_map_level env flags (vmm_get_table s t) (vpath v ! k) s = Inr (None, s1)"
      using ab s1(1) a(1) by (simp add: vmm_map_level_def table_access tok)
    moreover have "walk_step r v s s1"
      using walk_step_refl [OF inv, of v] s1(2,3) a(2) more by (simp add: walk_step_def vmm_inv_def)
    ultimately show ?thesis using more(1) by blast
  next
    fix n assume n: "n \<in> free_frames s" "a = addr_of_frame n" "a \<noteq> 0" "free_frames s1 = free_frames s - {n}"
    define e where "e = (addr_of_frame n AND VMM_ADDR_MASK) OR PTE_PRESENT OR PTE_WRITABLE OR PTE_USER"
    define s' where "s' = s1\<lparr>pt_mem := (zero_frame a (pt_mem s))(entry_addr t (vpath v ! k) := e)\<rparr>"
    have e: "e AND VMM_ADDR_MASK = a"
      unfolding e_def n(2) using pte_new(1) [of "addr_of_frame n"] frame_table_ok(3) [OF inv n(1)] by (simp only:)
    have e7: "(a AND VMM_ADDR_MASK) OR 7 = e" unfolding e_def n(2) by simp
    have aok: "table_ok a" using frame_table_ok(1) [OF inv n(1)] n(2) by simp
    note w = walk_link [OF inv k t ab n(1) e_def s1(2,3) n(4) s1(4), folded n(2), folded s'_def]
    have "vmm_map_level env flags (vmm_get_table s t) (vpath v ! k) s = Inr (Some (vmm_get_table s' a), s')"
      using ab s1(1) n(3) aok e unfolding vmm_map_level_def s'_def
      by (simp add: table_access tok more e7)
    moreover have "tbl (pt_mem s') r (take (Suc k) (vpath v)) = Some a" using w(2) by (simp add: s'_def)
    ultimately show ?thesis using w(1) by blast
  qed
qed


lemma vmm_map_level_spec:
  assumes inv: "vmm_inv s r" and env: "env_ok env" and k: "k < 3"
    and t: "tbl (pt_mem s) r (take k (vpath v)) = Some t"
  shows "\<exists>x s'. vmm_map_level env flags (vmm_get_table s t) (vpath v ! k) s = Inr (x, s') \<and> walk_step r v s s'
    \<and> (x \<noteq> None \<longrightarrow> (\<exists>t'. x = Some (vmm_get_table s' t') \<and> tbl (pt_mem s') r (take (Suc k) (vpath v)) = Some t'))"
proof (cases "pte_present (pt_mem s (entry_addr t (vpath v ! k)))")
  case True
  from vmm_map_level_present [OF inv k t True, of env flags] show ?thesis by blast
next
  case False
  from vmm_map_level_absent [OF inv env k t False, of flags] show ?thesis by blast
qed

section \<open>Mapping one page\<close>

lemma drop_vpath: "k < 3 \<Longrightarrow> drop k (vpath v) = vpath v ! k # drop (Suc k) (vpath v)"
  by (simp add: Cons_nth_drop_Suc)

lemma vmm_map_levels_spec:
  assumes "vmm_inv s r" and "env_ok env" and "k \<le> 3" and "tbl (pt_mem s) r (take k (vpath v)) = Some t"
  shows "\<exists>x s'. vmm_map_levels env flags (drop k (vpath v)) (vmm_get_table s t) s = Inr (x, s')
    \<and> walk_step r v s s' \<and> (x = None \<or> (\<exists>t'. x = Some (vmm_get_table s' t') \<and> tbl (pt_mem s') r (vpath v) = Some t'))"
  using assms
proof (induction "3 - k" arbitrary: k s t)
  case 0
  then have "k = 3" by simp
  with 0 show ?case by (auto intro: walk_step_refl)
next
  case (Suc d)
  then have k: "k < 3" by simp
  from vmm_map_level_spec [OF Suc.prems(1,2) k Suc.prems(4), of flags] obtain x s' where
    s': "vmm_map_level env flags (vmm_get_table s t) (vpath v ! k) s = Inr (x, s')" "walk_step r v s s'"
      "x \<noteq> None \<Longrightarrow> \<exists>t'. x = Some (vmm_get_table s' t') \<and> tbl (pt_mem s') r (take (Suc k) (vpath v)) = Some t'"
    by blast
  show ?case
  proof (cases x)
    case None
    with s'(1,2) show ?thesis by (simp add: drop_vpath [OF k])
  next
    case (Some y)
    with s'(3) obtain t' where t': "x = Some (vmm_get_table s' t')"
      "tbl (pt_mem s') r (take (Suc k) (vpath v)) = Some t'" by blast
    have "d = 3 - Suc k" "Suc k \<le> 3" using Suc.hyps(2) k by simp_all
    from Suc.hyps(1) [OF this(1) walk_stepD(1) [OF s'(2)] Suc.prems(2) this(2) t'(2)] obtain x' s'' where
      "vmm_map_levels env flags (drop (Suc k) (vpath v)) (vmm_get_table s' t') s' = Inr (x', s'')"
      "walk_step r v s' s''"
      "x' = None \<or> (\<exists>t'. x' = Some (vmm_get_table s'' t') \<and> tbl (pt_mem s'') r (vpath v) = Some t')"
      by blast
    with s'(1) t'(1) walk_step_trans [OF s'(2)] show ?thesis by (auto simp: drop_vpath [OF k])
  qed
qed

text \<open>The translation of an address space after one page was mapped or unmapped.\<close>

definition map_view :: "u64 \<Rightarrow> u64 \<Rightarrow> (u64 \<Rightarrow> u64) \<Rightarrow> u64 \<Rightarrow> u64" where
  "map_view v phys f = (\<lambda>w. if same_page w v then (phys AND VMM_ADDR_MASK) + (w AND 0xFFF) else f w)"

definition unmap_view :: "u64 \<Rightarrow> (u64 \<Rightarrow> u64) \<Rightarrow> u64 \<Rightarrow> u64" where
  "unmap_view v f = (\<lambda>w. if same_page w v then 0 else f w)"

text \<open>What mapping keeps: everything but the tree, the frames taken and the log.\<close>

definition vmm_frame :: "'a vmm_state_scheme \<Rightarrow> 'a vmm_state_scheme \<Rightarrow> bool" where
  "vmm_frame s s' \<longleftrightarrow> kernel_pml4 s' = kernel_pml4 s \<and> kernel_pml4_phys s' = kernel_pml4_phys s
     \<and> vmm_lock s' = vmm_lock s \<and> vmm_state.more s' = vmm_state.more s \<and> length (bitmap s') = length (bitmap s)"

lemma vmm_frame_refl [simp]: "vmm_frame s s"
  by (simp add: vmm_frame_def)

lemma vmm_frame_trans: "vmm_frame s s' \<Longrightarrow> vmm_frame s' s'' \<Longrightarrow> vmm_frame s s''"
  by (simp add: vmm_frame_def)

text \<open>The memory an operation on the page of \<open>v\<close> may write: the tables on the way, and free frames.\<close>

definition writes_walk :: "u64 \<Rightarrow> u64 \<Rightarrow> 'a vmm_state_scheme \<Rightarrow> 'a vmm_state_scheme \<Rightarrow> bool" where
  "writes_walk r v s s' \<longleftrightarrow> free_frames s' \<subseteq> free_frames s
     \<and> (\<forall>a. frame_of a \<notin> walk_frames (pt_mem s) r v \<union> free_frames s \<longrightarrow> pt_mem s' a = pt_mem s a)"

lemma vmm_map_unlocked_spec:
  assumes inv: "vmm_inv s r" and env: "env_ok env" and flags: "flags AND VMM_ADDR_MASK = 0"
  shows "\<exists>ok s'. vmm_map_unlocked env (vmm_get_table s r) v phys flags s = Inr (ok, s')
    \<and> vmm_inv s' r \<and> vmm_frame s s' \<and> writes_walk r v s s'
    \<and> translate (pt_mem s') r = (if ok then map_view v phys (translate (pt_mem s) r) else translate (pt_mem s) r)
    \<and> hw_log s' = hw_log s @ (if ok then [Invlpg v] else [])"
proof -
  have "tbl (pt_mem s) r (take 0 (vpath v)) = Some r" by simp
  from vmm_map_levels_spec [OF inv env _ this, of flags] obtain x s1 where
    x: "vmm_map_levels env flags (vpath v) (vmm_get_table s r) s = Inr (x, s1)" and st: "walk_step r v s s1"
    and c: "x = None \<or> (\<exists>t'. x = Some (vmm_get_table s1 t') \<and> tbl (pt_mem s1) r (vpath v) = Some t')" by auto
  note d = walk_stepD [OF st]
  have wr: "writes_walk r v s s1" using d(5,11) by (auto simp: writes_walk_def)
  have fr: "vmm_frame s s1" using d by (simp add: vmm_frame_def)
  from c show ?thesis
  proof (elim disjE exE conjE)
    assume "x = None"
    then have "vmm_map_unlocked env (vmm_get_table s r) v phys flags s = Inr (False, s1)"
      using x by (simp add: vmm_map_unlocked_def vpath_def [symmetric])
    then show ?thesis using d wr fr by (intro exI [of _ False] exI [of _ s1]) (simp add: fun_eq_iff)
  next
    fix t assume t: "x = Some (vmm_get_table s1 t)" "tbl (pt_mem s1) r (vpath v) = Some t"
    let ?e = "(phys AND VMM_ADDR_MASK) OR flags OR PTE_PRESENT"
    define M' where "M' = (pt_mem s1)(entry_addr t (PT_IDX v) := ?e)"
    have tree: "pt_tree (pt_mem s1) r" using d(1) by (simp add: vmm_inv_def)
    note leaf = leaf_tree [OF tree t(2), where e = ?e, folded M'_def] and tok = pt_treeD(1) [OF tree table_path_simps(2) t(2)]
    have r: "vmm_map_unlocked env (vmm_get_table s r) v phys flags s = Inr (True, vmm_invlpg v (s1\<lparr>pt_mem := M'\<rparr>))"
      using x t(1) by (simp add: vmm_map_unlocked_def vpath_def [symmetric] table_access tok M'_def)
    have inv': "vmm_inv (vmm_invlpg v (s1\<lparr>pt_mem := M'\<rparr>)) r"
      using d(1) leaf(1,2) by (simp add: vmm_invlpg_def vmm_inv_mem) (simp add: vmm_inv_def)
    have trans: "translate M' r = map_view v phys (translate (pt_mem s) r)"
      using leaf(3,4) pte_leaf [OF flags, of phys] d(2) by (auto simp: map_view_def fun_eq_iff)
    have "frame_of (entry_addr t (PT_IDX v)) \<in> walk_frames (pt_mem s1) r v"
      using frame_of_entry [OF tok idx_bound(4)] walk_framesI [of 3 "pt_mem s1" r v t] t(2) by simp
    then have "frame_of (entry_addr t (PT_IDX v)) \<in> walk_frames (pt_mem s) r v \<union> free_frames s"
      using d(10) by blast
    then have "writes_walk r v s (vmm_invlpg v (s1\<lparr>pt_mem := M'\<rparr>))"
      using wr by (auto simp: writes_walk_def vmm_invlpg_def M'_def)
    with r inv' trans fr d(12) show ?thesis
      by (intro exI [of _ True] exI [of _ "vmm_invlpg v (s1\<lparr>pt_mem := M'\<rparr>)"])
         (simp add: vmm_invlpg_def vmm_frame_def)
  qed
qed

section \<open>Translation and unmapping\<close>

text \<open>The tables on the way to \<open>v\<close>, entry by entry.\<close>

lemma vpath_tables:
  fixes v :: u64
  assumes tree: "pt_tree M r"
  defines "e4 \<equiv> M (entry_addr r (PML4_IDX v))"
  defines "e3 \<equiv> M (entry_addr (e4 AND VMM_ADDR_MASK) (PDPT_IDX v))"
  defines "e2 \<equiv> M (entry_addr (e3 AND VMM_ADDR_MASK) (PD_IDX v))"
  shows "table_ok r"
    and "pte_present e4 \<Longrightarrow> table_ok (e4 AND VMM_ADDR_MASK)"
    and "pte_present e4 \<Longrightarrow> pte_present e3 \<Longrightarrow> table_ok (e3 AND VMM_ADDR_MASK)"
    and "pte_present e4 \<Longrightarrow> pte_present e3 \<Longrightarrow> e2 AND PTE_HUGE = 0"
    and "pte_present e4 \<Longrightarrow> pte_present e3 \<Longrightarrow> pte_present e2 \<Longrightarrow> table_ok (e2 AND VMM_ADDR_MASK)"
    and "tbl M r (vpath v) = (if pte_present e4 \<and> pte_present e3 \<and> pte_present e2
                              then Some (e2 AND VMM_ADDR_MASK) else None)"
proof -
  show "table_ok r" by (rule pt_tree_root [OF tree])
  have p: "table_path [PML4_IDX v]" "table_path [PML4_IDX v, PDPT_IDX v]" by (simp_all add: table_path_def)
  show "table_ok (e4 AND VMM_ADDR_MASK)" if "pte_present e4"
    using pt_treeD(1) [OF tree p(1)] that by (simp add: tbl.simps e4_def)
  show "table_ok (e3 AND VMM_ADDR_MASK)" "e2 AND PTE_HUGE = 0" if "pte_present e4" "pte_present e3"
    using pt_treeD(1,3) [OF tree p(2)] that by (simp_all add: tbl.simps e4_def e3_def e2_def)
  show v: "tbl M r (vpath v) = (if pte_present e4 \<and> pte_present e3 \<and> pte_present e2
      then Some (e2 AND VMM_ADDR_MASK) else None)"
    by (simp add: vpath_def tbl.simps e4_def e3_def e2_def Let_def)
  show "table_ok (e2 AND VMM_ADDR_MASK)" if "pte_present e4" "pte_present e3" "pte_present e2"
    by (rule pt_treeD(1) [OF tree table_path_simps(2) [of v]]) (simp add: v that)
qed

lemma vmm_virtual_to_physical_eq:
  assumes tree: "pt_tree (pt_mem s) r"
  shows "vmm_virtual_to_physical s (vmm_get_table s r) v = Inr (translate (pt_mem s) r v)"
  using vpath_tables(1) [OF tree] vpath_tables(2-6) [OF tree, of v]
  by (auto simp: vmm_virtual_to_physical_def table_access Let_def translate_def)

lemma vmm_unmap_unlocked_eq:
  assumes tree: "pt_tree (pt_mem s) r"
  shows "vmm_unmap_unlocked (vmm_get_table s r) v s = Inr (case tbl (pt_mem s) r (vpath v) of None \<Rightarrow> s
    | Some t \<Rightarrow> vmm_invlpg v (s\<lparr>pt_mem := (pt_mem s)(entry_addr t (PT_IDX v) := 0)\<rparr>))"
  using vpath_tables(1) [OF tree] vpath_tables(2-6) [OF tree, of v]
  by (auto simp: vmm_unmap_unlocked_def table_access Let_def)

lemma vmm_unmap_unlocked_spec:
  assumes inv: "vmm_inv s r"
  shows "\<exists>s'. vmm_unmap_unlocked (vmm_get_table s r) v s = Inr s' \<and> vmm_inv s' r \<and> vmm_frame s s'
    \<and> writes_walk r v s s' \<and> free_frames s' = free_frames s
    \<and> translate (pt_mem s') r = unmap_view v (translate (pt_mem s) r)
    \<and> hw_log s' = hw_log s @ (if tbl (pt_mem s) r (vpath v) = None then [] else [Invlpg v])"
proof -
  have tree: "pt_tree (pt_mem s) r" using inv by (simp add: vmm_inv_def)
  note eq = vmm_unmap_unlocked_eq [OF tree, of v]
  show ?thesis
  proof (cases "tbl (pt_mem s) r (vpath v)")
    case None
    then have "translate (pt_mem s) r = unmap_view v (translate (pt_mem s) r)"
      by (auto simp: unmap_view_def translate_def same_page_def)
    with None eq inv show ?thesis by (simp add: writes_walk_def)
  next
    case (Some t)
    define M' where "M' = (pt_mem s)(entry_addr t (PT_IDX v) := 0)"
    note leaf = leaf_tree [OF tree Some, where e = 0, folded M'_def]
    have "translate M' r = unmap_view v (translate (pt_mem s) r)"
      using leaf(3,4) by (auto simp: unmap_view_def fun_eq_iff pte_present_def)
    moreover have "vmm_inv (s\<lparr>pt_mem := M'\<rparr>) r" using inv leaf(1,2) by (simp add: vmm_inv_mem) (simp add: vmm_inv_def)
    moreover have "frame_of (entry_addr t (PT_IDX v)) \<in> walk_frames (pt_mem s) r v"
      using frame_of_entry [OF pt_treeD(1) [OF tree table_path_simps(2) Some] idx_bound(4)]
        walk_framesI [of 3 "pt_mem s" r v t] Some by simp
    then have "writes_walk r v s (s\<lparr>pt_mem := M'\<rparr>)" by (auto simp: writes_walk_def M'_def)
    ultimately show ?thesis
      using Some eq by (auto simp: vmm_invlpg_def vmm_frame_def writes_walk_def M'_def)
  qed
qed

section \<open>The address space as an interface\<close>

text \<open>
  What the users of the page tables rely on: \<open>look\<close> is the translation, \<open>same\<close> says that two addresses are on
  one page, and \<open>place phys w\<close> is where \<open>w\<close> goes when its page is mapped to \<open>phys\<close>. A mapping may fail
  for lack of frames; then nothing changes.
\<close>

locale address_space =
  fixes mapp :: "u64 \<Rightarrow> u64 \<Rightarrow> 's \<Rightarrow> (bool \<times> 's) res"
    and unmap :: "u64 \<Rightarrow> 's \<Rightarrow> 's res"
    and look :: "'s \<Rightarrow> u64 \<Rightarrow> u64"
    and same :: "u64 \<Rightarrow> u64 \<Rightarrow> bool"
    and place :: "u64 \<Rightarrow> u64 \<Rightarrow> u64"
    and inv :: "'s \<Rightarrow> bool"
  assumes same_equiv: "equivp same"
    and map_law: "inv s \<Longrightarrow> \<exists>ok s'. mapp v phys s = Inr (ok, s') \<and> inv s' \<and>
      look s' = (if ok then (\<lambda>w. if same w v then place phys w else look s w) else look s)"
    and unmap_law: "inv s \<Longrightarrow> \<exists>s'. unmap v s = Inr s' \<and> inv s' \<and>
      look s' = (\<lambda>w. if same w v then 0 else look s w)"
begin

lemma map_unmap:
  assumes "inv s" and "mapp v phys s = Inr (True, s1)"
  shows "\<exists>s2. unmap v s1 = Inr s2 \<and> inv s2 \<and> look s2 v = 0 \<and> (\<forall>w. \<not> same w v \<longrightarrow> look s2 w = look s w)"
  using map_law [OF assms(1), of v phys] assms(2) unmap_law [of s1 v] equivp_reflp [OF same_equiv, of v] by auto

lemma map_twice_last_wins:
  assumes "inv s" and "mapp v p s = Inr (True, s1)" and "mapp v q s1 = Inr (True, s2)"
  shows "look s2 = (\<lambda>w. if same w v then place q w else look s w)"
proof -
  from assms(1,2) map_law [of s v p] have s1: "inv s1" "look s1 = (\<lambda>w. if same w v then place p w else look s w)" by auto
  from map_law [OF s1(1), of v q] assms(3) s1(2) show ?thesis by auto
qed

lemma map_commute:
  assumes "inv s" and "\<not> same v v'"
    and "mapp v p s = Inr (True, s1)" and "mapp v' q s1 = Inr (True, s2)"
    and "mapp v' q s = Inr (True, t1)" and "mapp v p t1 = Inr (True, t2)"
  shows "look s2 = look t2"
proof -
  have ns: "\<not> (same w v \<and> same w v')" for w
    using assms(2) equivp_symp [OF same_equiv] equivp_transp [OF same_equiv] by blast
  from assms(1,3,5) map_law [of s v p] map_law [of s v' q] have "inv s1" "inv t1"
    and l: "look s1 = (\<lambda>w. if same w v then place p w else look s w)"
      "look t1 = (\<lambda>w. if same w v' then place q w else look s w)" by auto
  with map_law [of s1 v' q] map_law [of t1 v p] assms(4,6) l ns show ?thesis by (auto simp: fun_eq_iff)
qed

end

text \<open>The unlocked operations on the tables of root \<open>r\<close> provide it.\<close>

lemma same_page_equivp: "equivp same_page"
  by (rule equivpI) (auto simp: reflp_def symp_def transp_def same_page_def)

interpretation vmm: address_space
  "\<lambda>v phys s. vmm_map_unlocked env (vmm_get_table s r) v phys (flags AND NOT VMM_ADDR_MASK) s"
  "\<lambda>v s. vmm_unmap_unlocked (vmm_get_table s r) v s"
  "\<lambda>s. translate (pt_mem s) r" same_page "\<lambda>phys w. (phys AND VMM_ADDR_MASK) + (w AND 0xFFF)"
  "\<lambda>s. vmm_inv s r \<and> env_ok env"
  for env r flags
proof unfold_locales
  show "equivp same_page" by (rule same_page_equivp)
next
  fix s :: "'a vmm_state_scheme" and v phys
  assume inv: "vmm_inv s r \<and> env_ok env"
  have f: "(flags AND NOT VMM_ADDR_MASK) AND VMM_ADDR_MASK = 0" by (simp add: and.assoc)
  from inv vmm_map_unlocked_spec [of s r env, OF _ _ f, of v phys]
  show "\<exists>ok s'. vmm_map_unlocked env (vmm_get_table s r) v phys (flags AND NOT VMM_ADDR_MASK) s = Inr (ok, s')
      \<and> (vmm_inv s' r \<and> env_ok env) \<and> translate (pt_mem s') r =
        (if ok then \<lambda>w. if same_page w v then (phys AND VMM_ADDR_MASK) + (w AND 0xFFF) else translate (pt_mem s) r w
         else translate (pt_mem s) r)"
    unfolding map_view_def by blast
  from inv vmm_unmap_unlocked_spec [of s r v]
  show "\<exists>s'. vmm_unmap_unlocked (vmm_get_table s r) v s = Inr s' \<and> (vmm_inv s' r \<and> env_ok env)
      \<and> translate (pt_mem s') r = (\<lambda>w. if same_page w v then 0 else translate (pt_mem s) r w)"
    unfolding unmap_view_def by blast
qed

end
