(* ===== verification/Vmm_Spaces.thy ===== *)
theory Vmm_Spaces
  imports Vmm_Ops
begin

text \<open>
  The locked interface of \<^verbatim>\<open>vmm.c\<close>: single pages, ranges with their roll-back, separation of address
  spaces, and the creation of a user address space.
\<close>

section \<open>Pages\<close>

text \<open>The number of the page an address is on, within the 48 bits the tables translate.\<close>

definition page_no :: "u64 \<Rightarrow> nat" where
  "page_no v = (unat v div 4096) mod 2 ^ 36"

lemma idx_nat:
  "unat (PT_IDX v) = (unat v div 4096) mod 512"
  "unat (PD_IDX v) = (unat v div 4096 div 512) mod 512"
  "unat (PDPT_IDX v) = (unat v div 4096 div 512 div 512) mod 512"
  "unat (PML4_IDX v) = (unat v div 4096 div 512 div 512 div 512) mod 512"
  by (simp_all add: PT_IDX_def PD_IDX_def PDPT_IDX_def PML4_IDX_def unat_and_511 unat_div
      drop_bit_eq_div div_mult2_eq [symmetric])

lemma mod_mult_512: "(y :: nat) mod (512 * m) = 512 * ((y div 512) mod m) + y mod 512"
  by (rule mod_mult2_eq)

lemma mod_2_36:
  "(x :: nat) mod 2 ^ 36 = 512 * (512 * (512 * ((x div 512 div 512 div 512) mod 512) + (x div 512 div 512) mod 512)
     + (x div 512) mod 512) + x mod 512"
proof -
  have "x mod 2 ^ 36 = x mod (512 * (512 * (512 * 512)))" by simp
  also have "\<dots> = 512 * ((x div 512) mod (512 * (512 * 512))) + x mod 512" by (rule mod_mult_512)
  also have "(x div 512) mod (512 * (512 * 512)) = 512 * ((x div 512 div 512) mod (512 * 512)) + (x div 512) mod 512"
    by (rule mod_mult_512)
  also have "(x div 512 div 512) mod (512 * 512) = 512 * ((x div 512 div 512 div 512) mod 512) + (x div 512 div 512) mod 512"
    by (rule mod_mult_512)
  finally show ?thesis .
qed

lemma digits_eq:
  assumes "512 * x + a mod 512 = 512 * y + (b :: nat) mod 512"
  shows "x = y \<and> a mod 512 = b mod 512"
proof -
  have "(512 * x + a mod 512) div 512 = x" "(512 * x + a mod 512) mod 512 = a mod 512"
    "(512 * y + b mod 512) div 512 = y" "(512 * y + b mod 512) mod 512 = b mod 512" by simp_all
  with assms show ?thesis by metis
qed

lemma same_page_no: "same_page v w \<longleftrightarrow> page_no v = page_no w"
proof
  assume "same_page v w"
  then have "PT_IDX v = PT_IDX w" "PD_IDX v = PD_IDX w" "PDPT_IDX v = PDPT_IDX w" "PML4_IDX v = PML4_IDX w"
    by (simp_all add: same_page_def vpath_def)
  then show "page_no v = page_no w" unfolding page_no_def mod_2_36 by (metis idx_nat)
next
  assume eq: "page_no v = page_no w"
  let ?x = "unat v div 4096" and ?y = "unat w div 4096"
  from eq have *: "512 * (512 * (512 * ((?x div 512 div 512 div 512) mod 512) + (?x div 512 div 512) mod 512)
     + (?x div 512) mod 512) + ?x mod 512 = 512 * (512 * (512 * ((?y div 512 div 512 div 512) mod 512)
     + (?y div 512 div 512) mod 512) + (?y div 512) mod 512) + ?y mod 512"
    unfolding page_no_def mod_2_36 .
  note d1 = digits_eq [OF *]
  note d2 = digits_eq [OF conjunct1 [OF d1]]
  note d3 = digits_eq [OF conjunct1 [OF d2]]
  show "same_page v w"
    using conjunct2 [OF d1] conjunct2 [OF d2] d3 by (simp only: same_page_def vpath_def word_unat_eq_iff idx_nat list.inject)
qed

abbreviation page_at :: "u64 \<Rightarrow> nat \<Rightarrow> u64" where
  "page_at v i \<equiv> v + of_nat i * PAGE_SIZE"

lemma page_no_at:
  assumes "unat v mod 4096 = 0" and "i < 2 ^ 36"
  shows "page_no (page_at v i) = (page_no v + i) mod 2 ^ 36"
proof -
  obtain k where k: "unat v = 4096 * k" using assms(1) by auto
  have "unat (of_nat i :: u64) = i" using assms(2) by (simp add: unat_of_nat)
  then have i: "unat (of_nat i * PAGE_SIZE) = 4096 * i" using assms(2) by (subst unat_mult_no_overflow) simp_all
  have "unat (page_at v i) = (unat v + unat (of_nat i * PAGE_SIZE)) mod 2 ^ LENGTH(64)"
    by (rule unat_word_ariths(1))
  also have "\<dots> = (4096 * (k + i)) mod (4096 * 2 ^ 52)" unfolding i k by (simp add: distrib_left)
  also have "\<dots> = 4096 * ((k + i) mod 2 ^ 52)" by (rule mult_mod_right [symmetric])
  finally have "unat (page_at v i) div 4096 = (k + i) mod 2 ^ 52" by simp
  then have "page_no (page_at v i) = (k + i) mod 2 ^ 52 mod 2 ^ 36" by (simp add: page_no_def)
  also have "\<dots> = (k + i) mod 2 ^ 36" by (rule mod_mod_cancel) simp
  finally show ?thesis by (simp add: page_no_def k mod_add_left_eq)
qed

lemma add_mod_inj:
  assumes "p < m" and "i < m" and "j < m" and "(p + i) mod m = (p + j) mod (m :: nat)"
  shows "i = j"
  using assms by (cases "p + i < m"; cases "p + j < m") (auto simp: le_mod_geq not_less)

lemma page_at_distinct:
  assumes "unat v mod 4096 = 0" and "i < 2 ^ 36" and "j < 2 ^ 36"
  shows "same_page (page_at v i) (page_at v j) \<longleftrightarrow> i = j"
proof
  assume "same_page (page_at v i) (page_at v j)"
  then have eq: "(page_no v + i) mod 2 ^ 36 = (page_no v + j) mod 2 ^ 36"
    using assms by (simp only: same_page_no page_no_at)
  have "page_no v < 2 ^ 36" unfolding page_no_def by (rule mod_less_divisor) simp
  from add_mod_inj [OF this assms(2,3) eq] show "i = j" .
qed (simp add: same_page_def)

section \<open>Ranges\<close>

text \<open>
  The view of an address space after the pages \<open>0 .. n - 1\<close> of a range were mapped, and after the first
  \<open>n\<close> were unmapped.
\<close>

fun map_range_view :: "u64 \<Rightarrow> u64 \<Rightarrow> nat \<Rightarrow> (u64 \<Rightarrow> u64) \<Rightarrow> u64 \<Rightarrow> u64" where
  "map_range_view v phys 0 f = f"
| "map_range_view v phys (Suc n) f = map_view (page_at v n) (page_at phys n) (map_range_view v phys n f)"

definition on_pages :: "u64 \<Rightarrow> nat \<Rightarrow> u64 \<Rightarrow> bool" where
  "on_pages v n w \<longleftrightarrow> (\<exists>i<n. same_page w (page_at v i))"

definition unmap_range_view :: "u64 \<Rightarrow> nat \<Rightarrow> (u64 \<Rightarrow> u64) \<Rightarrow> u64 \<Rightarrow> u64" where
  "unmap_range_view v n f = (\<lambda>w. if on_pages v n w then 0 else f w)"

lemma on_pages_Suc: "on_pages v (Suc n) w \<longleftrightarrow> on_pages v n w \<or> same_page w (page_at v n)"
  by (auto simp: on_pages_def less_Suc_eq)

lemma unmap_range_view_Suc:
  "unmap_view (page_at v n) (unmap_range_view v n f) = unmap_range_view v (Suc n) f"
  by (auto simp: unmap_view_def unmap_range_view_def on_pages_Suc fun_eq_iff)

lemma map_range_view_outside: "\<not> on_pages v n w \<Longrightarrow> map_range_view v phys n f w = f w"
  by (induction n) (auto simp: on_pages_Suc map_view_def)

lemma map_range_view_inside:
  assumes "unat v mod 4096 = 0" and "n \<le> 2 ^ 36" and "i < n" and "same_page w (page_at v i)"
  shows "map_range_view v phys n f w = (page_at phys i AND VMM_ADDR_MASK) + (w AND 0xFFF)"
  using assms(2,3)
proof (induction n)
  case (Suc n)
  show ?case
  proof (cases "i = n")
    case False
    then have "i < n" "n < 2 ^ 36" "i < 2 ^ 36" using Suc.prems by simp_all
    then have "\<not> same_page (page_at v i) (page_at v n)" using page_at_distinct [OF assms(1)] False by blast
    then have "\<not> same_page w (page_at v n)" using assms(4) by (simp add: same_page_def)
    with Suc \<open>i < n\<close> show ?thesis by (simp add: map_view_def)
  qed (use assms(4) in \<open>simp add: map_view_def\<close>)
qed simp

lemma unmap_after_map_range: "unmap_range_view v n (map_range_view v phys n f) = unmap_range_view v n f"
  by (auto simp: unmap_range_view_def map_range_view_outside)

lemma of_nat_unat_u64: "of_nat (unat i) = (i :: u64)"
  by simp

lemma vmm_unmap_pages_spec:
  assumes "vmm_inv s r" and "i \<le> n"
    and "translate (pt_mem s) r = unmap_range_view v (unat i) f"
  shows "\<exists>s'. vmm_unmap_pages (vmm_get_table s r) v n i s = Inr s' \<and> vmm_inv s' r \<and> vmm_frame s s'
    \<and> translate (pt_mem s') r = unmap_range_view v (unat n) f"
  using assms
proof (induction "unat n - unat i" arbitrary: i s)
  case 0
  then have "i = n" by (simp add: word_le_nat_alt word_unat_eq_iff)
  with 0 show ?case by (simp add: vmm_unmap_pages.simps [of _ _ n n])
next
  case (Suc d)
  then have i: "i < n" by (simp add: word_less_nat_alt)
  from vmm_unmap_unlocked_spec [OF Suc.prems(1), of "page_at v (unat i)"] obtain s1 where
    s1: "vmm_unmap_unlocked (vmm_get_table s r) (page_at v (unat i)) s = Inr s1" "vmm_inv s1 r" "vmm_frame s s1"
      "translate (pt_mem s1) r = unmap_view (page_at v (unat i)) (translate (pt_mem s) r)" by blast
  have t: "translate (pt_mem s1) r = unmap_range_view v (unat (i + 1)) f"
    unfolding s1(4) Suc.prems(3) word_step_Suc [OF i] by (rule unmap_range_view_Suc)
  have "d = unat n - unat (i + 1)" "i + 1 \<le> n"
    using Suc.hyps(2) i word_step_Suc [OF i] by (simp_all add: word_le_nat_alt word_less_nat_alt)
  from Suc.hyps(1) [OF this(1) s1(2) this(2) t] obtain s' where
    s': "vmm_unmap_pages (vmm_get_table s1 r) v n (i + 1) s1 = Inr s'" "vmm_inv s' r" "vmm_frame s1 s'"
      "translate (pt_mem s') r = unmap_range_view v (unat n) f" by blast
  have "vmm_get_table s1 r = vmm_get_table s r" using s1(3) by (simp add: vmm_frame_def vmm_get_table_def)
  then have "vmm_unmap_pages (vmm_get_table s r) v n i s = Inr s'"
    using i s1(1) s'(1) by (simp add: vmm_unmap_pages.simps [of _ _ n i])
  with s' vmm_frame_trans [OF s1(3) s'(3)] show ?case by blast
qed

lemma unat_page_count:
  assumes "unat (i :: u64) < 2 ^ 52"
  shows "unat ((i * PAGE_SIZE + PAGE_SIZE - 1) div PAGE_SIZE) = unat i"
proof -
  have a: "unat (i * PAGE_SIZE) = unat i * 4096" using assms by (subst unat_mult_no_overflow) simp_all
  moreover have "i * PAGE_SIZE + PAGE_SIZE - 1 = i * PAGE_SIZE + 4095" by simp
  moreover have "unat i * 4096 + 4095 < 2 ^ 64" using assms by simp
  ultimately have "unat (i * PAGE_SIZE + PAGE_SIZE - 1) = unat i * 4096 + 4095" by (simp add: unat_add_no_overflow)
  then show ?thesis by (simp add: unat_div)
qed

lemma vmm_rollback:
  assumes inv: "vmm_inv s r" and t: "translate (pt_mem s) r = map_range_view v phys (unat i) f"
    and i: "unat i < 2 ^ 52"
  shows "\<exists>s'. (if i > 0 then vmm_unmap_range_unlocked (vmm_get_table s r) v (i * PAGE_SIZE) s else Inr s) = Inr s'
    \<and> vmm_inv s' r \<and> vmm_frame s s' \<and> translate (pt_mem s') r = unmap_range_view v (unat i) f"
proof (cases "i = 0")
  case True
  then have "translate (pt_mem s) r = unmap_range_view v (unat i) f"
    using t by (simp add: unmap_range_view_def on_pages_def)
  with True inv show ?thesis by simp
next
  case False
  let ?m = "(i * PAGE_SIZE + PAGE_SIZE - 1) div PAGE_SIZE"
  have m: "unat ?m = unat i" by (rule unat_page_count [OF i])
  have "translate (pt_mem s) r = unmap_range_view v (unat (0 :: u64)) (map_range_view v phys (unat i) f)"
    using t by (simp add: unmap_range_view_def on_pages_def)
  from vmm_unmap_pages_spec [OF inv _ this, of ?m, unfolded m unmap_after_map_range] False
  show ?thesis by (simp add: vmm_unmap_range_unlocked_def word_gt_0)
qed

text \<open>
  The loop of \<^verbatim>\<open>_vmm_map_range_unlocked\<close> from page \<open>i\<close> on: it maps all pages, or unmaps those it had mapped.
\<close>

lemma vmm_map_pages_spec:
  assumes "vmm_inv s r" and "env_ok env" and "flags AND VMM_ADDR_MASK = 0" and "i \<le> n" and "unat n < 2 ^ 52"
    and "translate (pt_mem s) r = map_range_view v phys (unat i) f"
  shows "\<exists>ok s'. vmm_map_pages env (vmm_get_table s r) v phys flags n i s = Inr (ok, s') \<and> vmm_inv s' r \<and> vmm_frame s s'
    \<and> (if ok then translate (pt_mem s') r = map_range_view v phys (unat n) f
       else \<exists>k<unat n. translate (pt_mem s') r = unmap_range_view v k f)"
  using assms
proof (induction "unat n - unat i" arbitrary: i s)
  case 0
  then have "i = n" by (simp add: word_le_nat_alt word_unat_eq_iff)
  with 0 show ?case by (intro exI [of _ True] exI [of _ s]) (simp add: vmm_map_pages.simps [of _ _ _ _ _ n n])
next
  case (Suc d)
  then have i: "i < n" and ni: "unat i < unat n" by (simp_all add: word_less_nat_alt)
  from vmm_map_unlocked_spec [OF Suc.prems(1-3), of "page_at v (unat i)" "page_at phys (unat i)"]
  obtain ok s1 where s1: "vmm_map_unlocked env (vmm_get_table s r) (page_at v (unat i)) (page_at phys (unat i)) flags s
      = Inr (ok, s1)" "vmm_inv s1 r" "vmm_frame s s1" and t1: "translate (pt_mem s1) r =
      (if ok then map_view (page_at v (unat i)) (page_at phys (unat i)) (translate (pt_mem s) r) else translate (pt_mem s) r)"
    by blast
  have tab: "vmm_get_table s1 r = vmm_get_table s r" using s1(3) by (simp add: vmm_frame_def vmm_get_table_def)
  note step = vmm_map_pages.simps [of env "vmm_get_table s r" v phys flags n i s] and s1' = s1(1) [unfolded of_nat_unat_u64]
  show ?case
  proof (cases ok)
    case True
    have t: "translate (pt_mem s1) r = map_range_view v phys (unat (i + 1)) f"
      unfolding t1 Suc.prems(6) word_step_Suc [OF i] using True by simp
    have "d = unat n - unat (i + 1)" "i + 1 \<le> n"
      using Suc.hyps(2) i word_step_Suc [OF i] by (simp_all add: word_le_nat_alt word_less_nat_alt)
    from Suc.hyps(1) [OF this(1) s1(2) Suc.prems(2,3) this(2) Suc.prems(5) t] obtain ok' s' where
      s': "vmm_map_pages env (vmm_get_table s1 r) v phys flags n (i + 1) s1 = Inr (ok', s')" "vmm_inv s' r"
        "vmm_frame s1 s'" "if ok' then translate (pt_mem s') r = map_range_view v phys (unat n) f
          else \<exists>k<unat n. translate (pt_mem s') r = unmap_range_view v k f" by blast
    have "vmm_map_pages env (vmm_get_table s r) v phys flags n i s = Inr (ok', s')"
      unfolding step using i s1' s'(1) True tab by simp
    with s' vmm_frame_trans [OF s1(3) s'(3)] show ?thesis by blast
  next
    case False
    then have t: "translate (pt_mem s1) r = map_range_view v phys (unat i) f" using t1 Suc.prems(6) by simp
    have "unat i < 2 ^ 52" using ni Suc.prems(5) by simp
    from vmm_rollback [OF s1(2) t this] obtain s2 where
      s2: "(if i > 0 then vmm_unmap_range_unlocked (vmm_get_table s1 r) v (i * PAGE_SIZE) s1 else Inr s1) = Inr s2"
        "vmm_inv s2 r" "vmm_frame s1 s2" "translate (pt_mem s2) r = unmap_range_view v (unat i) f" by blast
    have "vmm_map_pages env (vmm_get_table s r) v phys flags n i s = Inr (False, s2)"
      unfolding step using i s1' False s2(1) [unfolded tab] by (auto split: if_splits)
    with s2 vmm_frame_trans [OF s1(3) s2(3)] ni show ?thesis
      by (intro exI [of _ False] exI [of _ s2]) auto
  qed
qed

section \<open>The locked operations\<close>

text \<open>The locked operations run on an intact tree with the lock free.\<close>

definition vmm_ready :: "cpu_env \<Rightarrow> 'a vmm_state_scheme \<Rightarrow> u64 \<Rightarrow> bool" where
  "vmm_ready env s r \<longleftrightarrow> vmm_inv s r \<and> env_ok env \<and> lock_idle (vmm_lock s)"

lemma vmm_ready_lock: "vmm_ready env s r \<Longrightarrow> lock_free env (vmm_lock s)"
  by (simp add: vmm_ready_def lock_idle_free)

lemma vmm_ready_locked:
  assumes "vmm_ready env s r"
  shows "vmm_inv (s\<lparr>vmm_lock := l\<rparr>) r" and "env_ok env"
    and "lock_idle (spin_unlock env (spin_locked env (vmm_lock s)))"
    and "translate (pt_mem s) r v = x \<Longrightarrow> vmm_virtual_to_physical s (vmm_get_table s r) v = Inr x"
  using assms vmm_virtual_to_physical_eq [of s r v] by (simp_all add: vmm_ready_def vmm_inv_def [of s])

text \<open>What \<^verbatim>\<open>vmm_virtual_to_physical\<close> returns for \<open>w\<close> in the address space of root \<open>r\<close>.\<close>

abbreviation v2p :: "'a vmm_state_scheme \<Rightarrow> u64 \<Rightarrow> u64 \<Rightarrow> u64 res" where
  "v2p s r w \<equiv> vmm_virtual_to_physical s (vmm_get_table s r) w"

lemma v2p_eq: "vmm_inv s r \<Longrightarrow> v2p s r w = Inr (translate (pt_mem s) r w)"
  by (simp add: vmm_virtual_to_physical_eq vmm_inv_def)

text \<open>
  C4. \<^verbatim>\<open>vmm_map\<close> on an intact tree either fails for lack of frames, then it panics for a kernel address and changes no
  translation for a user address; or from then on \<^verbatim>\<open>vmm_virtual_to_physical\<close> sends every address of the
  page to the frame with the offset kept, every other page is translated as before,
  and the page was invalidated in the TLB. The tree stays intact and the lock is released.
\<close>

theorem vmm_map_correct:
  assumes ready: "vmm_ready env s r" and flags: "flags AND VMM_ADDR_MASK = 0"
  shows "(vmm_map env (vmm_get_table s r) virt phys flags s = Inl (KPanic map_failed_msg) \<and> virt \<ge> HHDM_OFFSET)
    \<or> (\<exists>s'. vmm_map env (vmm_get_table s r) virt phys flags s = Inr s' \<and> vmm_ready env s' r
        \<and> ((virt < HHDM_OFFSET \<and> (\<forall>w. v2p s' r w = v2p s r w))
           \<or> (last (hw_log s') = Invlpg virt
              \<and> (\<forall>w. v2p s' r w = (if same_page w virt then Inr ((phys AND VMM_ADDR_MASK) + (w AND 0xFFF)) else v2p s r w)))))"
proof -
  let ?s0 = "s\<lparr>vmm_lock := spin_locked env (vmm_lock s)\<rparr>"
  note inv0 = vmm_ready_locked(1) [OF ready, of "spin_locked env (vmm_lock s)"] and env = vmm_ready_locked(2) [OF ready]
  from vmm_map_unlocked_spec [OF inv0 env flags, of virt phys] obtain ok s1 where
    s1: "vmm_map_unlocked env (vmm_get_table s r) virt phys flags ?s0 = Inr (ok, s1)" "vmm_inv s1 r" "vmm_frame ?s0 s1"
      "translate (pt_mem s1) r = (if ok then map_view virt phys (translate (pt_mem s) r) else translate (pt_mem s) r)"
      "hw_log s1 = hw_log s @ (if ok then [Invlpg virt] else [])"
    by auto
  let ?s2 = "s1\<lparr>vmm_lock := spin_unlock env (vmm_lock s1)\<rparr>"
  have m: "vmm_map env (vmm_get_table s r) virt phys flags s =
      (if \<not> ok \<and> virt \<ge> HHDM_OFFSET then Inl (KPanic map_failed_msg) else Inr ?s2)"
    using s1(1) by (simp add: vmm_map_def spin_lock_free [OF vmm_ready_lock [OF ready]] Let_def)
  have "vmm_lock s1 = spin_locked env (vmm_lock s)" using s1(3) by (simp add: vmm_frame_def)
  then have ready2: "vmm_ready env ?s2 r" using s1(2) env vmm_ready_locked(3) [OF ready] by (simp add: vmm_ready_def)
  have inv: "vmm_inv s r" using ready by (simp add: vmm_ready_def)
  have v: "v2p ?s2 r w = Inr (translate (pt_mem s1) r w)" "v2p s r w = Inr (translate (pt_mem s) r w)" for w
    using v2p_eq [of ?s2 r w] v2p_eq [OF inv] s1(2) by simp_all
  show ?thesis
  proof (cases "ok \<or> virt < HHDM_OFFSET")
    case True
    then have "vmm_map env (vmm_get_table s r) virt phys flags s = Inr ?s2" using m by auto
    moreover have "(virt < HHDM_OFFSET \<and> (\<forall>w. v2p ?s2 r w = v2p s r w))
       \<or> (last (hw_log ?s2) = Invlpg virt
          \<and> (\<forall>w. v2p ?s2 r w = (if same_page w virt then Inr ((phys AND VMM_ADDR_MASK) + (w AND 0xFFF)) else v2p s r w)))"
      unfolding v using True s1(4,5) by (cases ok) (simp_all add: map_view_def)
    ultimately show ?thesis using ready2 by blast
  qed (use m in auto)
qed


lemma page_count:
  assumes "unat (sz :: u64) \<le> 2 ^ 48"
  shows "unat ((sz + PAGE_SIZE - 1) div PAGE_SIZE) = (unat sz + 4095) div 4096"
    and "(unat sz + 4095) div 4096 \<le> 2 ^ 36"
proof -
  have "sz + PAGE_SIZE - 1 = sz + 4095" by simp
  moreover have "unat (sz + 4095) = unat sz + 4095" using assms by (simp add: unat_add_no_overflow)
  ultimately have "unat (sz + PAGE_SIZE - 1) = unat sz + 4095" by (simp only:)
  then show "unat ((sz + PAGE_SIZE - 1) div PAGE_SIZE) = (unat sz + 4095) div 4096" by (simp add: unat_div)
  have "(unat sz + 4095) div 4096 \<le> (2 ^ 48 + 4095) div 4096" using assms by (intro div_le_mono) simp
  then show "(unat sz + 4095) div 4096 \<le> 2 ^ 36" by simp
qed

text \<open>
  C11. \<^verbatim>\<open>vmm_map_range\<close> is all or nothing: it maps every page of the range to the corresponding frame and leaves
  every other page as it was; or, when frames run out, it panics for a kernel range, and for a user
  range it leaves the first \<open>k\<close> pages (the ones it had mapped) unmapped and all others as they were.
\<close>

theorem vmm_map_range_correct:
  assumes ready: "vmm_ready env s r" and flags: "flags AND VMM_ADDR_MASK = 0"
    and virt: "unat virt mod 4096 = 0" and sz: "unat sz \<le> 2 ^ 48"
  defines "n \<equiv> (unat sz + 4095) div 4096"
  shows "(vmm_map_range env (vmm_get_table s r) virt phys sz flags s = Inl (KPanic map_failed_msg) \<and> virt \<ge> HHDM_OFFSET)
    \<or> (\<exists>s'. vmm_map_range env (vmm_get_table s r) virt phys sz flags s = Inr s' \<and> vmm_ready env s' r \<and>
        ((\<forall>i<n. \<forall>w. same_page w (page_at virt i) \<longrightarrow>
              v2p s' r w = Inr ((page_at phys i AND VMM_ADDR_MASK) + (w AND 0xFFF)))
           \<and> (\<forall>w. \<not> on_pages virt n w \<longrightarrow> v2p s' r w = v2p s r w)
         \<or> virt < HHDM_OFFSET \<and> (\<exists>k<n. \<forall>w. v2p s' r w = (if on_pages virt k w then Inr 0 else v2p s r w))))"
proof -
  let ?s0 = "s\<lparr>vmm_lock := spin_locked env (vmm_lock s)\<rparr>"
  define N where "N = (sz + PAGE_SIZE - 1) div PAGE_SIZE"
  note inv0 = vmm_ready_locked(1) [OF ready, of "spin_locked env (vmm_lock s)"] and env = vmm_ready_locked(2) [OF ready]
  note N = page_count [OF sz, folded n_def N_def]
  have "translate (pt_mem ?s0) r = map_range_view virt phys (unat (0 :: u64)) (translate (pt_mem s) r)" by simp
  from vmm_map_pages_spec [OF inv0 env flags _ _ this, of N, unfolded N(1)] N(2) obtain ok s1 where
    s1: "vmm_map_pages env (vmm_get_table s r) virt phys flags N 0 ?s0 = Inr (ok, s1)" "vmm_inv s1 r" "vmm_frame ?s0 s1"
      "if ok then translate (pt_mem s1) r = map_range_view virt phys n (translate (pt_mem s) r)
       else \<exists>k<n. translate (pt_mem s1) r = unmap_range_view virt k (translate (pt_mem s) r)"
    by auto
  let ?s2 = "s1\<lparr>vmm_lock := spin_unlock env (vmm_lock s1)\<rparr>"
  have m: "vmm_map_range env (vmm_get_table s r) virt phys sz flags s =
      (if \<not> ok \<and> virt \<ge> HHDM_OFFSET then Inl (KPanic map_failed_msg) else Inr ?s2)"
    unfolding vmm_map_range_def vmm_map_range_unlocked_def N_def [symmetric]
      spin_lock_free [OF vmm_ready_lock [OF ready]] using s1(1) by (simp add: Let_def)
  have "vmm_lock s1 = spin_locked env (vmm_lock s)" using s1(3) by (simp add: vmm_frame_def)
  then have ready2: "vmm_ready env ?s2 r" using s1(2) env vmm_ready_locked(3) [OF ready] by (simp add: vmm_ready_def)
  have inv: "vmm_inv s r" using ready by (simp add: vmm_ready_def)
  have v: "v2p ?s2 r w = Inr (translate (pt_mem s1) r w)" "v2p s r w = Inr (translate (pt_mem s) r w)" for w
    using v2p_eq [of ?s2 r w] v2p_eq [OF inv] s1(2) by simp_all
  show ?thesis
  proof (cases ok)
    case True
    have "\<forall>i<n. \<forall>w. same_page w (page_at virt i) \<longrightarrow> v2p ?s2 r w = Inr ((page_at phys i AND VMM_ADDR_MASK) + (w AND 0xFFF))"
      unfolding v using s1(4) True map_range_view_inside [OF virt N(2)] by simp
    moreover have "\<forall>w. \<not> on_pages virt n w \<longrightarrow> v2p ?s2 r w = v2p s r w"
      unfolding v using s1(4) True by (simp add: map_range_view_outside)
    moreover have "vmm_map_range env (vmm_get_table s r) virt phys sz flags s = Inr ?s2" using m True by simp
    ultimately show ?thesis using ready2 by blast
  next
    case False
    then obtain k where k: "k < n" "translate (pt_mem s1) r = unmap_range_view virt k (translate (pt_mem s) r)"
      using s1(4) by auto
    then have "\<forall>w. v2p ?s2 r w = (if on_pages virt k w then Inr 0 else v2p s r w)"
      unfolding v by (simp add: unmap_range_view_def)
    with m False ready2 k(1) show ?thesis by (cases "virt \<ge> HHDM_OFFSET") (auto simp: not_le)
  qed
qed

text \<open>
  C13. Address spaces are separate: mapping a page in one address space changes no translation of another one,
  and keeps its tree intact, as long as the tables on the way to the page belong to the first alone.
\<close>

theorem vmm_map_isolated:
  assumes inv: "vmm_inv s r" and env: "env_ok env" and flags: "flags AND VMM_ADDR_MASK = 0"
    and other: "vmm_inv s r'" and apart: "walk_frames (pt_mem s) r virt \<inter> table_frames (pt_mem s) r' = {}"
  shows "\<exists>ok s'. vmm_map_unlocked env (vmm_get_table s r) virt phys flags s = Inr (ok, s')
    \<and> vmm_inv s' r' \<and> (\<forall>w. v2p s' r' w = v2p s r' w)"
proof -
  from vmm_map_unlocked_spec [OF inv env flags, of virt phys] obtain ok s' where
    s': "vmm_map_unlocked env (vmm_get_table s r) virt phys flags s = Inr (ok, s')" "vmm_inv s' r"
      "writes_walk r virt s s'" by blast
  have tree: "pt_tree (pt_mem s) r'" and dis: "table_frames (pt_mem s) r' \<inter> free_frames s = {}"
    using other by (simp_all add: vmm_inv_def)
  have agree: "pt_mem s' a = pt_mem s a" if "frame_of a \<in> table_frames (pt_mem s) r'" for a
    using s'(3) that apart dis unfolding writes_walk_def by blast
  note a = agree_tree [OF tree, of "pt_mem s'", OF agree]
  have "vmm_inv s' r'"
    using s'(2,3) a(1,3) dis by (auto simp: vmm_inv_def writes_walk_def)
  with s'(1) v2p_eq [OF this] v2p_eq [OF other] a(2) show ?thesis by auto
qed

section \<open>Creating a user address space\<close>

text \<open>The new root \<open>p\<close> shares the upper half of the kernel's root \<open>k\<close> and has an empty lower half.\<close>

definition user_copy :: "(u64 \<Rightarrow> u64) \<Rightarrow> u64 \<Rightarrow> u64 \<Rightarrow> (u64 \<Rightarrow> u64) \<Rightarrow> bool" where
  "user_copy M k p M' \<longleftrightarrow> pt_tree M k \<and> table_ok p \<and> frame_of p \<notin> table_frames M k
     \<and> (\<forall>a. frame_of a \<noteq> frame_of p \<longrightarrow> M' a = M a)
     \<and> (\<forall>i. pt_index i \<longrightarrow> M' (entry_addr p i) = (if 256 \<le> i then M (entry_addr k i) else 0))"

lemma user_copy_kernel:
  assumes c: "user_copy M k p M'"
  shows "frame_of a \<in> table_frames M k \<Longrightarrow> M' a = M a" and "pt_tree M' k"
    and "translate M' k v = translate M k v" and "table_frames M' k = table_frames M k"
    and "table_path q \<Longrightarrow> tbl M' k q = tbl M k q"
proof -
  have tree: "pt_tree M k" using c by (simp add: user_copy_def)
  have agree: "M' a = M a" if "frame_of a \<in> table_frames M k" for a
    using c that unfolding user_copy_def by metis
  then show "frame_of a \<in> table_frames M k \<Longrightarrow> M' a = M a" .
  note at = agree_tree [OF tree, of M', OF agree]
  show "pt_tree M' k" "translate M' k v = translate M k v" "table_frames M' k = table_frames M k" by (rule at, assumption)+
  show "tbl M' k q = tbl M k q" if "table_path q" by (rule agree_tbl [OF tree agree that])
qed

lemma user_copy_tbl:
  assumes c: "user_copy M k p M'" and q: "table_path (i # q)"
  shows "tbl M' p (i # q) = (if 256 \<le> i then tbl M k (i # q) else None)"
proof -
  have i: "pt_index i" using q by (simp add: table_path_def)
  have tree: "pt_tree M k" using c by (simp add: user_copy_def)
  have "frame_of (entry_addr k i) \<in> table_frames M k"
    using frame_of_entry [OF pt_tree_root [OF tree] i] table_framesI [of "[]" M k k] by simp
  then have "M' (entry_addr k i) = M (entry_addr k i)" by (rule user_copy_kernel(1) [OF c])
  moreover have "M' (entry_addr p i) = (if 256 \<le> i then M (entry_addr k i) else 0)" using c i by (simp add: user_copy_def)
  moreover have "tbl M' k (i # q) = tbl M k (i # q)" by (rule user_copy_kernel(5) [OF c q])
  ultimately show ?thesis by (auto simp: tbl.simps(2) pte_present_def)
qed

lemma user_copy_tree:
  assumes c: "user_copy M k p M'"
  shows "pt_tree M' p" and "table_frames M' p \<subseteq> insert (frame_of p) (table_frames M k)"
    and "translate M' p w = (if 256 \<le> PML4_IDX w then translate M k w else 0)"
proof -
  have tree: "pt_tree M k" and pok: "table_ok p" and fresh: "frame_of p \<notin> table_frames M k"
    using c by (simp_all add: user_copy_def)
  have kt: "q \<noteq> [] \<and> tbl M k q = Some t" if "table_path q" "tbl M' p q = Some t" "t \<noteq> p" for q t
    using that user_copy_tbl [OF c] by (cases q) (auto split: if_splits)
  have pp: "q = []" if "table_path q" "tbl M' p q = Some p" for q
    using that user_copy_tbl [OF c] fresh table_framesI [of q M k p] by (cases q) (auto split: if_splits)
  have ok: "table_ok t" if "table_path q" "tbl M' p q = Some t" for q t
    using kt [OF that] pok pt_treeD(1) [OF tree that(1)] by (cases "t = p") auto
  have inj: "q = q'" if "table_path q" "table_path q'" "tbl M' p q = Some t" "tbl M' p q' = Some t" for q q' t
    using kt [OF that(1,3)] kt [OF that(2,4)] pp that pt_treeD(2) [OF tree that(1,2)] by (cases "t = p") auto
  have huge: "M' (entry_addr t i) AND PTE_HUGE = 0"
    if "table_path q" "length q = 2" "pt_index i" "tbl M' p q = Some t" for q t i
  proof -
    have "t \<noteq> p" using pp [OF that(1)] that(2,4) by auto
    then have t: "tbl M k q = Some t" using kt [OF that(1,4)] by simp
    with pt_treeD(3) [OF tree that(1-3) t] user_copy_kernel(1) [OF c, of "entry_addr t i"]
      frame_of_entry [OF pt_treeD(1) [OF tree that(1) t] that(3)] table_framesI [OF that(1) t]
    show ?thesis by simp
  qed
  show "pt_tree M' p" unfolding pt_tree_def using ok inj huge by blast
  show "table_frames M' p \<subseteq> insert (frame_of p) (table_frames M k)"
  proof
    fix x assume "x \<in> table_frames M' p"
    then obtain q t where x: "x = frame_of t" "table_path q" "tbl M' p q = Some t" by (auto simp: table_frames_def)
    with kt [OF x(2,3)] table_framesI [of q M k t] show "x \<in> insert (frame_of p) (table_frames M k)"
      by (cases "t = p") auto
  qed
  have e: "M' (entry_addr t (PT_IDX w)) = M (entry_addr t (PT_IDX w))" if "tbl M k (vpath w) = Some t" for t
    using user_copy_kernel(1) [OF c] frame_of_entry [OF pt_treeD(1) [OF tree table_path_simps(2) that] idx_bound(4)]
      table_framesI [OF table_path_simps(2) that] by simp
  have "tbl M' p (vpath w) = (if 256 \<le> PML4_IDX w then tbl M k (vpath w) else None)"
    using user_copy_tbl [OF c, of "PML4_IDX w" "[PDPT_IDX w, PD_IDX w]"] table_path_simps(2) [of w] by (simp add: vpath_def)
  then show "translate M' p w = (if 256 \<le> PML4_IDX w then translate M k w else 0)"
    using e by (simp add: translate_def split: option.split)
qed

text \<open>The copying loop.\<close>

definition copied :: "(u64 \<Rightarrow> u64) \<Rightarrow> u64 \<Rightarrow> u64 \<Rightarrow> nat \<Rightarrow> (u64 \<Rightarrow> u64) \<Rightarrow> bool" where
  "copied M k p j M' \<longleftrightarrow> (\<forall>a. frame_of a \<noteq> frame_of p \<longrightarrow> M' a = M a)
     \<and> (\<forall>i. pt_index i \<longrightarrow>
           M' (entry_addr p i) = (if 256 \<le> unat i \<and> unat i < 256 + j then M (entry_addr k i) else 0))"

lemma copied_step:
  assumes c: "copied M k p j M'" and ok: "table_ok p" "table_ok k" "frame_of k \<noteq> frame_of p" and j: "j < 256"
  defines "i \<equiv> of_nat (256 + j) :: u64"
  shows "copied M k p (Suc j) (M'(entry_addr p i := M' (entry_addr k i)))"
proof -
  have u: "unat i = 256 + j" using j unfolding i_def unat_of_nat by simp
  then have i: "pt_index i" using j by (simp add: pt_index_def word_less_nat_alt)
  have k: "M' (entry_addr k i) = M (entry_addr k i)"
    using c frame_of_entry [OF ok(2) i] ok(3) by (simp add: copied_def)
  have fp: "frame_of (entry_addr p i) = frame_of p" by (rule frame_of_entry [OF ok(1) i])
  let ?M = "M'(entry_addr p i := M' (entry_addr k i))"
  have out: "?M a = M a" if "frame_of a \<noteq> frame_of p" for a
  proof -
    have "a \<noteq> entry_addr p i" using that fp by auto
    then show ?thesis using c that by (simp add: copied_def)
  qed
  have ins: "?M (entry_addr p i') = (if 256 \<le> unat i' \<and> unat i' < 256 + Suc j then M (entry_addr k i') else 0)"
    if i': "pt_index i'" for i'
  proof (cases "i' = i")
    case True
    then show ?thesis using k u by simp
  next
    case False
    then have "unat i' \<noteq> 256 + j" using u by (simp add: word_unat_eq_iff)
    moreover have "?M (entry_addr p i') = M' (entry_addr p i')"
      using entry_addr_inj [OF ok(1,1) i' i] False by simp
    ultimately show ?thesis using c i' by (simp add: copied_def less_Suc_eq)
  qed
  show ?thesis unfolding copied_def using out ins by blast
qed

lemma indices_nth: "j < hi - lo \<Longrightarrow> indices lo hi ! j = of_nat (lo + j)"
  by (simp add: indices_def)

lemma length_indices: "length (indices lo hi) = hi - lo"
  by (simp add: indices_def)

lemma user_copy_loop:
  fixes s2 :: "'a vmm_state_scheme"
  assumes ok: "table_ok p" "table_ok k" "frame_of k \<noteq> frame_of p" and kp: "kernel_pml4 s2 = vmm_get_table s2 k"
    and z: "copied M k p 0 (pt_mem s2)"
  shows "\<exists>M'. for_each (\<lambda>i t. bind_res (pt_read t (kernel_pml4 t) i) (\<lambda>e. pt_write (vmm_get_table s2 p) i e t))
      (indices 256 512) s2 = Inr (s2\<lparr>pt_mem := M'\<rparr>) \<and> copied M k p 256 M'"
proof -
  let ?f = "\<lambda>i t. bind_res (pt_read t (kernel_pml4 t) i) (\<lambda>e. pt_write (vmm_get_table s2 p) i e t)"
  let ?I = "\<lambda>j t. \<exists>M'. t = s2\<lparr>pt_mem := M'\<rparr> \<and> copied M k p j M'"
  have "\<exists>s'. for_each ?f (indices 256 512) s2 = Inr s' \<and> ?I (length (indices 256 512)) s'"
  proof (rule for_each_inv)
    fix j and t :: "'a vmm_state_scheme" assume j: "j < length (indices 256 512)" and "?I j t"
    then obtain M' where t: "t = s2\<lparr>pt_mem := M'\<rparr>" and c: "copied M k p j M'" by blast
    have j: "j < 256" using j by (simp add: length_indices)
    then have i: "indices 256 512 ! j = of_nat (256 + j)" by (intro indices_nth) simp
    have kt: "kernel_pml4 t = vmm_get_table t k" "kernel_pml4 t = kernel_pml4 s2"
      using kp by (simp_all add: t)
    have "?f (of_nat (256 + j)) t = Inr (s2\<lparr>pt_mem := M'(entry_addr p (of_nat (256 + j)) := M' (entry_addr k (of_nat (256 + j))))\<rparr>)"
      using pt_read_table [OF ok(2), of t t] pt_write_table [OF ok(1) kt(2)] unfolding kt(1) by (simp add: t)
    with copied_step [OF c ok j] show "\<exists>s'. ?f (indices 256 512 ! j) t = Inr s' \<and> ?I (Suc j) s'"
      unfolding i by blast
  next
    show "?I 0 s2" using z by (intro exI [of _ "pt_mem s2"]) simp
  qed
  then show ?thesis by (auto simp: length_indices)
qed

text \<open>
  C12. \<^verbatim>\<open>vmm_create_user_pml4\<close> returns 0 without changing any table, or a new root whose kernel half
  translates exactly as the kernel's tables do and whose user half is empty. Both trees are
  intact, the kernel's translation is unchanged, and the root is a frame that was free.
\<close>

theorem vmm_create_user_pml4_correct:
  assumes inv: "vmm_inv s k" and env: "env_ok env" and kp: "kernel_pml4 s = vmm_get_table s k"
  shows "\<exists>p s'. vmm_create_user_pml4 env s = Inr (p, s') \<and> vmm_inv s' k \<and> (\<forall>w. v2p s' k w = v2p s k w)
    \<and> (p = 0 \<or> (frame_of p \<in> free_frames s \<and> frame_of p \<notin> free_frames s' \<and> vmm_inv s' p
         \<and> (\<forall>w. v2p s' p w = (if PML4_IDX w < 256 then Inr 0 else v2p s k w))))"
proof -
  have ok: "pmm_ok s" and tree: "pt_tree (pt_mem s) k" and dis: "table_frames (pt_mem s) k \<inter> free_frames s = {}"
    using inv by (simp_all add: vmm_inv_def)
  from vmm_alloc [OF ok env] obtain p s1 where s1: "pmm_alloc_frame env s = Inr (p, s1)" "pmm_ok s1"
    "length (bitmap s1) = length (bitmap s)" "pmm_state.more s1 = pmm_state.more s"
    and c: "p = 0 \<and> free_frames s1 = free_frames s \<or>
      (\<exists>n\<in>free_frames s. p = addr_of_frame n \<and> p \<noteq> 0 \<and> free_frames s1 = free_frames s - {n})" by blast
  note more = pmm_more_vmm [OF s1(4)]
  from c show ?thesis
  proof (elim disjE bexE conjE)
    assume p: "p = 0" "free_frames s1 = free_frames s"
    have "vmm_inv s1 k" using inv s1(2,3) p(2) more by (simp add: vmm_inv_def)
    with s1(1) p(1) v2p_eq [OF this] v2p_eq [OF inv] more(1) show ?thesis by (simp add: vmm_create_user_pml4_def)
  next
    fix n assume n: "n \<in> free_frames s" "p = addr_of_frame n" "p \<noteq> 0" "free_frames s1 = free_frames s - {n}"
    have pok: "table_ok p" and fp: "frame_of p = n" using frame_table_ok [OF inv n(1)] n(2) by simp_all
    have fresh: "frame_of p \<notin> table_frames (pt_mem s) k" using dis n(1) fp by auto
    have kf: "frame_of k \<in> table_frames (pt_mem s) k" using table_framesI [of "[]" "pt_mem s" k k] by simp
    define s2 where "s2 = s1\<lparr>pt_mem := zero_frame p (pt_mem s)\<rparr>"
    have z: "pt_zero (vmm_get_table s1 p) s1 = Inr s2" using pt_zero_table [OF pok, of s1 s1] more by (simp add: s2_def)
    have "copied (pt_mem s) k p 0 (pt_mem s2)"
      using frame_of_entry [OF pok] by (auto simp: copied_def s2_def zero_frame_def)
    moreover have "kernel_pml4 s2 = vmm_get_table s2 k" using kp more by (simp add: s2_def vmm_get_table_def)
    moreover have "frame_of k \<noteq> frame_of p" using kf fresh by auto
    ultimately obtain M' where M': "for_each (\<lambda>i t. bind_res (pt_read t (kernel_pml4 t) i) (\<lambda>e. pt_write (vmm_get_table s2 p) i e t))
      (indices 256 512) s2 = Inr (s2\<lparr>pt_mem := M'\<rparr>)" "copied (pt_mem s) k p 256 M'"
      using user_copy_loop [OF pok pt_tree_root [OF tree]] by blast
    have "user_copy (pt_mem s) k p M'"
      using M'(2) tree pok fresh
      by (auto simp: user_copy_def copied_def pt_index_def word_le_nat_alt word_less_nat_alt)
    note uk = user_copy_kernel(2-4) [OF this] and uc = user_copy_tree [OF this]
    let ?s' = "s2\<lparr>pt_mem := M'\<rparr>"
    have r: "vmm_create_user_pml4 env s = Inr (p, ?s')"
      using s1(1) n(3) z M'(1) by (simp add: vmm_create_user_pml4_def Let_def s2_def)
    have free: "free_frames ?s' = free_frames s - {n}" using n(4) by (simp add: s2_def)
    have ik: "vmm_inv ?s' k" using uk(1,3) s1(2,3) inv n(4) dis by (auto simp: vmm_inv_mem s2_def) (auto simp: vmm_inv_def)
    have ip: "vmm_inv ?s' p" using uc(1,2) s1(2,3) inv n(4) dis fp by (auto simp: vmm_inv_mem s2_def) (auto simp: vmm_inv_def)
    show ?thesis
      using r ik ip v2p_eq [OF ik] v2p_eq [OF ip] v2p_eq [OF inv] uk(2) uc(3) n(1) fp free
      by (intro exI [of _ p] exI [of _ ?s']) (auto simp: not_le)
  qed
qed

end
