(* ===== verification/Vmm_Progress.thy ===== *)
theory Vmm_Progress
  imports Vmm_Spaces
begin

text \<open>
  Mapping does not fail while frames are left: with three free frames that the CPU's hint does not
  hide, every page can be mapped. Concrete instances of the results on address spaces are at the end.
\<close>

section \<open>Progress\<close>

lemma finite_free_frames [simp]: "finite (free_frames s)"
proof -
  have "free_frames s \<subseteq> {..< 8 * length (bitmap s)}" by (auto simp: free_frames_def)
  then show ?thesis by (rule finite_subset) simp
qed

lemma hint_ok_mem [simp]: "hint_ok env (s\<lparr>pt_mem := M\<rparr>) = hint_ok env s" "hint_ok env (s\<lparr>vmm_lock := l\<rparr>) = hint_ok env s"
  by (simp_all add: hint_ok_def search_hint_def split: option.split)

lemma alloc_progress:
  assumes "pmm_ok s" and "env_ok env" and "hint_ok env s" and "free_frames s \<noteq> {}"
    and "pmm_alloc_frame env s = Inr (a, s')"
  shows "a \<noteq> 0" and "hint_ok env s'"
proof -
  have "\<not> (\<forall>n\<in>free_frames s. n div 8 < search_hint env s)"
    using assms(3,4) by (auto simp: hint_ok_def not_less)
  with alloc_frame_ok [OF assms(1,2)] assms(5) obtain n where "n \<in> free_frames s" "a = addr_of_frame n" by auto
  moreover have "pmm_inv s" using assms(1) by (simp add: pmm_ok_def)
  ultimately show "a \<noteq> 0" using free_frame_addr [of s n] by simp
  show "hint_ok env s'" by (rule hint_ok_alloc [OF assms(1-3,5)])
qed

lemma pt_write_pmm:
  "pt_write t i e s = Inr s' \<Longrightarrow> hint_ok env s' = hint_ok env s \<and> free_frames s' = free_frames s"
  "pt_zero t s = Inr s' \<Longrightarrow> hint_ok env s' = hint_ok env s \<and> free_frames s' = free_frames s"
  by (auto simp: pt_write_def pt_zero_def split: if_splits)

lemma vmm_map_level_progress:
  assumes ok: "pmm_ok s" "env_ok env" and hint: "hint_ok env s" and free: "card (free_frames s) > d"
    and r: "vmm_map_level env flags t i s = Inr (x, s')"
  shows "x \<noteq> None \<and> hint_ok env s' \<and> card (free_frames s') \<ge> d"
proof -
  obtain e where e: "pt_read s t i = Inr e" using r by (auto simp: vmm_map_level_def)
  show ?thesis
  proof (cases "pte_present e")
    case True
    with r e obtain s1 s2 e1 where "(if flags AND PTE_USER \<noteq> 0 then pt_write t i (e OR PTE_USER) s else Inr s) = Inr s1"
      "(if flags AND PTE_WRITABLE \<noteq> 0 then pt_write t i (e1 OR PTE_WRITABLE) s1 else Inr s1) = Inr s2"
      "x \<noteq> None" "s' = s2" by (auto simp: vmm_map_level_def)
    then show ?thesis using hint free pt_write_pmm(1) [of t i _ s s1 env] pt_write_pmm(1) [of t i _ s1 s2 env]
      by (auto split: if_splits)
  next
    case False
    obtain a s1 where a: "pmm_alloc_frame env s = Inr (a, s1)" using vmm_alloc [OF ok] by blast
    have "free_frames s \<noteq> {}" using free by auto
    note p = alloc_progress [OF ok hint this a]
    from r e a False p(1) obtain s2 s3 e3 where
      "pt_zero (vmm_get_table s1 a) s1 = Inr s2" "pt_write t i e3 s2 = Inr s3" "x \<noteq> None" "s' = s3"
      by (auto simp: vmm_map_level_def)
    then have "x \<noteq> None" "hint_ok env s'" "free_frames s' = free_frames s1"
      using p(2) pt_write_pmm(2) [of _ s1 s2 env] pt_write_pmm(1) [of t i e3 s2 s3 env] by auto
    moreover have "card (free_frames s1) \<ge> d"
      using alloc_frame_effect [OF ok a] free by (auto simp: frames_at_def card_Diff_singleton_if split: if_splits)
    ultimately show ?thesis by simp
  qed
qed

lemma vmm_map_levels_progress:
  assumes "vmm_inv s r" and "env_ok env" and "k \<le> 3" and "tbl (pt_mem s) r (take k (vpath v)) = Some t"
    and "hint_ok env s" and "3 - k \<le> card (free_frames s)"
  shows "\<exists>t' s'. vmm_map_levels env flags (drop k (vpath v)) (vmm_get_table s t) s = Inr (Some t', s')"
  using assms
proof (induction "3 - k" arbitrary: k s t)
  case (Suc d)
  then have k: "k < 3" and ok: "pmm_ok s" and card: "d < card (free_frames s)" by (simp_all add: vmm_inv_def)
  from vmm_map_level_spec [OF Suc.prems(1,2) k Suc.prems(4), of flags] obtain x s' where
    s': "vmm_map_level env flags (vmm_get_table s t) (vpath v ! k) s = Inr (x, s')" "walk_step r v s s'"
      "x \<noteq> None \<Longrightarrow> \<exists>t'. x = Some (vmm_get_table s' t') \<and> tbl (pt_mem s') r (take (Suc k) (vpath v)) = Some t'"
    by blast
  note p = vmm_map_level_progress [OF ok Suc.prems(2,5) card s'(1)]
  with s'(3) obtain t' where t': "x = Some (vmm_get_table s' t')" "tbl (pt_mem s') r (take (Suc k) (vpath v)) = Some t'"
    by blast
  have d: "d = 3 - Suc k" "Suc k \<le> 3" using Suc.hyps(2) k by simp_all
  have "3 - Suc k \<le> card (free_frames s')" using p d(1) by simp
  with Suc.hyps(1) [OF d(1) walk_stepD(1) [OF s'(2)] Suc.prems(2) d(2) t'(2)] p
  show ?case using s'(1) t'(1) by (auto simp: drop_vpath [OF k])
qed simp

text \<open>
  C17. With three free frames that the CPU's search hint does not hide, \<^verbatim>\<open>vmm_map\<close> succeeds for every address
  of an intact tree: afterwards the address is translated to the requested frame.
\<close>

theorem vmm_map_succeeds:
  assumes ready: "vmm_ready env s r" and flags: "flags AND VMM_ADDR_MASK = 0"
    and hint: "hint_ok env s" and free: "3 \<le> card (free_frames s)"
  shows "\<exists>s'. vmm_map env (vmm_get_table s r) virt phys flags s = Inr s' \<and> vmm_ready env s' r
    \<and> v2p s' r virt = Inr ((phys AND VMM_ADDR_MASK) + (virt AND 0xFFF))"
proof -
  let ?s0 = "s\<lparr>vmm_lock := spin_locked env (vmm_lock s)\<rparr>"
  note inv0 = vmm_ready_locked(1) [OF ready, of "spin_locked env (vmm_lock s)"] and env = vmm_ready_locked(2) [OF ready]
  have "tbl (pt_mem ?s0) r (take 0 (vpath virt)) = Some r" by simp
  from vmm_map_levels_progress [OF inv0 env _ this, of flags] hint free
  have lev: "\<exists>t' s1. vmm_map_levels env flags (vpath virt) (vmm_get_table s r) ?s0 = Inr (Some t', s1)" by simp
  from vmm_map_unlocked_spec [OF inv0 env flags, of virt phys] obtain ok s1 where
    s1: "vmm_map_unlocked env (vmm_get_table s r) virt phys flags ?s0 = Inr (ok, s1)" "vmm_inv s1 r" "vmm_frame ?s0 s1"
      "translate (pt_mem s1) r = (if ok then map_view virt phys (translate (pt_mem s) r) else translate (pt_mem s) r)"
    by auto
  have ok: ok using s1(1) lev by (auto simp: vmm_map_unlocked_def vpath_def)
  let ?s2 = "s1\<lparr>vmm_lock := spin_unlock env (vmm_lock s1)\<rparr>"
  have m: "vmm_map env (vmm_get_table s r) virt phys flags s = Inr ?s2"
    using s1(1) ok by (simp add: vmm_map_def spin_lock_free [OF vmm_ready_lock [OF ready]] Let_def)
  have "vmm_lock s1 = spin_locked env (vmm_lock s)" using s1(3) by (simp add: vmm_frame_def)
  then have "vmm_ready env ?s2 r" using s1(2) env vmm_ready_locked(3) [OF ready] by (simp add: vmm_ready_def)
  moreover have "v2p ?s2 r virt = Inr ((phys AND VMM_ADDR_MASK) + (virt AND 0xFFF))"
    using v2p_eq [of ?s2 r virt] s1(2,4) ok by (simp add: map_view_def same_page_def)
  ultimately show ?thesis using m by blast
qed

section \<open>Instances\<close>

text \<open>Two empty roots in frames 1 and 2 of 64 frames; the kernel's root is frame 1.\<close>

definition sample_vmm :: vmm_state where
  "sample_vmm = \<lparr>bitmap_ptr = 0x1000, bitmap_size = 8, bitmap = [0x07, 0, 0, 0, 0, 0, 0, 0],
     pmm_last_index = (\<lambda>_. 0), pmm_lock = spinlock_init, pt_mem = (\<lambda>_. 0),
     kernel_pml4 = phys_to_virt 0x1000, kernel_pml4_phys = 0x1000, vmm_lock = spinlock_init,
     msr_pat = 0, msr_efer = 0, reg_cr0 = 0, reg_cr4 = 0, hw_log = []\<rparr>"

lemma empty_tbl: "tbl (\<lambda>_. 0) r p = (if p = [] then Some r else None)"
  by (cases p) (simp_all add: tbl.simps(2) pte_present_def)

lemma empty_tree:
  assumes "table_ok r"
  shows "pt_tree (\<lambda>_. 0) r" and "table_frames (\<lambda>_. 0) r = {frame_of r}" and "walk_frames (\<lambda>_. 0) r v = {frame_of r}"
  using assms
  by (auto simp: pt_tree_def table_frames_def walk_frames_def empty_tbl split: if_splits)

lemma sample_vmm_ready:
  "vmm_ready boot_env sample_vmm 0x1000" "vmm_ready boot_env sample_vmm 0x2000"
  by (simp_all add: vmm_ready_def vmm_inv_def sample_vmm_def empty_tree table_ok_def frame_of_def pmm_ok_def pmm_inv_def
      free_frames_def frame_used_def boot_env_def env_ok_def lock_idle_def spinlock_init_def)

lemma sample_vmm_inv: "vmm_inv sample_vmm 0x1000" "vmm_inv sample_vmm 0x2000" "env_ok boot_env"
  using sample_vmm_ready by (simp_all add: vmm_ready_def)

lemma sample_vmm_free: "{3, 4, 5} \<subseteq> free_frames sample_vmm"
  by (simp add: free_frames_def frame_used_def sample_vmm_def)

theorem vmm_map_correct_witness:
  "\<exists>s'. vmm_map boot_env (vmm_get_table sample_vmm 0x1000) 0x5000 0x9000 3 sample_vmm = Inr s'
     \<and> vmm_ready boot_env s' 0x1000 \<and> (v2p s' 0x1000 0x7000 = v2p sample_vmm 0x1000 0x7000)"
proof -
  have n: "\<not> same_page 0x7000 0x5000" by (simp add: same_page_def PT_IDX_def)
  have "\<not> (0x5000 :: u64) \<ge> HHDM_OFFSET" by simp
  with vmm_map_correct [OF sample_vmm_ready(1), of 3 "0x5000" "0x9000"] n show ?thesis by auto
qed


theorem vmm_map_range_correct_witness:
  "\<exists>s'. vmm_map_range boot_env (vmm_get_table sample_vmm 0x1000) 0x5000 0x9000 0x2000 3 sample_vmm = Inr s'
     \<and> vmm_ready boot_env s' 0x1000 \<and> v2p s' 0x1000 0x8000 = v2p sample_vmm 0x1000 0x8000"
proof -
  have "\<not> same_page 0x8000 (page_at 0x5000 i)" if "i < 2" for i
  proof -
    from that have "i = 0 \<or> i = 1" by auto
    then show ?thesis by (auto simp: same_page_no page_no_def)
  qed
  then have n: "\<not> on_pages 0x5000 k 0x8000" if "k \<le> 2" for k using that by (auto simp: on_pages_def)
  have "\<not> (0x5000 :: u64) \<ge> HHDM_OFFSET" by simp
  with vmm_map_range_correct [OF sample_vmm_ready(1), of 3 "0x5000" "0x2000" "0x9000"] n show ?thesis
    by (auto dest: less_imp_le)
qed

theorem vmm_map_isolated_witness:
  "\<exists>ok s'. vmm_map_unlocked boot_env (vmm_get_table sample_vmm 0x2000) 0x5000 0x9000 3 sample_vmm = Inr (ok, s')
     \<and> vmm_inv s' 0x1000 \<and> v2p s' 0x1000 0x5000 = v2p sample_vmm 0x1000 0x5000"
proof -
  have "walk_frames (pt_mem sample_vmm) 0x2000 0x5000 \<inter> table_frames (pt_mem sample_vmm) 0x1000 = {}"
    by (simp add: sample_vmm_def empty_tree table_ok_def frame_of_def)
  from vmm_map_isolated [OF sample_vmm_inv(2,3) _ sample_vmm_inv(1) this, of 3 "0x9000"] show ?thesis by auto
qed

theorem vmm_create_user_pml4_correct_witness:
  "\<exists>p s'. vmm_create_user_pml4 boot_env sample_vmm = Inr (p, s') \<and> vmm_inv s' 0x1000
     \<and> (p = 0 \<or> v2p s' p 0x5000 = Inr 0)"
proof -
  have "kernel_pml4 sample_vmm = vmm_get_table sample_vmm 0x1000"
    by (simp add: sample_vmm_def vmm_get_table_def phys_to_virt_def)
  moreover have "PML4_IDX 0x5000 < 256" by (simp add: PML4_IDX_def)
  ultimately show ?thesis using vmm_create_user_pml4_correct [OF sample_vmm_inv(1,3)] by fastforce
qed

theorem vmm_map_succeeds_witness:
  "\<exists>s'. vmm_map boot_env (vmm_get_table sample_vmm 0x1000) 0x5000 0x9000 3 sample_vmm = Inr s'
     \<and> v2p s' 0x1000 0x5000 = Inr 0x9000"
proof -
  have "card {3, 4, 5 :: nat} \<le> card (free_frames sample_vmm)" by (rule card_mono [OF _ sample_vmm_free]) simp
  moreover have "hint_ok boot_env sample_vmm" by (simp add: hint_ok_def search_hint_def boot_env_def sample_vmm_def)
  ultimately show ?thesis
    using vmm_map_succeeds [OF sample_vmm_ready(1), of 3 "0x5000" "0x9000"] by auto
qed

end
