(* ===== verification/Dll.thy ===== *)
theory Dll
  imports Kernel_Prelude
begin

text \<open>
  Doubly linked lists threaded through two pointer fields, as the slab lists and the heap's block list use them:
  the predicate that a head pointer starts such a list, and what unlinking an element and
  pushing a new head do to it.
\<close>

section \<open>Lists with back pointers\<close>

primrec dseg :: "(u64 \<Rightarrow> u64) \<Rightarrow> (u64 \<Rightarrow> u64) \<Rightarrow> u64 \<Rightarrow> u64 \<Rightarrow> u64 list \<Rightarrow> u64 \<Rightarrow> bool" where
  "dseg nx pv b x [] e \<longleftrightarrow> x = e"
| "dseg nx pv b x (y # ys) e \<longleftrightarrow> x = y \<and> y \<noteq> 0 \<and> pv y = b \<and> dseg nx pv y (nx y) ys e"

abbreviation dll :: "(u64 \<Rightarrow> u64) \<Rightarrow> (u64 \<Rightarrow> u64) \<Rightarrow> u64 \<Rightarrow> u64 list \<Rightarrow> bool" where
  "dll nx pv h xs \<equiv> dseg nx pv 0 h xs 0"

lemma dseg_append:
  "dseg nx pv b x (xs @ ys) e \<longleftrightarrow>
     (\<exists>m. dseg nx pv b x xs m \<and> dseg nx pv (if xs = [] then b else last xs) m ys e)"
  by (induction xs arbitrary: b x) auto

lemma dseg_notnull: "dseg nx pv b x xs e \<Longrightarrow> 0 \<notin> set xs"
  by (induction xs arbitrary: b x) auto

lemma dseg_cong:
  assumes "\<And>a. a \<in> set xs \<Longrightarrow> nx' a = nx a" and "\<And>a. a \<in> set xs \<Longrightarrow> pv' a = pv a"
  shows "dseg nx' pv' b x xs e = dseg nx pv b x xs e"
  using assms by (induction xs arbitrary: b x) auto

lemma dll_null: "dll nx pv 0 xs \<longleftrightarrow> xs = []"
  by (cases xs) auto

lemma dll_nonnull: "dll nx pv h xs \<Longrightarrow> h \<noteq> 0 \<Longrightarrow> \<exists>ys. xs = h # ys"
  by (cases xs) auto

lemma dseg_chain: "dseg nx pv b x xs 0 \<Longrightarrow> chain nx x xs"
  by (induction xs arbitrary: b x) auto

lemma dll_distinct: "dll nx pv h xs \<Longrightarrow> distinct xs"
  by (rule chain_distinct [OF dseg_chain])

lemma dll_unique: "dll nx pv h xs \<Longrightarrow> dll nx pv h ys \<Longrightarrow> xs = ys"
  by (rule chain_unique [OF dseg_chain dseg_chain])

section \<open>Unlinking\<close>

text \<open>The fields and the head after unlinking \<open>s\<close>.\<close>

definition unlink_next :: "(u64 \<Rightarrow> u64) \<Rightarrow> (u64 \<Rightarrow> u64) \<Rightarrow> u64 \<Rightarrow> u64 \<Rightarrow> u64" where
  "unlink_next nx pv s = (if pv s \<noteq> 0 then nx(pv s := nx s) else nx)"

definition unlink_prev :: "(u64 \<Rightarrow> u64) \<Rightarrow> (u64 \<Rightarrow> u64) \<Rightarrow> u64 \<Rightarrow> u64 \<Rightarrow> u64" where
  "unlink_prev nx pv s = (if nx s \<noteq> 0 then pv(nx s := pv s) else pv)"

lemma dseg_split:
  assumes "dseg nx pv b x (ys @ s # zs) 0"
  shows "dseg nx pv b x ys s" and "pv s = (if ys = [] then b else last ys)" and "s \<noteq> 0"
    and "dseg nx pv s (nx s) zs 0"
  using assms by (auto simp: dseg_append)

lemma dseg_retarget:
  assumes "dseg nx pv b x ys s" and "distinct ys" and "ys \<noteq> []"
  shows "dseg (nx(last ys := t)) pv b x ys t"
  using assms
proof (induction ys arbitrary: b x)
  case (Cons y ys)
  show ?case
  proof (cases "ys = []")
    case False
    then have "y \<noteq> last ys" using Cons.prems(2) by auto
    with Cons False show ?thesis by auto
  qed (use Cons in auto)
qed simp

lemma dll_unlink:
  assumes d: "dll nx pv h (ys @ s # zs)"
  shows "dll (unlink_next nx pv s) (unlink_prev nx pv s) (if h = s then nx s else h) (ys @ zs)"
proof -
  note sp = dseg_split [OF d]
  have dist: "distinct (ys @ s # zs)" by (rule dll_distinct [OF d])
  have nz: "0 \<notin> set ys" "0 \<notin> set zs" using dseg_notnull [OF sp(1)] dseg_notnull [OF sp(4)] by auto
  let ?b = "if ys = [] then 0 else last ys"
  let ?nx = "unlink_next nx pv s" and ?pv = "unlink_prev nx pv s"
  have hd: "nx s = (case zs of [] \<Rightarrow> 0 | z # _ \<Rightarrow> z)" using sp(4) by (cases zs) auto
  have pvs: "pv s = ?b" using sp(2) by simp
  have left: "dseg ?nx ?pv 0 (if h = s then nx s else h) ys (nx s)"
  proof (cases "ys = []")
    case True
    then show ?thesis using sp(1) by simp
  next
    case False
    then have "h \<noteq> s" using sp(1) dist by (cases ys) auto
    moreover have "last ys \<noteq> 0" using nz(1) False by (metis last_in_set)
    moreover have "dseg (nx(last ys := nx s)) pv 0 h ys (nx s)"
      using dseg_retarget [OF sp(1)] dist False by simp
    moreover have "?pv a = pv a" if "a \<in> set ys" for a
      using that dist hd by (cases zs) (auto simp: unlink_prev_def)
    ultimately show ?thesis
      using False pvs by (subst dseg_cong [where nx = "nx(last ys := nx s)" and pv = pv]) (auto simp: unlink_next_def)
  qed
  have right: "dseg ?nx ?pv ?b (nx s) zs 0"
  proof (cases zs)
    case (Cons z zs')
    have "?nx a = nx a" if "a \<in> set zs" for a
      using that dist pvs by (auto simp: unlink_next_def dest: last_in_set split: if_splits)
    moreover have "?pv a = pv a" if "a \<in> set zs'" for a using that dist hd Cons by (auto simp: unlink_prev_def)
    ultimately have "dseg ?nx ?pv z (nx z) zs' 0"
      using sp(4) Cons by (subst dseg_cong [where nx = nx and pv = pv]) auto
    then show ?thesis using sp(4) hd Cons pvs \<open>\<And>a. a \<in> set zs \<Longrightarrow> ?nx a = nx a\<close> by (auto simp: unlink_prev_def)
  qed (use sp(4) in simp)
  show ?thesis unfolding dseg_append using left right by blast
qed

section \<open>Pushing\<close>

definition push_prev :: "(u64 \<Rightarrow> u64) \<Rightarrow> u64 \<Rightarrow> u64 \<Rightarrow> u64 \<Rightarrow> u64" where
  "push_prev pv h s = (if h \<noteq> 0 then (pv(s := 0))(h := s) else pv(s := 0))"

lemma dll_push:
  assumes d: "dll nx pv h xs" and s: "s \<notin> set xs" "s \<noteq> 0"
  shows "dll (nx(s := h)) (push_prev pv h s) s (s # xs)"
proof (cases xs)
  case Nil
  then show ?thesis using d s by (simp add: push_prev_def)
next
  case (Cons x ys)
  then have h: "h = x" "x \<noteq> 0" and t: "dseg nx pv x (nx x) ys 0" using d by auto
  have dist: "distinct xs" by (rule dll_distinct [OF d])
  have "dseg (nx(s := h)) (push_prev pv h s) x (nx x) ys 0"
    using t dist s Cons h by (subst dseg_cong [where nx = nx and pv = pv]) (auto simp: push_prev_def)
  then show ?thesis using h s Cons by (auto simp: push_prev_def)
qed

end
