(* ===== verification/Io_Format.thy ===== *)
theory Io_Format
  imports Kernel_Prelude
begin

text \<open>
  The formatted printer \<^verbatim>\<open>common/io.c\<close>. A C string is the list of its characters before the terminating
  zero. The output buffer of size \<open>n\<close> is the list of the characters written so far, so that its length is the offset
  \<^verbatim>\<open>str - buf\<close>; a write at an offset that is not below \<open>n\<close> is \<open>OutOfBounds\<close>, as is a read past the end of
  the format or of the argument list, and a write past the end of \<^verbatim>\<open>tmp[65]\<close>.
\<close>

section \<open>Definitions\<close>

datatype va_arg = VaInt u64 | VaStr "string option"

definition put_char :: "nat \<Rightarrow> char \<Rightarrow> string \<Rightarrow> string res" where
  "put_char n c out = (if length out < n then Inr (out @ [c]) else Inl OutOfBounds)"

definition put_chars :: "nat \<Rightarrow> string \<Rightarrow> string \<Rightarrow> string res" where
  "put_chars n cs out = for_each (put_char n) cs out"

definition hex_digits :: string where "hex_digits = ''0123456789abcdef''"

text \<open>The do-while loop of \<^verbatim>\<open>ksprint_int\<close> that fills \<^verbatim>\<open>tmp\<close> with the digits, lowest first, and the padding loop.\<close>

function ksprint_digits :: "u64 \<Rightarrow> u64 \<Rightarrow> string \<Rightarrow> string res" where
  "ksprint_digits val base tmp =
     (if base = 0 then Inl DivideError
      else if length tmp \<ge> 65 \<or> unat (val mod base) \<ge> length hex_digits then Inl OutOfBounds
      else let tmp1 = tmp @ [hex_digits ! unat (val mod base)];
               val1 = val div base
           in if val1 > 0 then ksprint_digits val1 base tmp1 else Inr tmp1)"
  by pat_completeness auto
termination by (relation "measure (\<lambda>(val, base, tmp). 65 - length tmp)") auto

function ksprint_pad :: "int \<Rightarrow> char \<Rightarrow> string \<Rightarrow> string res" where
  "ksprint_pad width pad tmp =
     (if int (length tmp) < width
      then (if length tmp \<ge> 65 then Inl OutOfBounds else ksprint_pad width pad (tmp @ [pad]))
      else Inr tmp)"
  by pat_completeness auto
termination by (relation "measure (\<lambda>(width, pad, tmp). 65 - length tmp)") auto

declare ksprint_digits.simps [simp del] ksprint_pad.simps [simp del]

definition ksprint_int :: "nat \<Rightarrow> u64 \<Rightarrow> u64 \<Rightarrow> int \<Rightarrow> char \<Rightarrow> string \<Rightarrow> string res" where
  "ksprint_int n val base width pad out =
     bind_res (ksprint_digits val base []) (\<lambda>tmp.
     bind_res (ksprint_pad width pad tmp) (\<lambda>tmp1.
     put_chars n (rev tmp1) out))"

text \<open>The width digits after a \<^verbatim>\<open>%\<close>, and \<^verbatim>\<open>while (*s && str < end - 1) *str++ = *s++\<close>.\<close>

definition is_digit :: "char \<Rightarrow> bool" where
  "is_digit c \<longleftrightarrow> of_char CHR ''0'' \<le> (of_char c :: nat) \<and> (of_char c :: nat) \<le> of_char CHR ''9''"

fun parse_width :: "int \<Rightarrow> string \<Rightarrow> int \<times> string" where
  "parse_width w [] = (w, [])"
| "parse_width w (c # cs) =
     (if is_digit c then parse_width (w * 10 + (of_char c - of_char CHR ''0'')) cs else (w, c # cs))"

fun put_str :: "nat \<Rightarrow> string \<Rightarrow> string \<Rightarrow> string" where
  "put_str n [] out = out"
| "put_str n (c # cs) out =
     (if int (length out) < int n - 1 then put_str n cs (out @ [c]) else out)"

definition take_int :: "va_arg list \<Rightarrow> (u64 \<times> va_arg list) res" where
  "take_int args = (case args of VaInt v # rest \<Rightarrow> Inr (v, rest) | _ \<Rightarrow> Inl OutOfBounds)"

definition take_str :: "va_arg list \<Rightarrow> (string \<times> va_arg list) res" where
  "take_str args =
     (case args of VaStr s # rest \<Rightarrow> Inr (case s of None \<Rightarrow> ''(null)'' | Some t \<Rightarrow> t, rest)
      | _ \<Rightarrow> Inl OutOfBounds)"

text \<open>One conversion: the character after the flags and the width, the new output and the arguments left.\<close>

definition vsn_conv :: "nat \<Rightarrow> char \<Rightarrow> int \<Rightarrow> char \<Rightarrow> va_arg list \<Rightarrow> string \<Rightarrow> (string \<times> va_arg list) res" where
  "vsn_conv n c width pad args out =
     (if c = CHR ''c'' then
        bind_res (take_int args) (\<lambda>(v, rest).
        bind_res (put_char n (char_of (unat v mod 256)) out) (\<lambda>o1. Inr (o1, rest)))
      else if c = CHR ''s'' then
        bind_res (take_str args) (\<lambda>(s, rest). Inr (put_str n s out, rest))
      else if c = CHR ''d'' then
        bind_res (take_int args) (\<lambda>(v, rest).
        bind_res (if sint v < 0 then put_char n CHR ''-'' out else Inr out) (\<lambda>o1.
        bind_res (ksprint_int n (if sint v < 0 then - v else v) 10 width pad o1) (\<lambda>o2. Inr (o2, rest))))
      else if c = CHR ''x'' then
        bind_res (take_int args) (\<lambda>(v, rest).
        bind_res (ksprint_int n v 16 width pad out) (\<lambda>o1. Inr (o1, rest)))
      else if c = CHR ''p'' then
        (if int (length out) < int n - 19 then
           bind_res (take_int args) (\<lambda>(v, rest).
           bind_res (put_chars n ''0x'' out) (\<lambda>o1.
           bind_res (ksprint_int n v 16 16 CHR ''0'' o1) (\<lambda>o2. Inr (o2, rest))))
         else Inr (out, args))
      else if c = CHR ''b'' then
        bind_res (take_int args) (\<lambda>(v, rest).
        bind_res (ksprint_int n v 2 width pad out) (\<lambda>o1. Inr (o1, rest)))
      else bind_res (put_char n c out) (\<lambda>o1. Inr (o1, args)))"

lemma parse_width_length: "length (snd (parse_width w cs)) \<le> length cs"
  by (induction w cs rule: parse_width.induct) auto

text \<open>The zero flag and the width between \<^verbatim>\<open>%\<close> and the conversion character.\<close>

definition parse_flags :: "string \<Rightarrow> char \<times> int \<times> string" where
  "parse_flags fmt =
     (let (pad, fmt1) = (if fmt \<noteq> [] \<and> hd fmt = CHR ''0'' then (CHR ''0'', tl fmt) else (CHR '' '', fmt));
          (width, fmt2) = parse_width 0 fmt1
      in (pad, width, fmt2))"

lemma parse_flags_length: "parse_flags fmt = (pad, width, fmt2) \<Longrightarrow> length fmt2 \<le> length fmt"
  using parse_width_length [of 0 fmt] parse_width_length [of 0 "tl fmt"]
  by (auto simp: parse_flags_def Let_def split: if_splits prod.splits)

text \<open>
  The main loop. At the end of the format right after a \<^verbatim>\<open>%\<close> the \<^verbatim>\<open>default\<close> case copies the
  terminating zero and the loop steps past it, reading outside the format.
\<close>

function vsn_loop :: "nat \<Rightarrow> string \<Rightarrow> va_arg list \<Rightarrow> string \<Rightarrow> string res" where
  "vsn_loop n [] args out = Inr out"
| "vsn_loop n (c # fmt) args out =
     (if \<not> int (length out) < int n - 1 then Inr out
      else if c \<noteq> CHR ''%'' then bind_res (put_char n c out) (\<lambda>o1. vsn_loop n fmt args o1)
      else
        let (pad, width, fmt2) = parse_flags fmt
        in (case fmt2 of
              [] \<Rightarrow> Inl OutOfBounds
            | conv # fmt3 \<Rightarrow>
                bind_res (vsn_conv n conv width pad args out) (\<lambda>(o1, args1). vsn_loop n fmt3 args1 o1)))"
  by pat_completeness auto
termination
proof (relation "measure (\<lambda>(n, fmt, args, out). length fmt)", goal_cases)
  case (3 n c fmt args out x pad y width fmt2 conv fmt3 z o1 args1)
  then have "length fmt2 \<le> length fmt" using parse_flags_length [of fmt pad width fmt2] by simp
  with 3 show ?case by auto
qed auto

declare vsn_loop.simps(2) [simp del]

definition vsnprintf :: "nat \<Rightarrow> string \<Rightarrow> va_arg list \<Rightarrow> (string \<times> nat) res" where
  "vsnprintf n fmt args =
     bind_res (vsn_loop n fmt args []) (\<lambda>out.
     bind_res (put_char n CHR 0x00 out) (\<lambda>buf. Inr (buf, length out)))"

end
