(* ===== verification/Io_Format_Proofs.thy ===== *)
theory Io_Format_Proofs
  imports Io_Format
begin

text \<open>
  Correctness of the formatted printer: the digits printed for a number read back as that number, and
  \<^verbatim>\<open>vsnprintf\<close> agrees with a reference rendering of the format that does not know about buffers.
\<close>

section \<open>Numbers\<close>

text \<open>The usual recursive definition of the digits of a number, highest first, and reading them back.\<close>

fun digits_of :: "nat \<Rightarrow> nat \<Rightarrow> string" where
  "digits_of b m = (if b < 2 \<or> m < b then [hex_digits ! m] else digits_of b (m div b) @ [hex_digits ! (m mod b)])"

declare digits_of.simps [simp del]

definition digit_val :: "char \<Rightarrow> nat" where
  "digit_val c = length (takeWhile (\<lambda>x. x \<noteq> c) hex_digits)"

definition value_of :: "nat \<Rightarrow> string \<Rightarrow> nat" where
  "value_of b cs = foldl (\<lambda>acc c. acc * b + digit_val c) 0 cs"

lemma digit_val_table: "list_all (\<lambda>i. digit_val (hex_digits ! i) = i) [0..<16]"
  by code_simp

lemma digit_val_nth: "i < 16 \<Longrightarrow> digit_val (hex_digits ! i) = i"
  using digit_val_table by (simp only: list_all_iff set_upt atLeastLessThan_iff) simp

lemma length_hex_digits [simp]: "length hex_digits = 16"
  by (simp add: hex_digits_def)

lemma digits_of_nonempty: "digits_of b m \<noteq> []"
  by (subst digits_of.simps) simp

lemma digits_of_length: "m < b ^ k \<Longrightarrow> 2 \<le> b \<Longrightarrow> 0 < k \<Longrightarrow> length (digits_of b m) \<le> k"
proof (induction k arbitrary: m)
  case (Suc k)
  show ?case
  proof (cases "m < b")
    case True
    then show ?thesis by (simp add: digits_of.simps)
  next
    case False
    then have "0 < k" using Suc.prems(1) by (cases k) auto
    moreover have "m div b < b ^ k"
      using Suc.prems(1,2) by (simp add: less_mult_imp_div_less mult.commute)
    ultimately have "length (digits_of b (m div b)) \<le> k" using Suc.IH Suc.prems(2) by blast
    with False Suc.prems(2) show ?thesis by (subst digits_of.simps) simp
  qed
qed simp

lemma value_of_digits: "2 \<le> b \<Longrightarrow> b \<le> 16 \<Longrightarrow> value_of b (digits_of b m) = m"
proof (induction b m rule: digits_of.induct)
  case (1 b m)
  show ?case
  proof (cases "m < b")
    case True
    then show ?thesis using 1 by (subst digits_of.simps) (simp add: value_of_def digit_val_nth)
  next
    case False
    have "m mod b < 16" using 1 by (meson less_le_trans mod_less_divisor zero_less_numeral less_le_trans)
    moreover have "value_of b (digits_of b (m div b)) = m div b" using 1 False by simp
    ultimately show ?thesis
      using False 1 by (subst digits_of.simps) (simp add: value_of_def digit_val_nth)
  qed
qed

lemma ksprint_digits_eq:
  "2 \<le> unat base \<Longrightarrow> unat base \<le> 16 \<Longrightarrow> length tmp + length (digits_of (unat base) (unat val)) \<le> 65 \<Longrightarrow>
   ksprint_digits val base tmp = Inr (tmp @ rev (digits_of (unat base) (unat val)))"
proof (induction val base tmp rule: ksprint_digits.induct)
  case (1 val base tmp)
  have nz: "base \<noteq> 0" using 1 by auto
  have md: "unat (val mod base) = unat val mod unat base" and dv: "unat (val div base) = unat val div unat base"
    by (simp_all add: unat_mod unat_div)
  have lt: "unat val mod unat base < 16" using 1 by (meson less_le_trans mod_less_divisor zero_less_numeral)
  have len: "length tmp < 65" using 1 digits_of_nonempty [of "unat base" "unat val"] by (cases "digits_of (unat base) (unat val)") auto
  show ?case
  proof (cases "unat val < unat base")
    case True
    then have "val div base = 0" by (simp add: dv unat_eq_zero [symmetric])
    then show ?thesis using True nz lt len 1
      by (subst ksprint_digits.simps) (simp add: md digits_of.simps Let_def)
  next
    case False
    then have "unat (val div base) \<noteq> 0" using 1 by (simp add: dv div_eq_0_iff)
    then have ne: "val div base \<noteq> 0" by auto
    have dig: "digits_of (unat base) (unat val) = digits_of (unat base) (unat val div unat base) @ [hex_digits ! (unat val mod unat base)]"
      using False 1 by (subst digits_of.simps) simp
    then have "ksprint_digits (val div base) base (tmp @ [hex_digits ! unat (val mod base)]) =
      Inr ((tmp @ [hex_digits ! unat (val mod base)]) @ rev (digits_of (unat base) (unat (val div base))))"
      using 1 nz lt len ne by (intro 1) (auto simp: md dv word_neq_0_conv)
    then show ?thesis using nz lt len ne
      by (subst ksprint_digits.simps) (simp add: md dv dig Let_def word_neq_0_conv)
  qed
qed

lemma ksprint_pad_eq:
  "width \<le> 65 \<Longrightarrow> ksprint_pad width pad tmp = Inr (tmp @ replicate (nat width - length tmp) pad)"
proof (induction width pad tmp rule: ksprint_pad.induct)
  case (1 width pad tmp)
  show ?case
  proof (cases "int (length tmp) < width")
    case True
    then have "nat width - length tmp = Suc (nat width - Suc (length tmp))" by linarith
    moreover have "length tmp < 65" using True 1 by linarith
    ultimately show ?thesis using True 1 by (subst ksprint_pad.simps) simp
  qed (simp add: ksprint_pad.simps)
qed

lemma put_chars_eq:
  "put_chars n cs out = (if cs = [] \<or> length out + length cs \<le> n then Inr (out @ cs) else Inl OutOfBounds)"
  unfolding put_chars_def by (induction cs arbitrary: out) (auto simp: put_char_def)

text \<open>The characters of a number in a field of the given width.\<close>

definition number :: "nat \<Rightarrow> u64 \<Rightarrow> int \<Rightarrow> char \<Rightarrow> string" where
  "number b v width pad =
     (let ds = digits_of b (unat v) in replicate (nat width - length ds) pad @ ds)"

lemma digits_of_u64: "2 \<le> b \<Longrightarrow> length (digits_of b (unat (v :: u64))) \<le> 64"
proof -
  assume b: "2 \<le> b"
  have "unat v < 2 ^ 64" by (rule unat_u64_less)
  also have "(2 :: nat) ^ 64 \<le> b ^ 64" using b by (rule power_mono) simp
  finally show ?thesis using b by (intro digits_of_length) simp_all
qed

lemma ksprint_int_eq:
  assumes "2 \<le> unat base" and "unat base \<le> 16" and "width \<le> 65"
  shows "ksprint_int n val base width pad out =
    (if length out + length (number (unat base) val width pad) \<le> n
     then Inr (out @ number (unat base) val width pad) else Inl OutOfBounds)"
  using assms digits_of_u64 [of "unat base" val]
  by (simp add: ksprint_int_def ksprint_digits_eq ksprint_pad_eq put_chars_eq number_def Let_def digits_of_nonempty)

section \<open>The reference rendering\<close>

text \<open>What one conversion prints, with no bound on the output, and what the whole format prints.\<close>

definition with_int :: "va_arg list \<Rightarrow> (u64 \<Rightarrow> string) \<Rightarrow> (string \<times> va_arg list) option" where
  "with_int args f = (case take_int args of Inl _ \<Rightarrow> None | Inr (v, rest) \<Rightarrow> Some (f v, rest))"

definition render_conv :: "char \<Rightarrow> int \<Rightarrow> char \<Rightarrow> va_arg list \<Rightarrow> (string \<times> va_arg list) option" where
  "render_conv c width pad args =
     (if c = CHR ''c'' then with_int args (\<lambda>v. [char_of (unat v mod 256)])
      else if c = CHR ''s'' then (case take_str args of Inl _ \<Rightarrow> None | Inr sr \<Rightarrow> Some sr)
      else if c = CHR ''p'' then with_int args (\<lambda>v. ''0x'' @ number 16 v 16 CHR ''0'')
      else if c \<in> {CHR ''d'', CHR ''x'', CHR ''b''} \<and> width > 65 then None
      else if c = CHR ''d'' then
        with_int args (\<lambda>v. if sint v < 0 then CHR ''-'' # number 10 (- v) width pad else number 10 v width pad)
      else if c = CHR ''x'' then with_int args (\<lambda>v. number 16 v width pad)
      else if c = CHR ''b'' then with_int args (\<lambda>v. number 2 v width pad)
      else Some ([c], args))"

function render :: "string \<Rightarrow> va_arg list \<Rightarrow> string option" where
  "render [] args = Some []"
| "render (c # fmt) args =
     (if c \<noteq> CHR ''%'' then map_option (Cons c) (render fmt args)
      else let (pad, width, fmt2) = parse_flags fmt
      in (case fmt2 of
            [] \<Rightarrow> None
          | conv # fmt3 \<Rightarrow>
              (case render_conv conv width pad args of
                 None \<Rightarrow> None
               | Some (r, args1) \<Rightarrow> map_option (append r) (render fmt3 args1))))"
  by pat_completeness auto
termination
proof (relation "measure (\<lambda>(fmt, args). length fmt)", goal_cases)
  case (3 c fmt args x pad y width fmt2 conv fmt3 z r args1)
  then have "length fmt2 \<le> length fmt" using parse_flags_length [of fmt pad width fmt2] by simp
  with 3 show ?case by auto
qed auto

declare render.simps(2) [simp del]

lemma put_str_eq: "put_str n s out = (if length out \<le> n - 1 then take (n - 1) (out @ s) else out)"
proof (induction n s out rule: put_str.induct)
  case (2 n c cs out)
  show ?case
  proof (cases "int (length out) < int n - 1")
    case True
    then show ?thesis using 2 by simp
  next
    case False
    then have "\<not> length out < n - 1" by linarith
    then show ?thesis using False by auto
  qed
qed auto

lemma with_int_Some: "with_int args f = Some (r, rest) \<Longrightarrow> \<exists>v. take_int args = Inr (v, rest) \<and> r = f v"
  by (auto simp: with_int_def split: sum.splits)

lemma vsn_conv_render:
  assumes r: "render_conv c width pad args = Some (r, args1)" and len: "length out + length r + 1 < n"
  shows "vsn_conv n c width pad args out = Inr (out @ r, args1)"
proof -
  consider "c = CHR ''c''" | "c = CHR ''s''" | "c = CHR ''p''" | "c = CHR ''d''" | "c = CHR ''x''" | "c = CHR ''b''"
    | "c \<notin> {CHR ''c'', CHR ''s'', CHR ''p'', CHR ''d'', CHR ''x'', CHR ''b''}" by blast
  then show ?thesis
  proof cases
    case 1
    with r obtain v where "take_int args = Inr (v, args1)" "r = [char_of (unat v mod 256)]"
      unfolding render_conv_def by (auto dest: with_int_Some)
    with 1 len show ?thesis by (simp add: vsn_conv_def put_char_def)
  next
    case 2
    with r have "take_str args = Inr (r, args1)" unfolding render_conv_def by (auto split: sum.splits)
    with 2 len show ?thesis by (auto simp: vsn_conv_def put_str_eq)
  next
    case 3
    with r obtain v where "take_int args = Inr (v, args1)" "r = ''0x'' @ number 16 v 16 CHR ''0''"
      unfolding render_conv_def by (auto dest: with_int_Some)
    moreover have "16 \<le> length (number 16 v 16 CHR ''0'')" by (simp add: number_def Let_def)
    moreover from calculation have "int (length out) < int n - 19" using len by simp
    ultimately show ?thesis using 3 len by (simp add: vsn_conv_def put_chars_eq ksprint_int_eq)
  next
    case 4
    with r obtain v where "take_int args = Inr (v, args1)" "width \<le> 65"
      "r = (if sint v < 0 then CHR ''-'' # number 10 (- v) width pad else number 10 v width pad)"
      unfolding render_conv_def by (auto dest: with_int_Some split: if_splits)
    with 4 len show ?thesis by (simp add: vsn_conv_def put_char_def ksprint_int_eq split: if_splits)
  next
    case 5
    with r obtain v where "take_int args = Inr (v, args1)" "width \<le> 65" "r = number 16 v width pad"
      unfolding render_conv_def by (auto dest: with_int_Some split: if_splits)
    with 5 len show ?thesis by (simp add: vsn_conv_def ksprint_int_eq)
  next
    case 6
    with r obtain v where "take_int args = Inr (v, args1)" "width \<le> 65" "r = number 2 v width pad"
      unfolding render_conv_def by (auto dest: with_int_Some split: if_splits)
    with 6 len show ?thesis by (simp add: vsn_conv_def ksprint_int_eq)
  next
    case 7
    with r len show ?thesis unfolding render_conv_def vsn_conv_def by (simp add: put_char_def)
  qed
qed

lemma vsn_loop_render:
  "render fmt args = Some r \<Longrightarrow> length out + length r + 1 < n \<Longrightarrow> vsn_loop n fmt args out = Inr (out @ r)"
proof (induction fmt args arbitrary: out r rule: render.induct)
  case (2 c fmt args)
  show ?case
  proof (cases "c = CHR ''%''")
    case False
    then obtain r1 where "render fmt args = Some r1" "r = c # r1" using 2 by (auto simp: render.simps(2))
    then show ?thesis using 2(1) [of r1 "out @ [c]"] 2(4) False by (auto simp: vsn_loop.simps(2) put_char_def)
  next
    case True
    obtain pad width fmt2 where pf: "parse_flags fmt = (pad, width, fmt2)" by (cases "parse_flags fmt") auto
    obtain conv fmt3 where f2: "fmt2 = conv # fmt3"
      using 2(3) True pf by (auto simp: render.simps(2) split: list.splits)
    obtain r1 args1 r2 where rc: "render_conv conv width pad args = Some (r1, args1)"
      and rr: "render fmt3 args1 = Some r2" and r: "r = r1 @ r2"
      using 2(3) True pf f2 by (auto simp: render.simps(2) split: option.splits)
    have "vsn_conv n conv width pad args out = Inr (out @ r1, args1)" using rc 2(4) r by (intro vsn_conv_render) auto
    moreover have "vsn_loop n fmt3 args1 (out @ r1) = Inr ((out @ r1) @ r2)"
      using True pf f2 rc rr r 2(4) by (intro 2(2) [OF _ refl pf [symmetric] refl f2 rc refl rr]) auto
    ultimately show ?thesis using True pf f2 r 2(4) by (auto simp: vsn_loop.simps(2))
  qed
qed simp

section \<open>Properties\<close>

text \<open>
  C28. \<^verbatim>\<open>ksprint_int\<close> prints a number in base 2, 10 or 16 as characters that read back as the same number:
  for every value, width up to 65 and buffer with room for them, the characters appended are the padding
  followed by digits whose value is the number, in the field width asked for or more if the number needs it.
\<close>

theorem ksprint_int_roundtrip:
  assumes "base \<in> {2, 10, 16}" and "width \<le> 65" and "length out + 65 \<le> n"
  shows "\<exists>k ds. ksprint_int n val base width pad out = Inr (out @ replicate k pad @ ds)
           \<and> value_of (unat base) ds = unat val \<and> k + length ds = max (nat width) (length ds)"
proof -
  have b: "2 \<le> unat base" "unat base \<le> 16" using assms(1) by auto
  let ?ds = "digits_of (unat base) (unat val)" and ?k = "nat width - length (digits_of (unat base) (unat val))"
  have "length ?ds \<le> 64" by (rule digits_of_u64 [OF b(1)])
  then have "length (number (unat base) val width pad) \<le> 65" using assms(2) by (auto simp: number_def Let_def)
  then have "ksprint_int n val base width pad out = Inr (out @ replicate ?k pad @ ?ds)"
    using assms b by (simp add: ksprint_int_eq number_def Let_def)
  moreover have "?k + length ?ds = max (nat width) (length ?ds)" by auto
  ultimately show ?thesis using value_of_digits [OF b, of "unat val"] by blast
qed

theorem ksprint_int_roundtrip_witness:
  "\<exists>k ds. ksprint_int 80 48879 16 6 CHR ''0'' ''0x'' = Inr (''0x'' @ replicate k CHR ''0'' @ ds)
     \<and> value_of 16 ds = 48879 \<and> k + length ds = max 6 (length ds)"
  using ksprint_int_roundtrip [of 16 6 "''0x''" 80 48879 "CHR ''0''"] by simp

text \<open>
  C27. \<^verbatim>\<open>vsnprintf\<close> agrees with the reference rendering: whenever the format and the arguments fit together and the
  text is at least two characters shorter than the buffer, the buffer holds exactly the text and its terminator,
  and the text's length is returned.
\<close>

theorem vsnprintf_reference:
  assumes "render fmt args = Some r" and "length r + 1 < n"
  shows "vsnprintf n fmt args = Inr (r @ [CHR 0x00], length r)"
  using vsn_loop_render [OF assms(1), of "[]" n] assms(2) by (simp add: vsnprintf_def put_char_def)

lemma render_sample: "render ''tid %d: %5x%s'' [VaInt (- 7), VaInt 255, VaStr None] = Some ''tid -7:    ff(null)''"
  by code_simp

theorem vsnprintf_reference_witness:
  "vsnprintf 64 ''tid %d: %5x%s'' [VaInt (- 7), VaInt 255, VaStr None] = Inr (''tid -7:    ff(null)'' @ [CHR 0x00], 19)"
  using vsnprintf_reference [OF render_sample, of 64] by simp

text \<open>Formats whose conversions are bounded by the loop itself: characters, strings and literal text.\<close>

function plain_fmt :: "string \<Rightarrow> bool" where
  "plain_fmt [] = True"
| "plain_fmt (c # fmt) =
     (if c \<noteq> CHR ''%'' then plain_fmt fmt
      else let (pad, width, fmt2) = parse_flags fmt
      in (case fmt2 of [] \<Rightarrow> True
          | conv # fmt3 \<Rightarrow> conv \<notin> {CHR ''d'', CHR ''x'', CHR ''b'', CHR ''p''} \<and> plain_fmt fmt3))"
  by pat_completeness auto
termination
proof (relation "measure length", goal_cases)
  case (3 c fmt x pad y width fmt2 conv fmt3)
  then have "length fmt2 \<le> length fmt" using parse_flags_length [of fmt pad width fmt2] by simp
  with 3 show ?case by auto
qed auto

declare plain_fmt.simps(2) [simp del]

lemma vsn_conv_plain:
  assumes "render_conv c width pad args = Some (r, args1)" and "c \<notin> {CHR ''d'', CHR ''x'', CHR ''b'', CHR ''p''}"
    and "length out < n - 1"
  shows "vsn_conv n c width pad args out = Inr (take (n - 1) (out @ r), args1)"
proof -
  consider "c = CHR ''c''" | "c = CHR ''s''" | "c \<notin> {CHR ''c'', CHR ''s'', CHR ''p'', CHR ''d'', CHR ''x'', CHR ''b''}"
    using assms(2) by blast
  then show ?thesis
  proof cases
    case 1
    with assms(1) obtain v where "take_int args = Inr (v, args1)" "r = [char_of (unat v mod 256)]"
      unfolding render_conv_def by (auto dest: with_int_Some)
    with 1 assms(3) show ?thesis by (simp add: vsn_conv_def put_char_def)
  next
    case 2
    with assms(1) have "take_str args = Inr (r, args1)" unfolding render_conv_def by (auto split: sum.splits)
    with 2 assms(3) show ?thesis by (simp add: vsn_conv_def put_str_eq)
  next
    case 3
    with assms(1,3) show ?thesis unfolding render_conv_def vsn_conv_def by (auto simp: put_char_def)
  qed
qed

lemma take_take_append: "take m (take m xs @ ys) = take m (xs @ ys)"
  by (cases "length xs \<le> m") auto

lemma vsn_loop_plain:
  "plain_fmt fmt \<Longrightarrow> render fmt args = Some r \<Longrightarrow> length out \<le> n - 1 \<Longrightarrow> 0 < n \<Longrightarrow>
   vsn_loop n fmt args out = Inr (take (n - 1) (out @ r))"
proof (induction fmt args arbitrary: out r rule: render.induct)
  case (2 c fmt args)
  show ?case
  proof (cases "length out = n - 1")
    case True
    then show ?thesis using 2(6) by (simp add: vsn_loop.simps(2))
  next
    case room: False
    then have lt: "length out < n - 1" "int (length out) < int n - 1" using 2(5) by linarith+
    show ?thesis
    proof (cases "c = CHR ''%''")
      case False
      then obtain r1 where "render fmt args = Some r1" "r = c # r1" using 2(4) by (auto simp: render.simps(2))
      then show ?thesis using 2(1) [of r1 "out @ [c]"] 2(3,6) lt False
        by (auto simp: vsn_loop.simps(2) put_char_def plain_fmt.simps(2))
    next
      case True
      obtain pad width fmt2 where pf: "parse_flags fmt = (pad, width, fmt2)" by (cases "parse_flags fmt") auto
      obtain conv fmt3 where f2: "fmt2 = conv # fmt3"
        using 2(4) True pf by (auto simp: render.simps(2) split: list.splits)
      obtain r1 args1 r2 where rc: "render_conv conv width pad args = Some (r1, args1)"
        and rr: "render fmt3 args1 = Some r2" and r: "r = r1 @ r2"
        using 2(4) True pf f2 by (auto simp: render.simps(2) split: option.splits)
      have pl: "conv \<notin> {CHR ''d'', CHR ''x'', CHR ''b'', CHR ''p''}" "plain_fmt fmt3"
        using 2(3) True pf f2 by (simp_all add: plain_fmt.simps(2))
      let ?o = "take (n - 1) (out @ r1)"
      have "vsn_conv n conv width pad args out = Inr (?o, args1)" by (rule vsn_conv_plain [OF rc pl(1) lt(1)])
      moreover have "vsn_loop n fmt3 args1 ?o = Inr (take (n - 1) (?o @ r2))"
        using True pl(2) 2(6) by (intro 2(2) [OF _ refl pf [symmetric] refl f2 rc refl _ rr]) auto
      moreover have "take (n - 1) (?o @ r2) = take (n - 1) (out @ r)" using r take_take_append [of "n - 1" "out @ r1" r2] by simp
      ultimately show ?thesis using True pf f2 lt(2) by (simp add: vsn_loop.simps(2))
    qed
  qed
qed simp

text \<open>
  C29. With characters, strings and literal text only, \<^verbatim>\<open>vsnprintf\<close> stays inside its buffer, however long the strings
  are: it stores the first \<open>n - 1\<close> characters of the reference rendering and a terminator, and returns their number.
\<close>

theorem vsnprintf_truncates:
  assumes "plain_fmt fmt" and "render fmt args = Some r" and "0 < n"
  shows "vsnprintf n fmt args = Inr (take (n - 1) r @ [CHR 0x00], min (length r) (n - 1))"
  using vsn_loop_plain [OF assms(1,2), of "[]" n] assms(3) by (simp add: vsnprintf_def put_char_def)

lemma render_sample2: "render ''<%s>'' [VaStr (Some ''overlong'')] = Some ''<overlong>''"
  by code_simp

theorem vsnprintf_truncates_witness:
  "vsnprintf 6 ''<%s>'' [VaStr (Some ''overlong'')] = Inr (''<over'' @ [CHR 0x00], 5)"
  using vsnprintf_truncates [OF _ render_sample2, of 6]
  by (simp add: plain_fmt.simps(2) parse_flags_def is_digit_def)

text \<open>
  C39. Numbers are not bounded: after a string that leaves fewer than 16 bytes of the 512-byte buffer of
  \<^verbatim>\<open>kprintf\<close>, a \<^verbatim>\<open>%x\<close> writes past the end of the buffer, although \<^verbatim>\<open>vsnprintf\<close> was given its size.
\<close>

theorem vsnprintf_overflow:
  assumes "497 \<le> length s" and "length s \<le> 510"
  shows "vsnprintf 512 ''%s%x'' [VaStr (Some s), VaInt 0xFFFFFFFFFFFFFFFF] = Inl OutOfBounds"
proof -
  have "length (number 16 0xFFFFFFFFFFFFFFFF 0 CHR '' '') = 16" by (simp add: number_def digits_of.simps)
  then have "ksprint_int 512 0xFFFFFFFFFFFFFFFF 16 0 CHR '' '' s = Inl OutOfBounds"
    using assms by (simp add: ksprint_int_eq)
  then show ?thesis using assms
    by (simp add: vsnprintf_def vsn_loop.simps(2) parse_flags_def is_digit_def vsn_conv_def take_str_def take_int_def
        put_str_eq)
qed

theorem vsnprintf_overflow_witness:
  "vsnprintf 512 ''%s%x'' [VaStr (Some (replicate 500 CHR ''a'')), VaInt 0xFFFFFFFFFFFFFFFF] = Inl OutOfBounds"
  by (rule vsnprintf_overflow) simp_all

end
