(* ===== verification/Slab.thy ===== *)
theory Slab
  imports Vmm
begin

text \<open>
  Definitions for \<^verbatim>\<open>kernel/memory/slab.c\<close>. A slab is one page: its header \<^verbatim>\<open>slab_t\<close> at the start of the page, then
  equal-sized objects, the free ones linked through their first word. Headers and objects live in the words
  of physical memory (\<open>pt_mem\<close>), reached through the kernel's pointers, at the offsets the C compiler
  gives the fields on x86_64: \<^verbatim>\<open>magic\<close> 0, \<^verbatim>\<open>parent_cache\<close> 8, \<^verbatim>\<open>free_list\<close> 16,
  \<^verbatim>\<open>free_count\<close> 24, \<^verbatim>\<open>next\<close> 32, \<^verbatim>\<open>prev\<close> 40, \<^verbatim>\<open>data\<close> 48, size 56. A \<^verbatim>\<open>slab_cache_t*\<close> is
  represented by the index of the cache in \<^verbatim>\<open>kmalloc_caches\<close>.
\<close>

section \<open>State\<close>

record slab_cache =
  obj_size :: u64
  partial_slabs :: u64
  full_slabs :: u64
  empty_slabs :: u64
  cache_lock :: spinlock

record slab_state = vmm_state +
  kmalloc_caches :: "nat \<Rightarrow> slab_cache"

abbreviation NUM_KMALLOC_CACHES :: nat where "NUM_KMALLOC_CACHES \<equiv> 8"

definition cache_sizes :: "u64 list" where
  "cache_sizes = [16, 32, 64, 128, 256, 512, 1024, 2048]"

abbreviation SLAB_MAGIC :: u32 where "SLAB_MAGIC \<equiv> 0x51AB51AB"
abbreviation SIZEOF_SLAB :: u64 where "SIZEOF_SLAB \<equiv> 56"

section \<open>Memory\<close>

text \<open>A field of the structure at \<open>p\<close>: a 64-bit word, or the low half of one.\<close>

definition load64 :: "'a vmm_state_scheme \<Rightarrow> u64 \<Rightarrow> u64 \<Rightarrow> u64 res" where
  "load64 s p off = (if p = 0 then Inl NullDeref else Inr (pt_mem s (ptr_phys s (p + off))))"

definition store64 :: "u64 \<Rightarrow> u64 \<Rightarrow> u64 \<Rightarrow> 'a vmm_state_scheme \<Rightarrow> 'a vmm_state_scheme res" where
  "store64 p off v s =
     (if p = 0 then Inl NullDeref else Inr (s\<lparr>pt_mem := (pt_mem s)(ptr_phys s (p + off) := v)\<rparr>))"

definition load32 :: "'a vmm_state_scheme \<Rightarrow> u64 \<Rightarrow> u64 \<Rightarrow> u32 res" where
  "load32 s p off = bind_res (load64 s p off) (\<lambda>w. Inr (ucast w))"

definition store32 :: "u64 \<Rightarrow> u64 \<Rightarrow> u32 \<Rightarrow> 'a vmm_state_scheme \<Rightarrow> 'a vmm_state_scheme res" where
  "store32 p off v s =
     bind_res (load64 s p off) (\<lambda>w. store64 p off ((w AND NOT (mask 32)) OR ucast v) s)"

text \<open>
  \<^verbatim>\<open>memset(p, 0, n)\<close> for a word-aligned \<open>p\<close>: the words that lie in the range are cleared, of the last one
  only the first bytes if the range ends inside it.
\<close>

definition memset_zero :: "u64 \<Rightarrow> u64 \<Rightarrow> 'a vmm_state_scheme \<Rightarrow> 'a vmm_state_scheme res" where
  "memset_zero p n s =
     (if n = 0 then Inr s
      else if p = 0 then Inl NullDeref
      else Inr (s\<lparr>pt_mem := (\<lambda>a. let d = a - ptr_phys s p in
              if d < n then (if n - d \<ge> 8 then 0 else pt_mem s a AND NOT (mask (8 * unat (n - d)))) else pt_mem s a)\<rparr>))"

section \<open>The lists of slabs of a cache\<close>

datatype slab_list = PartialSlabs | FullSlabs | EmptySlabs

fun list_head :: "slab_list \<Rightarrow> slab_cache \<Rightarrow> u64" where
  "list_head PartialSlabs c = partial_slabs c"
| "list_head FullSlabs c = full_slabs c"
| "list_head EmptySlabs c = empty_slabs c"

fun set_list_head :: "slab_list \<Rightarrow> u64 \<Rightarrow> slab_cache \<Rightarrow> slab_cache" where
  "set_list_head PartialSlabs p c = c\<lparr>partial_slabs := p\<rparr>"
| "set_list_head FullSlabs p c = c\<lparr>full_slabs := p\<rparr>"
| "set_list_head EmptySlabs p c = c\<lparr>empty_slabs := p\<rparr>"

definition set_head :: "nat \<Rightarrow> slab_list \<Rightarrow> u64 \<Rightarrow> 'a slab_state_scheme \<Rightarrow> 'a slab_state_scheme" where
  "set_head ci l p s =
     s\<lparr>kmalloc_caches := (kmalloc_caches s)(ci := set_list_head l p (kmalloc_caches s ci))\<rparr>"

definition slab_list_remove ::
  "nat \<Rightarrow> slab_list \<Rightarrow> u64 \<Rightarrow> 'a slab_state_scheme \<Rightarrow> 'a slab_state_scheme res" where
  "slab_list_remove ci l slab s =
     bind_res (load64 s slab 40) (\<lambda>prev.
     bind_res (load64 s slab 32) (\<lambda>nxt.
     bind_res (if prev \<noteq> 0 then store64 prev 32 nxt s else Inr s) (\<lambda>s1.
     bind_res (load64 s1 slab 32) (\<lambda>nxt1.
     bind_res (load64 s1 slab 40) (\<lambda>prev1.
     bind_res (if nxt1 \<noteq> 0 then store64 nxt1 40 prev1 s1 else Inr s1) (\<lambda>s2.
     bind_res (load64 s2 slab 32) (\<lambda>nxt2.
     let s3 = (if list_head l (kmalloc_caches s2 ci) = slab then set_head ci l nxt2 s2 else s2)
     in bind_res (store64 slab 40 0 s3) (\<lambda>s4.
        store64 slab 32 0 s4))))))))"

definition slab_list_push ::
  "nat \<Rightarrow> slab_list \<Rightarrow> u64 \<Rightarrow> 'a slab_state_scheme \<Rightarrow> 'a slab_state_scheme res" where
  "slab_list_push ci l slab s =
     (let head = list_head l (kmalloc_caches s ci)
      in bind_res (store64 slab 32 head s) (\<lambda>s1.
         bind_res (store64 slab 40 0 s1) (\<lambda>s2.
         bind_res (if head \<noteq> 0 then store64 head 40 slab s2 else Inr s2) (\<lambda>s3.
         Inr (set_head ci l slab s3)))))"

section \<open>Growing a cache\<close>

text \<open>The loop that links \<open>n\<close> further objects after \<open>cur\<close>, then ends the list.\<close>

function slab_link_objs :: "u64 \<Rightarrow> u64 \<Rightarrow> u64 \<Rightarrow> u64 \<Rightarrow> 'a vmm_state_scheme \<Rightarrow> 'a vmm_state_scheme res" where
  "slab_link_objs cur osize n i s =
     (if i < n then
        bind_res (store64 cur 0 (cur + osize) s) (\<lambda>s1.
        bind_res (load64 s1 cur 0) (\<lambda>cur1.
          slab_link_objs cur1 osize n (i + 1) s1))
      else store64 cur 0 0 s)"
  by pat_completeness auto
termination
  by (relation "measure (\<lambda>(cur, osize, n, i, s). unat n - unat i)") auto

declare slab_link_objs.simps [simp del]

text \<open>The result of the frame allocator is not tested.\<close>

definition slab_grow :: "cpu_env \<Rightarrow> nat \<Rightarrow> 'a slab_state_scheme \<Rightarrow> 'a slab_state_scheme res" where
  "slab_grow env ci s =
     bind_res (pmm_alloc_frame env s) (\<lambda>(frame, s1).
       let virt = phys_to_virt frame;
           slab = virt
       in bind_res (store32 slab 0 SLAB_MAGIC s1) (\<lambda>s2.
          bind_res (store64 slab 8 (of_nat ci) s2) (\<lambda>s3.
          let start = (virt + SIZEOF_SLAB + 15) AND NOT 15
          in bind_res (store64 slab 16 start s3) (\<lambda>s4.
             let osize = obj_size (kmalloc_caches s4 ci)
             in if osize = 0 then Inl DivideError
                else let max_objs = (virt + 4096 - start) div osize
                in bind_res (store64 slab 24 max_objs s4) (\<lambda>s5.
                   bind_res (load64 s5 slab 16) (\<lambda>cur.
                   bind_res (slab_link_objs cur osize (max_objs - 1) 0 s5) (\<lambda>s6.
                   slab_list_push ci EmptySlabs slab s6)))))))"

definition slab_init :: "cpu_env \<Rightarrow> 'a slab_state_scheme \<Rightarrow> 'a slab_state_scheme res" where
  "slab_init env s =
     for_each (\<lambda>i t.
       slab_grow env i (t\<lparr>kmalloc_caches := (kmalloc_caches t)(i :=
         \<lparr>obj_size = cache_sizes ! i, partial_slabs = 0, full_slabs = 0, empty_slabs = 0,
          cache_lock = spinlock_init\<rparr>)\<rparr>))
       [0 ..< NUM_KMALLOC_CACHES] s"

section \<open>Allocating and freeing objects\<close>

definition slab_unlock :: "cpu_env \<Rightarrow> nat \<Rightarrow> 'a slab_state_scheme \<Rightarrow> 'a slab_state_scheme" where
  "slab_unlock env ci s =
     s\<lparr>kmalloc_caches := (kmalloc_caches s)(ci :=
        (kmalloc_caches s ci)\<lparr>cache_lock := spin_unlock env (cache_lock (kmalloc_caches s ci))\<rparr>)\<rparr>"

definition slab_lock ::
  "cpu_env \<Rightarrow> nat \<Rightarrow> 'a slab_state_scheme \<Rightarrow> 'a slab_state_scheme res" where
  "slab_lock env ci s =
     bind_res (spin_lock env (cache_lock (kmalloc_caches s ci))) (\<lambda>l.
       Inr (s\<lparr>kmalloc_caches := (kmalloc_caches s)(ci := (kmalloc_caches s ci)\<lparr>cache_lock := l\<rparr>)\<rparr>))"

text \<open>The slab an object is taken from: a partial one, else an empty one, which becomes partial.\<close>

definition slab_pick :: "cpu_env \<Rightarrow> nat \<Rightarrow> 'a slab_state_scheme \<Rightarrow> (u64 \<times> 'a slab_state_scheme) res" where
  "slab_pick env ci s =
     (if partial_slabs (kmalloc_caches s ci) \<noteq> 0 then Inr (partial_slabs (kmalloc_caches s ci), s)
      else bind_res (if empty_slabs (kmalloc_caches s ci) = 0 then slab_grow env ci s else Inr s) (\<lambda>s1.
        let slab = empty_slabs (kmalloc_caches s1 ci)
        in bind_res (slab_list_remove ci EmptySlabs slab s1) (\<lambda>s2.
           bind_res (slab_list_push ci PartialSlabs slab s2) (\<lambda>s3.
           Inr (slab, s3)))))"

definition slab_cache_alloc ::
  "cpu_env \<Rightarrow> nat \<Rightarrow> 'a slab_state_scheme \<Rightarrow> (u64 \<times> 'a slab_state_scheme) res" where
  "slab_cache_alloc env ci s =
     bind_res (slab_lock env ci s) (\<lambda>s1.
     bind_res (slab_pick env ci s1) (\<lambda>(slab, s2).
     bind_res (load64 s2 slab 16) (\<lambda>obj.
     bind_res (load64 s2 obj 0) (\<lambda>nxt.
     bind_res (store64 slab 16 nxt s2) (\<lambda>s3.
     bind_res (load64 s3 slab 24) (\<lambda>cnt.
     bind_res (store64 slab 24 (cnt - 1) s3) (\<lambda>s4.
     bind_res (if cnt - 1 = 0
               then bind_res (slab_list_remove ci PartialSlabs slab s4) (slab_list_push ci FullSlabs slab)
               else Inr s4) (\<lambda>s5.
     Inr (obj, slab_unlock env ci s5)))))))))"

fun find_cache :: "u64 \<Rightarrow> nat list \<Rightarrow> nat option" where
  "find_cache sz [] = None"
| "find_cache sz (i # is) = (if sz \<le> cache_sizes ! i then Some i else find_cache sz is)"

definition slab_alloc :: "cpu_env \<Rightarrow> u64 \<Rightarrow> 'a slab_state_scheme \<Rightarrow> (u64 \<times> 'a slab_state_scheme) res" where
  "slab_alloc env sz s =
     (case find_cache sz [0 ..< NUM_KMALLOC_CACHES] of
        Some i \<Rightarrow> slab_cache_alloc env i s
      | None \<Rightarrow> Inr (0, s))"

definition slab_cache_free ::
  "cpu_env \<Rightarrow> nat \<Rightarrow> u64 \<Rightarrow> 'a slab_state_scheme \<Rightarrow> 'a slab_state_scheme res" where
  "slab_cache_free env ci ptr s =
     (let slab = ptr AND NOT 0xFFF
      in bind_res (slab_lock env ci s) (\<lambda>s1.
         bind_res (load64 s1 slab 16) (\<lambda>fl.
         bind_res (store64 ptr 0 fl s1) (\<lambda>s2.
         bind_res (store64 slab 16 ptr s2) (\<lambda>s3.
         bind_res (load64 s3 slab 24) (\<lambda>cnt.
         bind_res (store64 slab 24 (cnt + 1) s3) (\<lambda>s4.
         let osize = obj_size (kmalloc_caches s4 ci)
         in if osize = 0 then Inl DivideError
            else let max_objs = (4096 - SIZEOF_SLAB) div osize
            in bind_res
                 (if cnt + 1 = 1
                  then bind_res (slab_list_remove ci FullSlabs slab s4) (slab_list_push ci PartialSlabs slab)
                  else if cnt + 1 = max_objs
                  then bind_res (slab_list_remove ci PartialSlabs slab s4) (slab_list_push ci EmptySlabs slab)
                  else Inr s4) (\<lambda>s5.
               Inr (slab_unlock env ci s5)))))))))"

definition slab_free_msg :: string where
  "slab_free_msg = ''SLAB: Attempted to free a pointer that is not a valid slab object!''"

definition slab_free :: "cpu_env \<Rightarrow> u64 \<Rightarrow> 'a slab_state_scheme \<Rightarrow> 'a slab_state_scheme res" where
  "slab_free env ptr s =
     (if ptr = 0 then Inr s
      else let slab = ptr AND NOT 0xFFF
      in bind_res (load32 s slab 0) (\<lambda>magic.
         if magic \<noteq> SLAB_MAGIC then Inl (KPanic slab_free_msg)
         else bind_res (load64 s slab 8) (\<lambda>parent_cache.
              slab_cache_free env (unat parent_cache) ptr s)))"

definition get_slab_from_ptr :: "u64 \<Rightarrow> u64" where
  "get_slab_from_ptr ptr = ptr AND NOT 0xFFF"

end
