(* ===== verification/Kmalloc.thy ===== *)
theory Kmalloc
  imports Slab
begin

text \<open>
  Definitions for \<^verbatim>\<open>kernel/memory/kmalloc.c\<close>: small requests go to the slab allocator, larger ones to a
  doubly linked list of blocks with a header in front of each. The header \<^verbatim>\<open>m_header_t\<close> lies in memory at the
  offsets of the C layout: \<^verbatim>\<open>magic\<close> 0, \<^verbatim>\<open>size\<close> 8, \<^verbatim>\<open>is_free\<close> 16, \<^verbatim>\<open>next\<close> 24,
  \<^verbatim>\<open>prev\<close> 32, size 40. The diagnostic \<^verbatim>\<open>kmalloc_dump\<close> only prints.
\<close>

record heap_state = slab_state +
  heap_lock :: spinlock
  heap_start :: u64

abbreviation KMALLOC_MAGIC :: u32 where "KMALLOC_MAGIC \<equiv> 0xCAFEBABE"
abbreviation HEAP_MIN_BLOCK_SIZE :: u64 where "HEAP_MIN_BLOCK_SIZE \<equiv> 16"
abbreviation SIZEOF_HEADER :: u64 where "SIZEOF_HEADER \<equiv> 40"

abbreviation H_SIZE :: u64 where "H_SIZE \<equiv> 8"
abbreviation H_FREE :: u64 where "H_FREE \<equiv> 16"
abbreviation H_NEXT :: u64 where "H_NEXT \<equiv> 24"
abbreviation H_PREV :: u64 where "H_PREV \<equiv> 32"

definition first_frame_msg :: string where
  "first_frame_msg = ''KMALLOC: Failed to allocate first frame for heap!''"

definition kmalloc_init :: "cpu_env \<Rightarrow> 'a heap_state_scheme \<Rightarrow> 'a heap_state_scheme res" where
  "kmalloc_init env s =
     bind_res (pmm_alloc_frame env s) (\<lambda>(first_frame, s1).
       if first_frame = 0 then Inl (KPanic first_frame_msg)
       else let virt_addr = phys_to_virt first_frame
       in bind_res (memset_zero virt_addr 4096 s1) (\<lambda>s2.
          let s3 = s2\<lparr>heap_start := virt_addr\<rparr>
          in bind_res (store32 virt_addr 0 KMALLOC_MAGIC s3) (\<lambda>s4.
             bind_res (store64 virt_addr H_SIZE (4096 - SIZEOF_HEADER) s4) (\<lambda>s5.
             bind_res (store32 virt_addr H_FREE 1 s5) (\<lambda>s6.
             bind_res (store64 virt_addr H_NEXT 0 s6) (\<lambda>s7.
             bind_res (store64 virt_addr H_PREV 0 s7) (\<lambda>s8.
             slab_init env s8)))))))"

text \<open>
  The search for the first free block of at least \<open>sz\<close> bytes: the block found, or \<open>0\<close> and the last block.
\<close>

partial_function (option) kmalloc_find ::
  "'a heap_state_scheme \<Rightarrow> u64 \<Rightarrow> u64 \<Rightarrow> u64 \<Rightarrow> (u64 \<times> u64) res option" where
  "kmalloc_find s sz current lastb =
     (if current = 0 then Some (Inr (0, lastb))
      else case load32 s current H_FREE of
        Inl e \<Rightarrow> Some (Inl e)
      | Inr is_free \<Rightarrow>
          (case load64 s current H_SIZE of
             Inl e \<Rightarrow> Some (Inl e)
           | Inr csize \<Rightarrow>
               if is_free \<noteq> 0 \<and> csize \<ge> sz then Some (Inr (current, lastb))
               else (case load64 s current H_NEXT of
                       Inl e \<Rightarrow> Some (Inl e)
                     | Inr nxt \<Rightarrow> kmalloc_find s sz nxt current)))"

text \<open>Splitting off the tail of the block \<open>current\<close> when it is large enough to hold a block of its own.\<close>

definition kmalloc_split :: "u64 \<Rightarrow> u64 \<Rightarrow> 'a heap_state_scheme \<Rightarrow> 'a heap_state_scheme res" where
  "kmalloc_split current sz s =
     bind_res (load64 s current H_SIZE) (\<lambda>csize.
       if csize \<ge> sz + SIZEOF_HEADER + HEAP_MIN_BLOCK_SIZE then
         let next_block = current + SIZEOF_HEADER + sz
         in bind_res (store32 next_block 0 KMALLOC_MAGIC s) (\<lambda>s1.
            bind_res (load64 s1 current H_SIZE) (\<lambda>csize1.
            bind_res (store64 next_block H_SIZE (csize1 - sz - SIZEOF_HEADER) s1) (\<lambda>s2.
            bind_res (store32 next_block H_FREE 1 s2) (\<lambda>s3.
            bind_res (load64 s3 current H_NEXT) (\<lambda>cnext.
            bind_res (store64 next_block H_NEXT cnext s3) (\<lambda>s4.
            bind_res (store64 next_block H_PREV current s4) (\<lambda>s5.
            bind_res (load64 s5 next_block H_NEXT) (\<lambda>nnext.
            bind_res (if nnext \<noteq> 0 then store64 nnext H_PREV next_block s5 else Inr s5) (\<lambda>s6.
            bind_res (store64 current H_SIZE sz s6) (\<lambda>s7.
            store64 current H_NEXT next_block s7))))))))))
       else Inr s)"

text \<open>The second part: the heap grows by whole frames, outside the lock.\<close>

definition kmalloc_expand ::
  "cpu_env \<Rightarrow> u64 \<Rightarrow> u64 \<Rightarrow> 'a heap_state_scheme \<Rightarrow> (u64 \<times> 'a heap_state_scheme) res" where
  "kmalloc_expand env sz lastb s =
     (let required_with_header = sz + SIZEOF_HEADER;
          num_frames = (required_with_header + 4095) div 4096
      in bind_res (pmm_alloc_frames env num_frames s) (\<lambda>(new_frames, s1).
           if new_frames = 0 then Inr (0, s1)
           else let virt_addr = phys_to_virt new_frames;
                    new_block = virt_addr
           in bind_res (memset_zero virt_addr (num_frames * 4096) s1) (\<lambda>s2.
              bind_res (spin_lock env (heap_lock s2)) (\<lambda>l.
              let s3 = s2\<lparr>heap_lock := l\<rparr>
              in bind_res (store32 new_block 0 KMALLOC_MAGIC s3) (\<lambda>s4.
                 bind_res (store64 new_block H_SIZE (num_frames * 4096 - SIZEOF_HEADER) s4) (\<lambda>s5.
                 bind_res (store32 new_block H_FREE 0 s5) (\<lambda>s6.
                 bind_res (store64 new_block H_NEXT 0 s6) (\<lambda>s7.
                 bind_res (store64 new_block H_PREV lastb s7) (\<lambda>s8.
                 bind_res (load64 s8 new_block H_SIZE) (\<lambda>nsize.
                 bind_res
                   (if nsize \<ge> sz + SIZEOF_HEADER + HEAP_MIN_BLOCK_SIZE then
                      let split_block = new_block + SIZEOF_HEADER + sz
                      in bind_res (store32 split_block 0 KMALLOC_MAGIC s8) (\<lambda>t1.
                         bind_res (store64 split_block H_SIZE (nsize - sz - SIZEOF_HEADER) t1) (\<lambda>t2.
                         bind_res (store32 split_block H_FREE 1 t2) (\<lambda>t3.
                         bind_res (store64 split_block H_NEXT 0 t3) (\<lambda>t4.
                         bind_res (store64 new_block H_SIZE sz t4) (\<lambda>t5.
                         bind_res (store64 new_block H_NEXT split_block t5) (\<lambda>t6.
                         store64 split_block H_PREV new_block t6))))))
                    else Inr s8) (\<lambda>s9.
                 bind_res
                   (if lastb \<noteq> 0 then store64 lastb H_NEXT new_block s9
                    else store64 new_block H_PREV 0 (s9\<lparr>heap_start := new_block\<rparr>)) (\<lambda>s10.
                 Inr (new_block + SIZEOF_HEADER,
                      s10\<lparr>heap_lock := spin_unlock env (heap_lock s10)\<rparr>)))))))))))))"

definition kmalloc_heap ::
  "cpu_env \<Rightarrow> u64 \<Rightarrow> 'a heap_state_scheme \<Rightarrow> (u64 \<times> 'a heap_state_scheme) res" where
  "kmalloc_heap env sz s =
     bind_res (spin_lock env (heap_lock s)) (\<lambda>l.
       let s1 = s\<lparr>heap_lock := l\<rparr>
       in bind_res (converge (kmalloc_find s1 sz (heap_start s1) 0)) (\<lambda>(current, lastb).
            if current \<noteq> 0 then
              bind_res (kmalloc_split current sz s1) (\<lambda>s2.
              bind_res (store32 current H_FREE 0 s2) (\<lambda>s3.
              let s4 = s3\<lparr>heap_lock := spin_unlock env (heap_lock s3)\<rparr>;
                  ptr = current + SIZEOF_HEADER
              in bind_res (load64 s4 current H_SIZE) (\<lambda>csize.
                 bind_res (memset_zero ptr csize s4) (\<lambda>s5.
                 Inr (ptr, s5)))))
            else kmalloc_expand env sz lastb (s1\<lparr>heap_lock := spin_unlock env (heap_lock s1)\<rparr>)))"

definition kmalloc :: "cpu_env \<Rightarrow> u64 \<Rightarrow> 'a heap_state_scheme \<Rightarrow> (u64 \<times> 'a heap_state_scheme) res" where
  "kmalloc env sz s =
     (if sz = 0 then Inr (0, s)
      else bind_res (if sz \<le> 2048 then slab_alloc env sz s else Inr (0, s)) (\<lambda>(ptr, s1).
        if ptr \<noteq> 0 then bind_res (memset_zero ptr sz s1) (\<lambda>s2. Inr (ptr, s2))
        else kmalloc_heap env ((sz + 15) AND NOT 15) s1))"

section \<open>Freeing\<close>

definition corrupt_msg :: string where
  "corrupt_msg = ''KMALLOC: Heap corruption detected (Invalid Magic Number)!''"

definition double_free_msg :: string where
  "double_free_msg = ''KMALLOC: Double free detected!''"

definition kfree_merge_next :: "u64 \<Rightarrow> 'a heap_state_scheme \<Rightarrow> 'a heap_state_scheme res" where
  "kfree_merge_next header s =
     bind_res (load64 s header H_NEXT) (\<lambda>nxt.
       if nxt = 0 then Inr s
       else bind_res (load32 s nxt H_FREE) (\<lambda>nfree.
         if nfree = 0 then Inr s
         else bind_res (load64 s header H_SIZE) (\<lambda>hsize.
           if header + SIZEOF_HEADER + hsize = nxt then
             bind_res (load64 s nxt H_SIZE) (\<lambda>nsize.
             bind_res (store64 header H_SIZE (hsize + (nsize + SIZEOF_HEADER)) s) (\<lambda>s1.
             bind_res (load64 s1 nxt H_NEXT) (\<lambda>nnext.
             bind_res (store64 header H_NEXT nnext s1) (\<lambda>s2.
             bind_res (load64 s2 header H_NEXT) (\<lambda>hnext.
             if hnext \<noteq> 0 then store64 hnext H_PREV header s2 else Inr s2)))))
           else Inr s)))"

definition kfree_merge_prev :: "u64 \<Rightarrow> 'a heap_state_scheme \<Rightarrow> 'a heap_state_scheme res" where
  "kfree_merge_prev header s =
     bind_res (load64 s header H_PREV) (\<lambda>prev.
       if prev = 0 then Inr s
       else bind_res (load32 s prev H_FREE) (\<lambda>pfree.
         if pfree = 0 then Inr s
         else bind_res (load64 s prev H_SIZE) (\<lambda>psize.
           if prev + SIZEOF_HEADER + psize = header then
             bind_res (load64 s header H_SIZE) (\<lambda>hsize.
             bind_res (store64 prev H_SIZE (psize + (hsize + SIZEOF_HEADER)) s) (\<lambda>s1.
             bind_res (load64 s1 header H_NEXT) (\<lambda>hnext.
             bind_res (store64 prev H_NEXT hnext s1) (\<lambda>s2.
             if hnext \<noteq> 0 then store64 hnext H_PREV prev s2 else Inr s2))))
           else Inr s)))"

definition kfree :: "cpu_env \<Rightarrow> u64 \<Rightarrow> 'a heap_state_scheme \<Rightarrow> 'a heap_state_scheme res" where
  "kfree env ptr s =
     (if ptr = 0 then Inr s
      else bind_res (load32 s (ptr AND NOT 0xFFF) 0) (\<lambda>slab_magic.
        if slab_magic = SLAB_MAGIC then slab_free env ptr s
        else let header = ptr - SIZEOF_HEADER
        in bind_res (load32 s header 0) (\<lambda>magic.
           if magic \<noteq> KMALLOC_MAGIC then Inl (KPanic corrupt_msg)
           else bind_res (load32 s header H_FREE) (\<lambda>is_free.
             if is_free \<noteq> 0 then Inl (KPanic double_free_msg)
             else bind_res (spin_lock env (heap_lock s)) (\<lambda>l.
               bind_res (store32 header H_FREE 1 (s\<lparr>heap_lock := l\<rparr>)) (\<lambda>s1.
               bind_res (kfree_merge_next header s1) (\<lambda>s2.
               bind_res (kfree_merge_prev header s2) (\<lambda>s3.
               Inr (s3\<lparr>heap_lock := spin_unlock env (heap_lock s3)\<rparr>)))))))))"

end
