(* ===== verification/Ports.thy ===== *)
theory Ports
  imports Kmalloc
begin

text \<open>
  Device access: the port instructions of \<^verbatim>\<open>kernel/include/arch/x86_64/ioports.h\<close> and reads and writes
  of memory-mapped registers. What a device answers is an arbitrary function \<open>dev_in\<close> (\<open>dev_mmio\<close>) of the number
  of device accesses made before, so that two reads of one register may differ; what the kernel writes
  is recorded in \<open>io_trace\<close>, latest event first.
\<close>

datatype io_event = Outb u16 u8 | Outw u16 u16 | Inb u16 | MmioWrite u64 u32 | MmioRead u64

record io_state = heap_state +
  dev_in :: "nat \<Rightarrow> u16 \<Rightarrow> u8"
  dev_mmio :: "nat \<Rightarrow> u64 \<Rightarrow> u32"
  io_trace :: "io_event list"

abbreviation io_time :: "'a io_state_scheme \<Rightarrow> nat" where "io_time s \<equiv> length (io_trace s)"

definition outb :: "u16 \<Rightarrow> u8 \<Rightarrow> 'a io_state_scheme \<Rightarrow> 'a io_state_scheme" where
  "outb port val s = s\<lparr>io_trace := Outb port val # io_trace s\<rparr>"

definition inb :: "u16 \<Rightarrow> 'a io_state_scheme \<Rightarrow> u8 \<times> 'a io_state_scheme" where
  "inb port s = (dev_in s (io_time s) port, s\<lparr>io_trace := Inb port # io_trace s\<rparr>)"

definition io_wait :: "'a io_state_scheme \<Rightarrow> 'a io_state_scheme" where
  "io_wait s = outb 0x80 0 s"

definition outw :: "u16 \<Rightarrow> u16 \<Rightarrow> 'a io_state_scheme \<Rightarrow> 'a io_state_scheme" where
  "outw port val s = s\<lparr>io_trace := Outw port val # io_trace s\<rparr>"

definition mmio_write :: "u64 \<Rightarrow> u32 \<Rightarrow> 'a io_state_scheme \<Rightarrow> 'a io_state_scheme" where
  "mmio_write addr v s = s\<lparr>io_trace := MmioWrite addr v # io_trace s\<rparr>"

definition mmio_read :: "u64 \<Rightarrow> 'a io_state_scheme \<Rightarrow> u32 \<times> 'a io_state_scheme" where
  "mmio_read addr s = (dev_mmio s (io_time s) addr, s\<lparr>io_trace := MmioRead addr # io_trace s\<rparr>)"

text \<open>Device accesses change nothing but the trace.\<close>

lemmas io_defs = outb_def inb_def io_wait_def outw_def mmio_write_def mmio_read_def

definition io_only :: "'a io_state_scheme \<Rightarrow> 'a io_state_scheme \<Rightarrow> bool" where
  "io_only s s' \<longleftrightarrow> (\<exists>es. s' = s\<lparr>io_trace := es @ io_trace s\<rparr>)"

lemma io_only_refl [simp]: "io_only s s"
  unfolding io_only_def by (rule exI [of _ "[]"]) simp

lemma io_only_trans: "io_only s s' \<Longrightarrow> io_only s' s'' \<Longrightarrow> io_only s s''"
  unfolding io_only_def by (elim exE) (simp, metis append_assoc)

lemma io_only_steps [simp]:
  "io_only s (outb p v s)" "io_only s (snd (inb p s))" "io_only s (mmio_write a w s)"
  "io_only s (snd (mmio_read a s))"
  unfolding io_only_def io_defs
  by (rule exI [of _ "[Outb p v]"] exI [of _ "[Inb p]"] exI [of _ "[MmioWrite a w]"] exI [of _ "[MmioRead a]"]; simp)+

end
