(* ===== verification/Ring.thy ===== *)
theory Ring
  imports Kernel_Prelude
begin

text \<open>
  Circular buffers of \<open>N\<close> slots with a head (next slot to write) and a tail (next slot to read), one slot kept
  free: the log buffer of the serial console and the keyboard buffer. \<open>ring\<close> is the queue such a buffer stands
  for; the locale \<open>fifo\<close> is the interface their clients use.
\<close>

definition ring_len :: "nat \<Rightarrow> nat \<Rightarrow> nat \<Rightarrow> nat" where
  "ring_len N h t = (h + N - t) mod N"

definition ring :: "nat \<Rightarrow> (nat \<Rightarrow> 'c) \<Rightarrow> nat \<Rightarrow> nat \<Rightarrow> 'c list" where
  "ring N buf h t = map (\<lambda>i. buf ((t + i) mod N)) [0..<ring_len N h t]"

lemma ring_len_eq: "h < N \<Longrightarrow> t < N \<Longrightarrow> ring_len N h t = (if t \<le> h then h - t else h + N - t)"
  unfolding ring_len_def
  by (auto simp: mod_if)

lemma length_ring [simp]: "length (ring N buf h t) = ring_len N h t"
  by (simp add: ring_def)

lemma ring_len_bound: "h < N \<Longrightarrow> t < N \<Longrightarrow> ring_len N h t \<le> N - 1"
  by (auto simp: ring_len_eq)

lemma ring_empty_iff: "h < N \<Longrightarrow> t < N \<Longrightarrow> ring N buf h t = [] \<longleftrightarrow> h = t"
  by (auto simp: ring_len_eq simp flip: length_0_conv split: if_splits)

lemma succ_mod: "h < N \<Longrightarrow> Suc h mod N = (if Suc h = N then 0 else Suc h)"
  by (simp add: mod_Suc)

lemma ring_full_iff: "h < N \<Longrightarrow> t < N \<Longrightarrow> (h + 1) mod N = t \<longleftrightarrow> ring_len N h t = N - 1"
  by (auto simp: ring_len_eq succ_mod split: if_splits)

lemma ring_slot: "h < N \<Longrightarrow> t < N \<Longrightarrow> (t + ring_len N h t) mod N = h"
  by (cases "t \<le> h") (simp_all add: ring_len_eq)

lemma add_mod_wrap: "(t :: nat) < N \<Longrightarrow> i < N \<Longrightarrow> (t + i) mod N = (if t + i < N then t + i else t + i - N)"
  by (cases "t + i < N") (simp_all add: le_mod_geq)

lemma ring_slot_other:
  assumes "h < N" "t < N" "i < ring_len N h t"
  shows "(t + i) mod N \<noteq> h"
proof -
  have "i < N" using ring_len_bound [OF assms(1,2)] assms(3) by linarith
  then show ?thesis using assms by (auto simp: ring_len_eq add_mod_wrap split: if_splits)
qed

lemma ring_push:
  assumes "h < N" "t < N" "(h + 1) mod N \<noteq> t"
  shows "ring N (buf(h := c)) ((h + 1) mod N) t = ring N buf h t @ [c]"
proof -
  have len: "ring_len N ((h + 1) mod N) t = Suc (ring_len N h t)"
    using assms by (auto simp: ring_len_eq succ_mod split: if_splits)
  show ?thesis
    using ring_slot [OF assms(1,2)] ring_slot_other [OF assms(1,2)] unfolding ring_def len by auto
qed

lemma ring_pop:
  assumes "h < N" "t < N" "h \<noteq> t"
  shows "ring N buf h t = buf t # ring N buf h ((t + 1) mod N)"
proof -
  have len: "ring_len N h t = Suc (ring_len N h ((t + 1) mod N))"
    using assms by (auto simp: ring_len_eq succ_mod split: if_splits)
  have "(t + Suc i) mod N = ((t + 1) mod N + i) mod N" for i by (simp add: mod_add_left_eq)
  then show ?thesis
    using assms(2) unfolding ring_def len by (simp add: map_upt_Suc del: upt_Suc)
qed

section \<open>The interface of a bounded queue\<close>

locale fifo =
  fixes put :: "'c \<Rightarrow> 's \<Rightarrow> 's"
    and get :: "'s \<Rightarrow> ('c \<times> 's) option"
    and content :: "'s \<Rightarrow> 'c list"
    and wf :: "'s \<Rightarrow> bool"
    and cap :: nat
  assumes wf_put: "wf s \<Longrightarrow> wf (put c s)"
    and put_room: "wf s \<Longrightarrow> length (content s) < cap \<Longrightarrow> content (put c s) = content s @ [c]"
    and content_cap: "wf s \<Longrightarrow> length (content s) \<le> cap"
    and get_empty: "wf s \<Longrightarrow> content s = [] \<Longrightarrow> get s = None"
    and get_cons: "wf s \<Longrightarrow> content s = c # cs \<Longrightarrow> \<exists>s'. get s = Some (c, s') \<and> content s' = cs \<and> wf s'"
begin

lemma wf_puts: "wf s \<Longrightarrow> wf (fold put cs s)"
  by (induction cs arbitrary: s) (simp_all add: wf_put)

lemma puts_room: "wf s \<Longrightarrow> length (content s) + length cs \<le> cap \<Longrightarrow> content (fold put cs s) = content s @ cs"
proof (induction cs arbitrary: s)
  case (Cons c cs)
  then have "content (put c s) = content s @ [c]" by (simp add: put_room)
  with Cons show ?case by (simp add: wf_put)
qed simp

text \<open>Reading until the queue is empty gives everything that was put, in order.\<close>

fun drain :: "nat \<Rightarrow> 's \<Rightarrow> 'c list" where
  "drain 0 s = []"
| "drain (Suc k) s = (case get s of None \<Rightarrow> [] | Some (c, s') \<Rightarrow> c # drain k s')"

lemma drain_content: "wf s \<Longrightarrow> length (content s) \<le> k \<Longrightarrow> drain k s = content s"
proof (induction k arbitrary: s)
  case (Suc k)
  show ?case
  proof (cases "content s")
    case Nil
    then show ?thesis using get_empty [of s] Suc.prems(1) by simp
  next
    case (Cons c cs)
    then obtain s' where "get s = Some (c, s')" "content s' = cs" "wf s'" using get_cons Suc.prems(1) by blast
    then show ?thesis using Suc Cons by simp
  qed
qed simp

lemma drain_puts:
  assumes "wf s" "content s = []" "length cs \<le> cap"
  shows "drain cap (fold put cs s) = cs"
  using drain_content [OF wf_puts [OF assms(1)], of cs cap] puts_room [OF assms(1), of cs] assms(2,3) by simp

end

end
