(* ===== verification/Serial.thy ===== *)
theory Serial
  imports Ports Ring Io_Format
begin

text \<open>
  The serial console \<^verbatim>\<open>kernel/arch/x86_64/serial.c\<close>: the log ring buffer, the UART driver and
  \<^verbatim>\<open>kprintf\<close>. A \<^verbatim>\<open>const char*\<close> argument is \<open>None\<close> for a null pointer, else the characters
  before the terminating zero.
\<close>

section \<open>Definitions\<close>

abbreviation COM1 :: u16 where "COM1 \<equiv> 0x3F8"
abbreviation BUFFER_SIZE :: u32 where "BUFFER_SIZE \<equiv> 0x20000"

record log_state = io_state +
  kprint_lock :: spinlock
  log_buffer :: "nat \<Rightarrow> char"
  log_head :: u32
  log_tail :: u32

definition log_putc :: "char \<Rightarrow> 'a log_state_scheme \<Rightarrow> 'a log_state_scheme res" where
  "log_putc c s =
     (let nxt = (log_head s + 1) mod BUFFER_SIZE;
          s1 = (if nxt = log_tail s then s\<lparr>log_tail := (log_tail s + 1) mod BUFFER_SIZE\<rparr> else s)
      in if log_head s1 < BUFFER_SIZE
         then Inr (s1\<lparr>log_buffer := (log_buffer s1)(unat (log_head s1) := c), log_head := nxt\<rparr>)
         else Inl OutOfBounds)"

definition init_serial :: "'a io_state_scheme \<Rightarrow> 'a io_state_scheme" where
  "init_serial s =
     outb (COM1 + 2) 0xC7 (outb (COM1 + 3) 0x03 (outb (COM1 + 1) 0x00 (outb (COM1 + 0) 0x03
       (outb (COM1 + 3) 0x80 (outb (COM1 + 1) 0x00 s)))))"

definition is_transmit_empty :: "'a io_state_scheme \<Rightarrow> u8 \<times> 'a io_state_scheme" where
  "is_transmit_empty s = (let (v, s1) = inb (COM1 + 5) s in (v AND 0x20, s1))"

partial_function (option) wait_transmit :: "'a io_state_scheme \<Rightarrow> 'a io_state_scheme option" where
  "wait_transmit s = (let (v, s1) = is_transmit_empty s in if v = 0 then wait_transmit s1 else Some s1)"

definition write_serial :: "char \<Rightarrow> 'a io_state_scheme \<Rightarrow> 'a io_state_scheme res" where
  "write_serial a s =
     (case wait_transmit s of None \<Rightarrow> Inl Diverges | Some s1 \<Rightarrow> Inr (outb COM1 (of_char a) s1))"

abbreviation newline :: char where "newline \<equiv> CHR 0x0A"
abbreviation carriage_return :: char where "carriage_return \<equiv> CHR 0x0D"

definition kprint_raw :: "string option \<Rightarrow> 'a io_state_scheme \<Rightarrow> 'a io_state_scheme res" where
  "kprint_raw str s =
     (case str of
        None \<Rightarrow> Inr s
      | Some cs \<Rightarrow>
          for_each (\<lambda>c t. bind_res (if c = newline then write_serial carriage_return t else Inr t) (write_serial c))
            cs s)"

definition hex_chars :: string where "hex_chars = ''0123456789ABCDEF''"

definition hex_nibble :: "u64 \<Rightarrow> nat \<Rightarrow> char" where
  "hex_nibble val i = hex_chars ! unat (drop_bit (i * 4) val AND 0xF)"

definition kprint_hex_raw :: "u64 \<Rightarrow> 'a io_state_scheme \<Rightarrow> 'a io_state_scheme res" where
  "kprint_hex_raw val s =
     bind_res (write_serial CHR ''0'' s) (\<lambda>s1.
     bind_res (write_serial CHR ''x'' s1) (\<lambda>s2.
     for_each (\<lambda>i. write_serial (hex_nibble val i)) (rev [0..<16]) s2))"

definition kprint_put :: "char \<Rightarrow> 'a log_state_scheme \<Rightarrow> 'a log_state_scheme res" where
  "kprint_put c s = bind_res (if c = newline then log_putc carriage_return s else Inr s) (log_putc c)"

definition kprint :: "cpu_env \<Rightarrow> string option \<Rightarrow> 'a log_state_scheme \<Rightarrow> 'a log_state_scheme res" where
  "kprint env str s =
     (case str of
        None \<Rightarrow> Inr s
      | Some cs \<Rightarrow>
          bind_res (spin_lock env (kprint_lock s)) (\<lambda>l.
          bind_res (for_each kprint_put cs (s\<lparr>kprint_lock := l\<rparr>)) (\<lambda>s1.
          Inr (s1\<lparr>kprint_lock := spin_unlock env (kprint_lock s1)\<rparr>))))"

definition kprint_hex :: "cpu_env \<Rightarrow> u64 \<Rightarrow> 'a log_state_scheme \<Rightarrow> 'a log_state_scheme res" where
  "kprint_hex env val s =
     bind_res (spin_lock env (kprint_lock s)) (\<lambda>l.
     bind_res (log_putc CHR ''0'' (s\<lparr>kprint_lock := l\<rparr>)) (\<lambda>s1.
     bind_res (log_putc CHR ''x'' s1) (\<lambda>s2.
     bind_res (for_each (\<lambda>i. log_putc (hex_nibble val i)) (rev [0..<16]) s2) (\<lambda>s3.
     Inr (s3\<lparr>kprint_lock := spin_unlock env (kprint_lock s3)\<rparr>)))))"

text \<open>The loop of \<^verbatim>\<open>log_flush\<close>: one turn sends one character if the UART is ready. The lock is not taken.\<close>

definition log_send :: "'a log_state_scheme \<Rightarrow> ('a log_state_scheme + 'a log_state_scheme) res" where
  "log_send s =
     (if log_head s = log_tail s then Inr (Inl s)
      else let (v, s1) = inb (COM1 + 5) s
      in if v AND 0x20 = 0 then Inr (Inl s1)
         else if log_tail s1 < BUFFER_SIZE then
           let s2 = outb COM1 (of_char (log_buffer s1 (unat (log_tail s1)))) s1
           in Inr (Inr (s2\<lparr>log_tail := (log_tail s2 + 1) mod BUFFER_SIZE\<rparr>))
         else Inl OutOfBounds)"

partial_function (option) log_flush_loop :: "'a log_state_scheme \<Rightarrow> 'a log_state_scheme res option" where
  "log_flush_loop s =
     (case log_send s of
        Inl e \<Rightarrow> Some (Inl e)
      | Inr (Inl s1) \<Rightarrow> Some (Inr s1)
      | Inr (Inr s1) \<Rightarrow> log_flush_loop s1)"

definition log_flush :: "'a log_state_scheme \<Rightarrow> 'a log_state_scheme res" where
  "log_flush s = (if log_head s = log_tail s then Inr s else converge (log_flush_loop s))"

text \<open>\<^verbatim>\<open>kprintf\<close> prints what \<^verbatim>\<open>vsnprintf\<close> left in the 512-byte buffer, up to the first zero.\<close>

definition kprintf :: "cpu_env \<Rightarrow> string \<Rightarrow> va_arg list \<Rightarrow> 'a log_state_scheme \<Rightarrow> 'a log_state_scheme res" where
  "kprintf env fmt args s =
     bind_res (vsnprintf 512 fmt args) (\<lambda>(buf, len).
     kprint env (Some (takeWhile (\<lambda>c. c \<noteq> CHR 0x00) buf)) s)"

section \<open>The log as a queue of characters\<close>

definition log_content :: "'a log_state_scheme \<Rightarrow> string" where
  "log_content s = ring (unat BUFFER_SIZE) (log_buffer s) (unat (log_head s)) (unat (log_tail s))"

definition log_ok :: "'a log_state_scheme \<Rightarrow> bool" where
  "log_ok s \<longleftrightarrow> log_head s < BUFFER_SIZE \<and> log_tail s < BUFFER_SIZE"

text \<open>The two updates the log is built from, as total functions.\<close>

definition log_put :: "char \<Rightarrow> 'a log_state_scheme \<Rightarrow> 'a log_state_scheme" where
  "log_put c s = (case log_putc c s of Inl _ \<Rightarrow> s | Inr s1 \<Rightarrow> s1)"

definition log_get :: "'a log_state_scheme \<Rightarrow> (char \<times> 'a log_state_scheme) option" where
  "log_get s =
     (if log_head s = log_tail s then None
      else Some (log_buffer s (unat (log_tail s)), s\<lparr>log_tail := (log_tail s + 1) mod BUFFER_SIZE\<rparr>))"

lemma unat_succ_mod:
  assumes "h < BUFFER_SIZE"
  shows "unat ((h + 1) mod BUFFER_SIZE) = (unat h + 1) mod unat BUFFER_SIZE"
proof -
  have "unat (h + 1) = unat h + 1" using assms by (simp add: word_step_Suc [of h BUFFER_SIZE])
  then show ?thesis by (simp add: unat_mod)
qed

lemma mod_BUFFER_SIZE_less: "(h :: u32) mod BUFFER_SIZE < BUFFER_SIZE"
  by (simp add: word_mod_less_divisor)

lemma log_idx:
  assumes "log_ok s"
  shows "unat (log_head s) < unat BUFFER_SIZE" "unat (log_tail s) < unat BUFFER_SIZE"
  using assms by (simp_all add: log_ok_def word_less_nat_alt)

text \<open>The oldest character is dropped when the buffer is full.\<close>

definition log_append :: "string \<Rightarrow> char \<Rightarrow> string" where
  "log_append cs c = (if length cs < unat BUFFER_SIZE - 1 then cs @ [c] else tl cs @ [c])"

lemma log_putc_spec:
  assumes ok: "log_ok s"
  shows "log_putc c s = Inr (log_put c s)" "log_ok (log_put c s)"
    "log_content (log_put c s) = log_append (log_content s) c"
proof -
  let ?h = "unat (log_head s)" and ?t = "unat (log_tail s)" and ?N = "unat BUFFER_SIZE"
  let ?nxt = "(log_head s + 1) mod BUFFER_SIZE"
  have h: "log_head s < BUFFER_SIZE" "log_tail s < BUFFER_SIZE" using ok by (simp_all add: log_ok_def)
  have eq: "log_putc c s = Inr (s\<lparr>log_tail := (if ?nxt = log_tail s then (log_tail s + 1) mod BUFFER_SIZE else log_tail s),
      log_buffer := (log_buffer s)(?h := c), log_head := ?nxt\<rparr>)" (is "_ = Inr ?s")
    using h by (simp add: log_putc_def Let_def)
  then have put: "log_put c s = ?s" by (simp add: log_put_def)
  show "log_putc c s = Inr (log_put c s)" using eq put by simp
  show "log_ok (log_put c s)" unfolding put using h by (simp add: log_ok_def mod_BUFFER_SIZE_less)
  have nx: "unat ?nxt = (?h + 1) mod ?N" "unat ((log_tail s + 1) mod BUFFER_SIZE) = (?t + 1) mod ?N"
    using unat_succ_mod h by blast+
  have full: "?nxt = log_tail s \<longleftrightarrow> ring_len ?N ?h ?t = ?N - 1"
    using ring_full_iff [OF log_idx [OF ok]] nx(1) by (simp add: word_eq_unat)
  show "log_content (log_put c s) = log_append (log_content s) c"
  proof (cases "?nxt = log_tail s")
    case False
    then have "(?h + 1) mod ?N \<noteq> ?t" using nx(1) by (simp add: word_eq_unat)
    then have "ring ?N ((log_buffer s)(?h := c)) ((?h + 1) mod ?N) ?t = log_content s @ [c]"
      unfolding log_content_def by (rule ring_push [OF log_idx [OF ok]])
    moreover have "length (log_content s) < ?N - 1"
      using False full ring_len_bound [OF log_idx [OF ok]] by (simp add: log_content_def le_neq_implies_less)
    ultimately show ?thesis using False nx unfolding put log_append_def by (simp add: log_content_def)
  next
    case True
    have t': "(?t + 1) mod ?N < ?N" by simp
    have ne: "?h \<noteq> ?t" using True full by (auto simp: ring_len_def)
    have "(?h + 1) mod ?N \<noteq> (?t + 1) mod ?N"
      using ne log_idx [OF ok] by (simp add: succ_mod split: if_splits)
    then have "ring ?N ((log_buffer s)(?h := c)) ((?h + 1) mod ?N) ((?t + 1) mod ?N)
      = ring ?N (log_buffer s) ?h ((?t + 1) mod ?N) @ [c]"
      by (intro ring_push log_idx [OF ok] t')
    moreover have "log_content s = log_buffer s ?t # ring ?N (log_buffer s) ?h ((?t + 1) mod ?N)"
      unfolding log_content_def by (rule ring_pop [OF log_idx [OF ok] ne])
    moreover have "\<not> length (log_content s) < ?N - 1" using True full by (simp add: log_content_def)
    ultimately show ?thesis using True nx unfolding put log_append_def by (simp add: log_content_def)
  qed
qed

end
