(* ===== verification/Serial_Proofs.thy ===== *)
theory Serial_Proofs
  imports Serial Io_Format_Proofs
begin

text \<open>
  The log buffer implements a queue of characters that forgets its oldest entries; printing appends to it and
  flushing moves a prefix of it to the UART without losing or reordering anything.
\<close>

section \<open>Interpretation as a bounded queue\<close>

lemma log_get_spec:
  assumes ok: "log_ok s" and "log_content s = c # cs"
  shows "\<exists>s'. log_get s = Some (c, s') \<and> log_content s' = cs \<and> log_ok s'"
proof -
  let ?N = "unat BUFFER_SIZE"
  have ne: "unat (log_head s) \<noteq> unat (log_tail s)"
    using ring_empty_iff [OF log_idx [OF ok], of "log_buffer s"] assms(2) by (simp add: log_content_def)
  have "log_content s = log_buffer s (unat (log_tail s)) #
      ring ?N (log_buffer s) (unat (log_head s)) ((unat (log_tail s) + 1) mod ?N)"
    unfolding log_content_def by (rule ring_pop [OF log_idx [OF ok] ne])
  moreover have "unat ((log_tail s + 1) mod BUFFER_SIZE) = (unat (log_tail s) + 1) mod ?N"
    using ok by (intro unat_succ_mod) (simp add: log_ok_def)
  moreover have "log_ok (s\<lparr>log_tail := (log_tail s + 1) mod BUFFER_SIZE\<rparr>)"
    using ok by (simp add: log_ok_def mod_BUFFER_SIZE_less)
  ultimately show ?thesis using ne assms(2) by (auto simp: log_get_def log_content_def)
qed

interpretation serial_log: fifo log_put log_get log_content log_ok "unat BUFFER_SIZE - 1"
proof (unfold_locales, goal_cases)
  case (1 s c)
  then show ?case by (rule log_putc_spec(2))
next
  case (2 s c)
  then show ?case by (simp add: log_putc_spec(3) log_append_def)
next
  case (3 s)
  then show ?case using ring_len_bound [OF log_idx [OF 3]] by (simp add: log_content_def)
next
  case (4 s)
  then show ?case using ring_empty_iff [OF log_idx [OF 4(1)], of "log_buffer s"]
    by (simp add: log_content_def log_get_def word_eq_unat)
next
  case (5 s c cs)
  then show ?case by (rule log_get_spec)
qed

section \<open>Printing\<close>

text \<open>Line feeds are sent as carriage return and line feed; a full log forgets from the front.\<close>

definition crlf :: "string \<Rightarrow> string" where
  "crlf cs = concat (map (\<lambda>c. if c = newline then [carriage_return, newline] else [c]) cs)"

definition keep_last :: "string \<Rightarrow> string" where
  "keep_last cs = drop (length cs - (unat BUFFER_SIZE - 1)) cs"

definition log_only :: "'a log_state_scheme \<Rightarrow> 'a log_state_scheme \<Rightarrow> bool" where
  "log_only s s' \<longleftrightarrow> (\<exists>b h t. s' = s\<lparr>log_buffer := b, log_head := h, log_tail := t\<rparr>)"

lemma log_onlyI: "s' = s\<lparr>log_buffer := b, log_head := h, log_tail := t\<rparr> \<Longrightarrow> log_only s s'"
  unfolding log_only_def by blast

lemma log_only_refl [simp]: "log_only s s"
  by (rule log_onlyI [where b = "log_buffer s" and h = "log_head s" and t = "log_tail s"]) simp

lemma log_only_trans: "log_only s s' \<Longrightarrow> log_only s' s'' \<Longrightarrow> log_only s s''"
  unfolding log_only_def [of s s'] log_only_def [of s' s''] by (elim exE) (rule log_onlyI, simp)

lemma log_only_putc: "log_putc c s = Inr s' \<Longrightarrow> log_only s s'"
  by (rule log_onlyI [where b = "log_buffer s'" and h = "log_head s'" and t = "log_tail s'"])
    (auto simp: log_putc_def Let_def split: if_splits)

lemma keep_last_append: "log_append (keep_last cs) c = keep_last (cs @ [c])"
proof (cases "length cs < unat BUFFER_SIZE - 1")
  case True
  then show ?thesis by (simp add: keep_last_def log_append_def)
next
  case False
  then have "length (keep_last cs) = unat BUFFER_SIZE - 1" by (simp add: keep_last_def)
  moreover have "tl (keep_last cs) = drop (Suc (length cs - (unat BUFFER_SIZE - 1))) cs"
    by (simp add: keep_last_def drop_Suc tl_drop)
  moreover have "Suc (length cs - (unat BUFFER_SIZE - 1)) = Suc (length cs) - (unat BUFFER_SIZE - 1)"
    using False by simp
  ultimately show ?thesis using False by (simp add: keep_last_def log_append_def)
qed

lemma log_putc_keep:
  assumes "log_ok s" and "log_content s = keep_last cs"
  shows "\<exists>s'. log_putc c s = Inr s' \<and> log_ok s' \<and> log_only s s' \<and> log_content s' = keep_last (cs @ [c])"
  using log_putc_spec [OF assms(1), of c] log_only_putc [of c s] assms(2) by (simp add: keep_last_append)

lemma kprint_put_keep:
  assumes "log_ok s" and "log_content s = keep_last cs"
  shows "\<exists>s'. kprint_put c s = Inr s' \<and> log_ok s' \<and> log_only s s' \<and> log_content s' = keep_last (cs @ crlf [c])"
proof (cases "c = newline")
  case True
  obtain s1 where s1: "log_putc carriage_return s = Inr s1" "log_ok s1" "log_only s s1"
    "log_content s1 = keep_last (cs @ [carriage_return])" using log_putc_keep [OF assms] by blast
  obtain s2 where "log_putc newline s1 = Inr s2" "log_ok s2" "log_only s1 s2"
    "log_content s2 = keep_last ((cs @ [carriage_return]) @ [newline])" using log_putc_keep [OF s1(2,4)] by blast
  then show ?thesis using True s1 by (auto simp: kprint_put_def crlf_def intro: log_only_trans)
next
  case False
  then show ?thesis using log_putc_keep [OF assms, of c] by (simp add: kprint_put_def crlf_def)
qed

lemma kprint_puts_keep:
  assumes "log_ok s" and "log_content s = keep_last cs"
  shows "\<exists>s'. for_each kprint_put ds s = Inr s' \<and> log_ok s' \<and> log_only s s' \<and> log_content s' = keep_last (cs @ crlf ds)"
  using assms
proof (induction ds arbitrary: s cs)
  case Nil
  then show ?case by (simp add: crlf_def)
next
  case (Cons d ds)
  obtain s1 where s1: "kprint_put d s = Inr s1" "log_ok s1" "log_only s s1" "log_content s1 = keep_last (cs @ crlf [d])"
    using kprint_put_keep [OF Cons.prems] by blast
  obtain s2 where "for_each kprint_put ds s1 = Inr s2" "log_ok s2" "log_only s1 s2"
    "log_content s2 = keep_last ((cs @ crlf [d]) @ crlf ds)" using Cons.IH [OF s1(2,4)] by blast
  then show ?case using s1 by (auto simp: crlf_def intro: log_only_trans)
qed

lemma keep_last_id: "length cs \<le> unat BUFFER_SIZE - 1 \<Longrightarrow> keep_last cs = cs"
  by (simp add: keep_last_def)

lemma log_ok_lock [simp]: "log_ok (s\<lparr>kprint_lock := l\<rparr>) = log_ok s"
  by (simp add: log_ok_def)

lemma log_content_lock [simp]: "log_content (s\<lparr>kprint_lock := l\<rparr>) = log_content s"
  by (simp add: log_content_def)

lemma log_only_lock: "log_only (s\<lparr>kprint_lock := l\<rparr>) s' \<Longrightarrow> kprint_lock s' = l"
  by (auto simp: log_only_def)

lemma kprint_spec:
  assumes "log_ok s" and "lock_idle (kprint_lock s)" and "env_ok env"
  shows "\<exists>s'. kprint env (Some cs) s = Inr s' \<and> log_ok s' \<and> log_content s' = keep_last (log_content s @ crlf cs)
    \<and> lock_idle (kprint_lock s') \<and> (\<exists>l. log_only (s\<lparr>kprint_lock := l\<rparr>) s')"
proof -
  let ?l = "spin_locked env (kprint_lock s)"
  have fr: "spin_lock env (kprint_lock s) = Inr ?l" by (rule spin_lock_free [OF lock_idle_free [OF assms(2,3)]])
  have "log_content s = keep_last (log_content s)" using serial_log.content_cap [OF assms(1)] by (simp add: keep_last_id)
  then obtain s1 where s1: "for_each kprint_put cs (s\<lparr>kprint_lock := ?l\<rparr>) = Inr s1" "log_ok s1"
    "log_only (s\<lparr>kprint_lock := ?l\<rparr>) s1" "log_content s1 = keep_last (log_content s @ crlf cs)"
    using kprint_puts_keep [of "s\<lparr>kprint_lock := ?l\<rparr>" "log_content s" cs] assms(1) by auto
  have lk: "kprint_lock s1 = ?l" by (rule log_only_lock [OF s1(3)])
  obtain b h t where "s1 = s\<lparr>kprint_lock := ?l, log_buffer := b, log_head := h, log_tail := t\<rparr>"
    using s1(3) by (auto simp: log_only_def)
  then have "log_only (s\<lparr>kprint_lock := spin_unlock env ?l\<rparr>) (s1\<lparr>kprint_lock := spin_unlock env ?l\<rparr>)"
    by (intro log_onlyI [where b = b and h = h and t = t]) simp
  then show ?thesis using s1 lk assms(2) by (auto simp: kprint_def fr)
qed

section \<open>Flushing\<close>

primrec com1_sent :: "io_event list \<Rightarrow> u8 list" where
  "com1_sent [] = []"
| "com1_sent (e # es) = com1_sent es @ (case e of Outb p v \<Rightarrow> if p = COM1 then [v] else [] | _ \<Rightarrow> [])"

definition pending :: "'a log_state_scheme \<Rightarrow> u8 list" where
  "pending s = com1_sent (io_trace s) @ map of_char (log_content s)"

lemma log_send_spec:
  assumes ok: "log_ok s"
  shows "(\<exists>s1. log_send s = Inr (Inl s1) \<and> log_ok s1 \<and> pending s1 = pending s \<and> log_content s1 = log_content s)
    \<or> (\<exists>s1. log_send s = Inr (Inr s1) \<and> log_ok s1 \<and> pending s1 = pending s \<and> length (log_content s1) < length (log_content s))"
proof (cases "log_content s")
  case Nil
  then have "log_head s = log_tail s" using ring_empty_iff [OF log_idx [OF ok], of "log_buffer s"]
    by (simp add: log_content_def word_eq_unat)
  then show ?thesis using ok by (simp add: log_send_def)
next
  case (Cons c cs)
  obtain s' where g: "log_get s = Some (c, s')" "log_content s' = cs" "log_ok s'" using log_get_spec [OF ok Cons] by blast
  then have ne: "log_head s \<noteq> log_tail s" and c: "c = log_buffer s (unat (log_tail s))"
    and s': "s' = s\<lparr>log_tail := (log_tail s + 1) mod BUFFER_SIZE\<rparr>" by (auto simp: log_get_def split: if_splits)
  have tl: "log_tail s < BUFFER_SIZE" using ok by (simp add: log_ok_def)
  show ?thesis
  proof (cases "dev_in s (io_time s) (COM1 + 5) AND 0x20 = 0")
    case True
    then show ?thesis using ne ok
      by (simp add: log_send_def inb_def log_ok_def pending_def log_content_def)
  next
    case False
    then show ?thesis using ne tl c s' g Cons
      by (simp add: log_send_def inb_def outb_def log_ok_def pending_def log_content_def Let_def del: length_ring)
  qed
qed

lemma log_flush_loop_spec:
  "log_ok s \<Longrightarrow> \<exists>s'. log_flush_loop s = Some (Inr s') \<and> log_ok s' \<and> pending s' = pending s"
proof (induction "length (log_content s)" arbitrary: s rule: less_induct)
  case less
  from log_send_spec [OF less.prems] show ?case
  proof (elim disjE exE conjE)
    fix s1 assume "log_send s = Inr (Inl s1)" "log_ok s1" "pending s1 = pending s"
    then show ?thesis by (subst log_flush_loop.simps) simp
  next
    fix s1 assume s1: "log_send s = Inr (Inr s1)" "log_ok s1" "pending s1 = pending s"
      "length (log_content s1) < length (log_content s)"
    obtain s2 where "log_flush_loop s1 = Some (Inr s2)" "log_ok s2" "pending s2 = pending s1"
      using less.hyps [OF s1(4,2)] by blast
    then show ?thesis using s1 by (subst log_flush_loop.simps) simp
  qed
qed

text \<open>
  C25. \<^verbatim>\<open>log_flush\<close> always ends, whatever the UART answers, and loses nothing: the bytes sent to the serial port so far
  followed by the characters still in the log are the same before and after.
\<close>

theorem log_flush_conserves:
  assumes "log_ok s"
  shows "\<exists>s'. log_flush s = Inr s' \<and> log_ok s' \<and>
    com1_sent (io_trace s') @ map of_char (log_content s') = com1_sent (io_trace s) @ map of_char (log_content s)"
  using log_flush_loop_spec [OF assms] assms by (auto simp: log_flush_def pending_def)

text \<open>A log with two characters in front of a UART that is ready at every second question.\<close>

definition sample_log :: "log_state" where
  "sample_log = \<lparr>bitmap_ptr = 0, bitmap_size = 0, bitmap = [], pmm_last_index = (\<lambda>_. 0), pmm_lock = spinlock_init,
     pt_mem = (\<lambda>_. 0), kernel_pml4 = 0, kernel_pml4_phys = 0, vmm_lock = spinlock_init, msr_pat = 0, msr_efer = 0,
     reg_cr0 = 0, reg_cr4 = 0, hw_log = [],
     kmalloc_caches = (\<lambda>_. \<lparr>obj_size = 0, partial_slabs = 0, full_slabs = 0, empty_slabs = 0, cache_lock = spinlock_init\<rparr>),
     heap_lock = spinlock_init, heap_start = 0,
     dev_in = (\<lambda>n port. if even n then 0x20 else 0), dev_mmio = (\<lambda>_ _. 0), io_trace = [],
     kprint_lock = spinlock_init, log_buffer = (\<lambda>_. CHR 0x00)(131071 := CHR ''o'', 0 := CHR ''k''),
     log_head = 1, log_tail = 131071\<rparr>"

theorem log_flush_conserves_witness:
  "\<exists>s'. log_flush sample_log = Inr s' \<and> log_ok s' \<and>
    com1_sent (io_trace s') @ map of_char (log_content s') = map of_char ''ok''"
proof -
  have ok: "log_ok sample_log" by (simp add: log_ok_def sample_log_def)
  have "com1_sent (io_trace sample_log) @ map of_char (log_content sample_log) = (map of_char ''ok'' :: u8 list)"
    by (simp add: sample_log_def log_content_def ring_def ring_len_def upt_rec)
  with log_flush_conserves [OF ok] show ?thesis by simp
qed

text \<open>
  C26. \<^verbatim>\<open>kprint\<close> appends its text to the log, with a carriage return before each line feed; when the log is full the oldest
  characters are forgotten, never the new ones. It changes nothing outside the log and releases its lock.
\<close>

theorem kprint_appends:
  assumes "log_ok s" and "lock_idle (kprint_lock s)" and "env_ok env"
  shows "\<exists>s'. kprint env (Some cs) s = Inr s' \<and> log_ok s' \<and> lock_idle (kprint_lock s')
    \<and> log_content s' = keep_last (log_content s @ crlf cs)
    \<and> (\<exists>b h t l. s' = s\<lparr>log_buffer := b, log_head := h, log_tail := t, kprint_lock := l\<rparr>)"
proof -
  obtain s' l where s': "kprint env (Some cs) s = Inr s'" "log_ok s'" "lock_idle (kprint_lock s')"
    "log_content s' = keep_last (log_content s @ crlf cs)" "log_only (s\<lparr>kprint_lock := l\<rparr>) s'"
    using kprint_spec [OF assms] by blast
  moreover obtain b h t where "s' = s\<lparr>kprint_lock := l, log_buffer := b, log_head := h, log_tail := t\<rparr>"
    using s'(5) by (auto simp: log_only_def)
  moreover from this have "s' = s\<lparr>log_buffer := b, log_head := h, log_tail := t, kprint_lock := l\<rparr>" by simp
  ultimately show ?thesis by blast
qed

theorem kprint_appends_witness:
  "\<exists>s'. kprint \<lparr>g_lock_enabled = True, this_cpu = Some 0\<rparr> (Some ''!\<newline>'') sample_log = Inr s' \<and> log_ok s' \<and>
    lock_idle (kprint_lock s') \<and> log_content s' = keep_last (log_content sample_log @ [CHR ''!'', carriage_return, newline])"
proof -
  have "log_ok sample_log" by (simp add: log_ok_def sample_log_def)
  moreover have "lock_idle (kprint_lock sample_log)" by (simp add: sample_log_def lock_idle_def spinlock_init_def)
  ultimately show ?thesis
    using kprint_appends [of sample_log "\<lparr>g_lock_enabled = True, this_cpu = Some 0\<rparr>" "''!\<newline>''"]
    by (auto simp: env_ok_def crlf_def)
qed

end
