(* ===== verification/Cpu.thy ===== *)
theory Cpu
  imports Serial
begin

text \<open>
  Per-CPU data: \<^verbatim>\<open>kernel/include/cpu/cpu.h\<close>, \<^verbatim>\<open>kernel/cpu/cpu.c\<close> and the descriptor tables of
  \<^verbatim>\<open>kernel/arch/x86_64/gdt.c\<close>. The \<^verbatim>\<open>cpu_context_t\<close> objects are kept in a store keyed by their address (the field
  \<^verbatim>\<open>pmm_last_index\<close> is part of the state of the frame allocator). \<^verbatim>\<open>get_cpu\<close> reads the GS base of the core that runs;
  model-specific registers and CR3 are kept per core, except EFER, which the paging code shares.
\<close>

section \<open>Structures\<close>

record tss =
  tss_rsp0 :: u64
  tss_rsp1 :: u64
  tss_rsp2 :: u64
  tss_ist :: "u64 list"
  tss_iopb_offset :: u16

record gdt_entry =
  gd_limit_low :: u16
  gd_base_low :: u16
  gd_base_middle :: u8
  gd_access :: u8
  gd_granularity :: u8
  gd_base_high :: u8

record gdt_tss_entry =
  gt_limit_low :: u16
  gt_base_low :: u16
  gt_base_mid :: u8
  gt_flags1 :: u8
  gt_flags2 :: u8
  gt_base_high_mid :: u8
  gt_base_high :: u32
  gt_reserved :: u32

record cpu_gdt =
  gdt_entries :: "gdt_entry list"
  gdt_tss :: gdt_tss_entry

abbreviation SIZEOF_TSS :: u64 where "SIZEOF_TSS \<equiv> 104"
abbreviation SIZEOF_GDT :: u64 where "SIZEOF_GDT \<equiv> 56"
abbreviation TSS_OFFSET :: u64 where "TSS_OFFSET \<equiv> 40"
abbreviation GDT_OFFSET :: u64 where "GDT_OFFSET \<equiv> 144"

record cpu_context =
  c_self :: u64
  c_cpu_id :: u64
  c_lapic_id :: u64
  c_user_rsp :: u64
  c_kernel_stack :: u64
  c_tss :: tss
  c_gdt :: cpu_gdt
  c_gdt_limit :: u16
  c_gdt_base :: u64
  c_lapic_ticks_per_ms :: u32
  c_current_task :: u64
  c_idle_task :: u64
  c_rq_lock :: spinlock
  c_rq_head :: "nat \<Rightarrow> u64"
  c_rq_tail :: "nat \<Rightarrow> u64"
  c_rq_count :: "nat \<Rightarrow> u32"
  c_current_quanta :: "nat \<Rightarrow> u32"
  c_next_priority_boost :: u64
  c_sleep_lock :: spinlock
  c_sleeping_list :: u64

definition zero_tss :: tss where
  "zero_tss = \<lparr>tss_rsp0 = 0, tss_rsp1 = 0, tss_rsp2 = 0, tss_ist = replicate 7 0, tss_iopb_offset = 0\<rparr>"

definition zero_gdt_entry :: gdt_entry where
  "zero_gdt_entry = \<lparr>gd_limit_low = 0, gd_base_low = 0, gd_base_middle = 0, gd_access = 0, gd_granularity = 0, gd_base_high = 0\<rparr>"

definition zero_gdt :: cpu_gdt where
  "zero_gdt = \<lparr>gdt_entries = replicate 5 zero_gdt_entry,
     gdt_tss = \<lparr>gt_limit_low = 0, gt_base_low = 0, gt_base_mid = 0, gt_flags1 = 0, gt_flags2 = 0, gt_base_high_mid = 0,
       gt_base_high = 0, gt_reserved = 0\<rparr>\<rparr>"

definition zero_lock :: spinlock where
  "zero_lock = \<lparr>lock_ticket = 0, lock_current = 0, lock_last_cpu = 0\<rparr>"

definition zero_cpu :: cpu_context where
  "zero_cpu = \<lparr>c_self = 0, c_cpu_id = 0, c_lapic_id = 0, c_user_rsp = 0, c_kernel_stack = 0, c_tss = zero_tss,
     c_gdt = zero_gdt, c_gdt_limit = 0, c_gdt_base = 0, c_lapic_ticks_per_ms = 0, c_current_task = 0, c_idle_task = 0,
     c_rq_lock = zero_lock, c_rq_head = (\<lambda>_. 0), c_rq_tail = (\<lambda>_. 0), c_rq_count = (\<lambda>_. 0),
     c_current_quanta = (\<lambda>_. 0), c_next_priority_boost = 0, c_sleep_lock = zero_lock, c_sleeping_list = 0\<rparr>"

section \<open>State\<close>

record cpu_state = log_state +
  cpus :: "u64 \<Rightarrow> cpu_context"
  cpu_table :: "nat \<Rightarrow> u64"
  msrs :: "nat \<Rightarrow> u32 \<Rightarrow> u64"
  cr3s :: "nat \<Rightarrow> u64"

abbreviation MSR_EFER :: u32 where "MSR_EFER \<equiv> 0xC0000080"
abbreviation MSR_STAR :: u32 where "MSR_STAR \<equiv> 0xC0000081"
abbreviation MSR_LSTAR :: u32 where "MSR_LSTAR \<equiv> 0xC0000082"
abbreviation MSR_FMASK :: u32 where "MSR_FMASK \<equiv> 0xC0000084"
abbreviation MSR_GS_BASE :: u32 where "MSR_GS_BASE \<equiv> 0xC0000101"
abbreviation MSR_KERNEL_GS_BASE :: u32 where "MSR_KERNEL_GS_BASE \<equiv> 0xC0000102"

definition core_of :: "cpu_env \<Rightarrow> nat" where
  "core_of env = (case this_cpu env of None \<Rightarrow> 0 | Some c \<Rightarrow> c)"

definition read_msr :: "nat \<Rightarrow> u32 \<Rightarrow> 'a cpu_state_scheme \<Rightarrow> u64" where
  "read_msr core msr s = (if msr = MSR_EFER then msr_efer s else msrs s core msr)"

definition write_msr :: "nat \<Rightarrow> u32 \<Rightarrow> u64 \<Rightarrow> 'a cpu_state_scheme \<Rightarrow> 'a cpu_state_scheme" where
  "write_msr core msr v s =
     (if msr = MSR_EFER then s\<lparr>msr_efer := v, hw_log := hw_log s @ [WrEfer v]\<rparr>
      else s\<lparr>msrs := (msrs s)(core := (msrs s core)(msr := v))\<rparr>)"

definition read_cr3 :: "cpu_env \<Rightarrow> 'a cpu_state_scheme \<Rightarrow> u64" where
  "read_cr3 env s = cr3s s (core_of env)"

definition write_cr3 :: "cpu_env \<Rightarrow> u64 \<Rightarrow> 'a cpu_state_scheme \<Rightarrow> 'a cpu_state_scheme" where
  "write_cr3 env v s = s\<lparr>cr3s := (cr3s s)(core_of env := v), hw_log := hw_log s @ [WrCr3 v]\<rparr>"

definition cpu_flush_tlb :: "cpu_env \<Rightarrow> 'a cpu_state_scheme \<Rightarrow> 'a cpu_state_scheme" where
  "cpu_flush_tlb env s = write_cr3 env (read_cr3 env s) s"

definition get_cpu :: "cpu_env \<Rightarrow> 'a cpu_state_scheme \<Rightarrow> u64" where
  "get_cpu env s = (case this_cpu env of None \<Rightarrow> 0 | Some c \<Rightarrow> msrs s c MSR_GS_BASE)"

definition cpu_at :: "'a cpu_state_scheme \<Rightarrow> u64 \<Rightarrow> cpu_context res" where
  "cpu_at s p = (if p = 0 then Inl NullDeref else Inr (cpus s p))"

definition upd_cpu :: "u64 \<Rightarrow> (cpu_context \<Rightarrow> cpu_context) \<Rightarrow> 'a cpu_state_scheme \<Rightarrow> 'a cpu_state_scheme res" where
  "upd_cpu p f s = (if p = 0 then Inl NullDeref else Inr (s\<lparr>cpus := (cpus s)(p := f (cpus s p))\<rparr>))"

definition cpu_register_context :: "u64 \<Rightarrow> 'a cpu_state_scheme \<Rightarrow> 'a cpu_state_scheme res" where
  "cpu_register_context ctx s =
     bind_res (cpu_at s ctx) (\<lambda>c.
       if unat (c_cpu_id c) < 32 then Inr (s\<lparr>cpu_table := (cpu_table s)(unat (c_cpu_id c) := ctx)\<rparr>)
       else Inl OutOfBounds)"

definition get_cpu_by_id :: "u64 \<Rightarrow> 'a cpu_state_scheme \<Rightarrow> u64" where
  "get_cpu_by_id i s = (if i \<ge> 32 then 0 else cpu_table s (unat i))"

definition cpu_enable_sse :: "'a vmm_state_scheme \<Rightarrow> 'a vmm_state_scheme" where
  "cpu_enable_sse s =
     (let cr4 = ((reg_cr4 s OR push_bit 5 1) OR push_bit 9 1) OR push_bit 10 1;
          s1 = s\<lparr>reg_cr4 := cr4, hw_log := hw_log s @ [WrCr4 cr4]\<rparr>;
          cr0 = (reg_cr0 s1 AND NOT (push_bit 2 1)) OR push_bit 1 1
      in s1\<lparr>reg_cr0 := cr0, hw_log := hw_log s1 @ [WrCr0 cr0]\<rparr>)"

section \<open>Initialisation\<close>

text \<open>\<^verbatim>\<open>lgdt\<close>, the far return of \<^verbatim>\<open>gdt_flush\<close> and \<^verbatim>\<open>ltr\<close> load processor registers that the model does not hold.\<close>

definition gdt_set :: "nat \<Rightarrow> u8 \<Rightarrow> u8 \<Rightarrow> gdt_entry list \<Rightarrow> gdt_entry list" where
  "gdt_set i access gran es = es[i := (es ! i)\<lparr>gd_access := access, gd_granularity := gran\<rparr>]"

definition tss_descriptor :: "u64 \<Rightarrow> gdt_tss_entry \<Rightarrow> gdt_tss_entry" where
  "tss_descriptor tss_addr e =
     e\<lparr>gt_limit_low := ucast (SIZEOF_TSS - 1),
       gt_base_low := ucast (tss_addr AND 0xFFFF),
       gt_base_mid := ucast (drop_bit 16 tss_addr AND 0xFF),
       gt_flags1 := 0x89,
       gt_base_high_mid := ucast (drop_bit 24 tss_addr AND 0xFF),
       gt_base_high := ucast (drop_bit 32 tss_addr AND 0xFFFFFFFF)\<rparr>"

definition gdt_setup_for_cpu :: "u64 \<Rightarrow> 'a cpu_state_scheme \<Rightarrow> 'a cpu_state_scheme res" where
  "gdt_setup_for_cpu ctx s =
     upd_cpu ctx (\<lambda>c.
       let es = gdt_set 4 0xF2 0x00 (gdt_set 3 0xFA 0x20 (gdt_set 2 0x92 0x00 (gdt_set 1 0x9A 0x20 (gdt_entries zero_gdt))));
           t = zero_tss\<lparr>tss_rsp0 := c_kernel_stack c, tss_iopb_offset := ucast SIZEOF_TSS\<rparr>
       in c\<lparr>c_tss := t,
            c_gdt := \<lparr>gdt_entries = es, gdt_tss = tss_descriptor (ctx + TSS_OFFSET) (gdt_tss zero_gdt)\<rparr>,
            c_gdt_limit := ucast (SIZEOF_GDT - 1),
            c_gdt_base := ctx + GDT_OFFSET\<rparr>) s"

definition cpu_init_context :: "nat \<Rightarrow> u64 \<Rightarrow> 'a cpu_state_scheme \<Rightarrow> 'a cpu_state_scheme res" where
  "cpu_init_context core ctx s =
     bind_res (upd_cpu ctx (\<lambda>c.
       c\<lparr>c_self := ctx,
         c_rq_head := (\<lambda>i. if i < 4 then 0 else c_rq_head c i),
         c_rq_tail := (\<lambda>i. if i < 4 then 0 else c_rq_tail c i),
         c_rq_count := (\<lambda>i. if i < 4 then 0 else c_rq_count c i),
         c_current_quanta := (\<lambda>i. if i < 4 then 0 else c_current_quanta c i),
         c_rq_lock := spinlock_init, c_sleep_lock := spinlock_init\<rparr>) s) (\<lambda>s1.
     Inr (write_msr core MSR_KERNEL_GS_BASE ctx (write_msr core MSR_GS_BASE ctx s1)))"

definition cpu_init_bsp :: "cpu_env \<Rightarrow> 'a cpu_state_scheme \<Rightarrow> 'a cpu_state_scheme res" where
  "cpu_init_bsp env s =
     bind_res (pmm_alloc_frame env s) (\<lambda>(frame, s1).
     let ctx = phys_to_virt frame
     in bind_res (upd_cpu ctx (\<lambda>_. zero_cpu\<lparr>c_self := ctx, c_cpu_id := 0\<rparr>) s1) (\<lambda>s2.
        bind_res (cpu_register_context ctx s2) (\<lambda>s3.
        bind_res (pmm_alloc_frames env 4 (s3\<lparr>pmm_last_index := (pmm_last_index s3)(0 := 0)\<rparr>)) (\<lambda>(stack, s4).
        bind_res (upd_cpu ctx (\<lambda>c. c\<lparr>c_kernel_stack := phys_to_virt (stack + 4 * PAGE_SIZE)\<rparr>) s4) (\<lambda>s5.
        bind_res (gdt_setup_for_cpu ctx s5) (\<lambda>s6.
        cpu_init_context 0 ctx (cpu_enable_sse s6)))))))"

text \<open>The address of \<^verbatim>\<open>syscall_entry\<close> is an argument.\<close>

definition cpu_init_syscalls :: "nat \<Rightarrow> u64 \<Rightarrow> 'a cpu_state_scheme \<Rightarrow> 'a cpu_state_scheme" where
  "cpu_init_syscalls core syscall_entry s =
     (let s1 = write_msr core MSR_LSTAR syscall_entry s;
          star = push_bit 48 0x13 OR push_bit 32 0x08;
          s2 = write_msr core MSR_STAR star s1;
          s3 = write_msr core MSR_FMASK 0x202 s2;
          efer = read_msr core MSR_EFER s3
      in write_msr core MSR_EFER (efer OR 1) s3)"

end
