(* ===== verification/Task.thy ===== *)
theory Task
  imports Cpu
begin

text \<open>
  Tasks and run queues: \<^verbatim>\<open>kernel/include/sched/sched.h\<close>, \<^verbatim>\<open>sched_utils.h\<close> and the run-queue section of
  \<^verbatim>\<open>kernel/sched/sched.c\<close>, and the mutex of \<^verbatim>\<open>kernel/atomic/atomic.c\<close>. The objects \<^verbatim>\<open>task_t\<close> and
  \<^verbatim>\<open>vma_area_t\<close> are kept in stores keyed by their address; a pointer that is null is not dereferenced but gives
  \<open>NullDeref\<close>. Interrupt masking is not modelled.
\<close>

section \<open>Structures\<close>

datatype task_state = TASK_READY | TASK_RUNNING | TASK_SLEEPING | TASK_ZOMBIE | TASK_FINISHED | TASK_BLOCKED
datatype task_reason = REASON_KEYBOARD | REASON_MUTEX

type_synonym task_prio = u32
abbreviation PRIO_HIGH :: task_prio where "PRIO_HIGH \<equiv> 0"
abbreviation PRIO_NORMAL :: task_prio where "PRIO_NORMAL \<equiv> 1"
abbreviation PRIO_LOW :: task_prio where "PRIO_LOW \<equiv> 2"
abbreviation PRIO_IDLE :: task_prio where "PRIO_IDLE \<equiv> 3"
abbreviation PRIORITY_LEVELS :: task_prio where "PRIORITY_LEVELS \<equiv> 4"
abbreviation PRIORITY_BOOST :: u64 where "PRIORITY_BOOST \<equiv> 100"

record mutex =
  m_count :: int
  m_wait_lock :: spinlock
  m_wait_list :: u64
  m_owner :: u64

record task =
  t_tid :: u64
  t_rsp :: u64
  t_stack_base :: u64
  t_stack_size :: u64
  t_state :: task_state
  t_wait_reason :: task_reason
  t_is_user :: bool
  t_cr3 :: u64
  t_vma_tree_root :: u64
  t_vma_list_head :: u64
  t_vma_mutex :: mutex
  t_vma_count :: u64
  t_heap_start :: u64
  t_heap_curr :: u64
  t_heap_end :: u64
  t_next :: u64
  t_prev :: u64
  t_sched_next :: u64
  t_priority :: task_prio
  t_base_priority :: task_prio
  t_cpu_id :: u64
  t_sleep_until :: u64

datatype vma_node_color = VMA_RED | VMA_BLACK

record vma_area =
  vm_start :: u64
  vm_end :: u64
  vm_flags :: u32
  v_left :: u64
  v_right :: u64
  v_parent :: u64
  v_color :: vma_node_color
  v_next :: u64
  v_prev :: u64

text \<open>The objects after \<^verbatim>\<open>memset(p, 0, sizeof *p)\<close>, and the sizes the compiler gives the structures.\<close>

definition zero_task :: task where
  "zero_task = \<lparr>t_tid = 0, t_rsp = 0, t_stack_base = 0, t_stack_size = 0, t_state = TASK_READY,
     t_wait_reason = REASON_KEYBOARD, t_is_user = False, t_cr3 = 0, t_vma_tree_root = 0, t_vma_list_head = 0,
     t_vma_mutex = \<lparr>m_count = 0, m_wait_lock = zero_lock, m_wait_list = 0, m_owner = 0\<rparr>, t_vma_count = 0,
     t_heap_start = 0, t_heap_curr = 0, t_heap_end = 0, t_next = 0, t_prev = 0, t_sched_next = 0,
     t_priority = 0, t_base_priority = 0, t_cpu_id = 0, t_sleep_until = 0\<rparr>"

definition zero_vma :: vma_area where
  "zero_vma = \<lparr>vm_start = 0, vm_end = 0, vm_flags = 0, v_left = 0, v_right = 0, v_parent = 0, v_color = VMA_RED,
     v_next = 0, v_prev = 0\<rparr>"

abbreviation SIZEOF_TASK :: u64 where "SIZEOF_TASK \<equiv> 448"
abbreviation SIZEOF_VMA :: u64 where "SIZEOF_VMA \<equiv> 72"
abbreviation SIZEOF_FRAME :: u64 where "SIZEOF_FRAME \<equiv> 176"
abbreviation NO_CPU :: u64 where "NO_CPU \<equiv> -1"

record sched_state = cpu_state +
  tasks :: "u64 \<Rightarrow> task"
  vmas :: "u64 \<Rightarrow> vma_area"
  root_task :: u64
  dead_task_list :: u64
  blocked_task_list :: u64
  sched_lock :: spinlock
  dead_lock :: spinlock
  blocked_lock :: spinlock
  system_uptime_ms :: u64
  next_tid :: u64

definition task_at :: "'a sched_state_scheme \<Rightarrow> u64 \<Rightarrow> task res" where
  "task_at s p = (if p = 0 then Inl NullDeref else Inr (tasks s p))"

definition upd_task :: "u64 \<Rightarrow> (task \<Rightarrow> task) \<Rightarrow> 'a sched_state_scheme \<Rightarrow> 'a sched_state_scheme res" where
  "upd_task p f s = (if p = 0 then Inl NullDeref else Inr (s\<lparr>tasks := (tasks s)(p := f (tasks s p))\<rparr>))"

definition get_uptime_ms :: "'a sched_state_scheme \<Rightarrow> u64" where
  "get_uptime_ms s = system_uptime_ms s"

definition sched_get_current :: "cpu_env \<Rightarrow> 'a sched_state_scheme \<Rightarrow> u64 res" where
  "sched_get_current env s = bind_res (cpu_at s (get_cpu env s)) (\<lambda>c. Inr (c_current_task c))"

section \<open>Run queues\<close>

definition priority_quanta :: "u32 list" where "priority_quanta = [10, 5, 2, 1]"

definition rq_acquire :: "cpu_env \<Rightarrow> u64 \<Rightarrow> 'a sched_state_scheme \<Rightarrow> 'a sched_state_scheme res" where
  "rq_acquire env cpu s =
     bind_res (cpu_at s cpu) (\<lambda>c.
     bind_res (spin_lock env (c_rq_lock c)) (\<lambda>l. upd_cpu cpu (\<lambda>c. c\<lparr>c_rq_lock := l\<rparr>) s))"

definition rq_release :: "cpu_env \<Rightarrow> u64 \<Rightarrow> 'a sched_state_scheme \<Rightarrow> 'a sched_state_scheme res" where
  "rq_release env cpu s = upd_cpu cpu (\<lambda>c. c\<lparr>c_rq_lock := spin_unlock env (c_rq_lock c)\<rparr>) s"

text \<open>The queue of a priority: an unknown priority counts as normal.\<close>

definition prio_index :: "task_prio \<Rightarrow> nat" where
  "prio_index p = unat (if p \<ge> PRIORITY_LEVELS then PRIO_NORMAL else p)"

text \<open>The part of \<^verbatim>\<open>enqueue_task\<close> between acquiring and releasing the lock.\<close>

definition enqueue_body :: "u64 \<Rightarrow> u64 \<Rightarrow> 'a sched_state_scheme \<Rightarrow> 'a sched_state_scheme res" where
  "enqueue_body cpu task s =
     bind_res (upd_task task (\<lambda>t. t\<lparr>t_priority := t_base_priority t\<rparr>) s) (\<lambda>s1.
     bind_res (task_at s1 task) (\<lambda>t.
     let i = prio_index (t_priority t)
     in bind_res (upd_cpu cpu (\<lambda>c. c\<lparr>c_current_quanta := (c_current_quanta c)(i := 0)\<rparr>) s1) (\<lambda>s2.
        bind_res (upd_task task (\<lambda>t. t\<lparr>t_sched_next := 0\<rparr>) s2) (\<lambda>s3.
        bind_res (cpu_at s3 cpu) (\<lambda>c.
        bind_res (if c_rq_tail c i \<noteq> 0 then upd_task (c_rq_tail c i) (\<lambda>t. t\<lparr>t_sched_next := task\<rparr>) s3
                  else upd_cpu cpu (\<lambda>c. c\<lparr>c_rq_head := (c_rq_head c)(i := task)\<rparr>) s3) (\<lambda>s4.
        bind_res (upd_cpu cpu (\<lambda>c. c\<lparr>c_rq_tail := (c_rq_tail c)(i := task),
                                        c_rq_count := (c_rq_count c)(i := c_rq_count c i + 1)\<rparr>) s4) (\<lambda>s5.
        bind_res (task_at s5 task) (\<lambda>t5.
        if t_cpu_id t5 = NO_CPU
        then upd_task task (\<lambda>t. t\<lparr>t_cpu_id := c_cpu_id (cpus s5 cpu)\<rparr>) s5
        else Inr s5))))))))"

definition enqueue_task :: "cpu_env \<Rightarrow> u64 \<Rightarrow> u64 \<Rightarrow> 'a sched_state_scheme \<Rightarrow> 'a sched_state_scheme res" where
  "enqueue_task env cpu task s =
     bind_res (rq_acquire env cpu s) (\<lambda>s1.
     bind_res (enqueue_body cpu task s1) (\<lambda>s2.
     rq_release env cpu s2))"

text \<open>
  The loop of \<^verbatim>\<open>dequeue_task\<close> over the priority levels; the lowest level, \<^verbatim>\<open>PRIO_IDLE\<close>, is not visited.
\<close>

definition work_below :: "cpu_context \<Rightarrow> nat \<Rightarrow> bool" where
  "work_below c p \<longleftrightarrow> (\<exists>low \<in> set [p + 1 ..< 3]. c_rq_head c low \<noteq> 0)"

definition dequeue_take :: "u64 \<Rightarrow> nat \<Rightarrow> 'a sched_state_scheme \<Rightarrow> (u64 \<times> 'a sched_state_scheme) res" where
  "dequeue_take cpu p s =
     bind_res (cpu_at s cpu) (\<lambda>c.
     let t = c_rq_head c p
     in bind_res (task_at s t) (\<lambda>tk.
        bind_res (upd_cpu cpu (\<lambda>c. c\<lparr>c_rq_head := (c_rq_head c)(p := t_sched_next tk)\<rparr>) s) (\<lambda>s1.
        bind_res (upd_cpu cpu (\<lambda>c. if c_rq_head c p = 0 then c\<lparr>c_rq_tail := (c_rq_tail c)(p := 0)\<rparr> else c) s1) (\<lambda>s2.
        bind_res (upd_cpu cpu (\<lambda>c. c\<lparr>c_rq_count := (c_rq_count c)(p := c_rq_count c p - 1),
                                        c_current_quanta := (c_current_quanta c)(p := c_current_quanta c p + 1)\<rparr>) s2) (\<lambda>s3.
        Inr (t, s3))))))"

fun dequeue_levels :: "u64 \<Rightarrow> nat list \<Rightarrow> 'a sched_state_scheme \<Rightarrow> (u64 \<times> 'a sched_state_scheme) res" where
  "dequeue_levels cpu [] s = Inr (0, s)"
| "dequeue_levels cpu (p # ps) s =
     bind_res (cpu_at s cpu) (\<lambda>c.
     if c_rq_head c p = 0 then
       bind_res (upd_cpu cpu (\<lambda>c. c\<lparr>c_current_quanta := (c_current_quanta c)(p := 0)\<rparr>) s) (dequeue_levels cpu ps)
     else if c_current_quanta c p \<ge> priority_quanta ! p then
       bind_res (upd_cpu cpu (\<lambda>c. c\<lparr>c_current_quanta := (c_current_quanta c)(p := 0)\<rparr>) s) (\<lambda>s1.
         if work_below c p then dequeue_levels cpu ps s1 else dequeue_take cpu p s1)
     else dequeue_take cpu p s)"

definition dequeue_task :: "cpu_env \<Rightarrow> u64 \<Rightarrow> 'a sched_state_scheme \<Rightarrow> (u64 \<times> 'a sched_state_scheme) res" where
  "dequeue_task env cpu s =
     bind_res (rq_acquire env cpu s) (\<lambda>s1.
     bind_res (dequeue_levels cpu [0 ..< 3] s1) (\<lambda>(t, s2).
     bind_res (rq_release env cpu s2) (\<lambda>s3. Inr (t, s3))))"

section \<open>Mutexes\<close>

definition mutex_new :: mutex where
  "mutex_new = \<lparr>m_count = 1, m_wait_lock = spinlock_init, m_wait_list = 0, m_owner = 0\<rparr>"

text \<open>
  A mutex is a field of another object: \<open>get\<close> reads it and \<open>put\<close> writes it. One turn of the loop of \<^verbatim>\<open>mutex_lock\<close>: the
  mutex is taken (\<open>True\<close>), or the task has joined the wait list and must yield the CPU (\<open>False\<close>).
\<close>

definition mutex_lock_turn ::
  "cpu_env \<Rightarrow> ('a sched_state_scheme \<Rightarrow> mutex) \<Rightarrow> (mutex \<Rightarrow> 'a sched_state_scheme \<Rightarrow> 'a sched_state_scheme) \<Rightarrow>
     'a sched_state_scheme \<Rightarrow> (bool \<times> 'a sched_state_scheme) res" where
  "mutex_lock_turn env get put s =
     bind_res (sched_get_current env s) (\<lambda>current.
     bind_res (spin_lock env (m_wait_lock (get s))) (\<lambda>l.
     let s1 = put ((get s)\<lparr>m_wait_lock := l\<rparr>) s
     in if m_count (get s1) > 0 then
          let m = (get s1)\<lparr>m_count := 0, m_owner := current\<rparr>
          in Inr (True, put (m\<lparr>m_wait_lock := spin_unlock env (m_wait_lock m)\<rparr>) s1)
        else
          bind_res (upd_task current (\<lambda>t. t\<lparr>t_state := TASK_BLOCKED, t_wait_reason := REASON_MUTEX\<rparr>) s1) (\<lambda>s2.
          bind_res (upd_task current (\<lambda>t. t\<lparr>t_sched_next := m_wait_list (get s2)\<rparr>) s2) (\<lambda>s3.
          let m = (get s3)\<lparr>m_wait_list := current\<rparr>
          in Inr (False, put (m\<lparr>m_wait_lock := spin_unlock env (m_wait_lock m)\<rparr>) s3)))))"

text \<open>
  \<^verbatim>\<open>mutex_lock\<close> as its callers see it: it returns holding the mutex; if the mutex is taken the caller blocks, and
  what happens then is a matter of the other tasks.
\<close>

definition mutex_lock ::
  "cpu_env \<Rightarrow> ('a sched_state_scheme \<Rightarrow> mutex) \<Rightarrow> (mutex \<Rightarrow> 'a sched_state_scheme \<Rightarrow> 'a sched_state_scheme) \<Rightarrow>
     'a sched_state_scheme \<Rightarrow> 'a sched_state_scheme res" where
  "mutex_lock env get put s =
     (if \<not> g_lock_enabled env then Inr s
      else bind_res (mutex_lock_turn env get put s) (\<lambda>(got, s1). if got then Inr s1 else Inl Blocks))"

definition mutex_unlock ::
  "cpu_env \<Rightarrow> ('a sched_state_scheme \<Rightarrow> mutex) \<Rightarrow> (mutex \<Rightarrow> 'a sched_state_scheme \<Rightarrow> 'a sched_state_scheme) \<Rightarrow>
     'a sched_state_scheme \<Rightarrow> 'a sched_state_scheme res" where
  "mutex_unlock env get put s =
     (if \<not> g_lock_enabled env then Inr s
      else
        bind_res (spin_lock env (m_wait_lock (get s))) (\<lambda>l.
        let s1 = put ((get s)\<lparr>m_wait_lock := l, m_owner := 0\<rparr>) s;
            task_to_wake = m_wait_list (get s1)
        in bind_res
             (if task_to_wake \<noteq> 0 then
                bind_res (task_at s1 task_to_wake) (\<lambda>t.
                upd_task task_to_wake (\<lambda>t. t\<lparr>t_sched_next := 0\<rparr>)
                  (put ((get s1)\<lparr>m_wait_list := t_sched_next t\<rparr>) s1))
              else Inr (put ((get s1)\<lparr>m_count := 1\<rparr>) s1)) (\<lambda>s2.
           let s3 = put ((get s2)\<lparr>m_wait_lock := spin_unlock env (m_wait_lock (get s2))\<rparr>) s2
           in if task_to_wake \<noteq> 0 then
                bind_res (upd_task task_to_wake (\<lambda>t. t\<lparr>t_state := TASK_READY\<rparr>) s3) (\<lambda>s4.
                bind_res (task_at s4 task_to_wake) (\<lambda>t.
                enqueue_task env (get_cpu_by_id (t_cpu_id t) s4) task_to_wake s4))
              else Inr s3)))"

end
