(* ===== verification/Vma.thy ===== *)
theory Vma
  imports Task
begin

text \<open>
  Definitions for \<^verbatim>\<open>kernel/memory/vma.c\<close>: the memory areas of a task, kept both in a doubly linked list and in a
  red-black tree with parent pointers. Loops that follow pointers are partial: on a cyclic structure they do not return.
\<close>

section \<open>Access\<close>

abbreviation VMA_READ :: u32 where "VMA_READ \<equiv> 1"
abbreviation VMA_WRITE :: u32 where "VMA_WRITE \<equiv> 2"
abbreviation VMA_EXEC :: u32 where "VMA_EXEC \<equiv> 4"
abbreviation VMA_USER :: u32 where "VMA_USER \<equiv> 8"
abbreviation VMA_STACK :: u32 where "VMA_STACK \<equiv> 16"
abbreviation VMA_HEAP :: u32 where "VMA_HEAP \<equiv> 32"

definition vma_at :: "'a sched_state_scheme \<Rightarrow> u64 \<Rightarrow> vma_area res" where
  "vma_at s p = (if p = 0 then Inl NullDeref else Inr (vmas s p))"

definition upd_vma :: "u64 \<Rightarrow> (vma_area \<Rightarrow> vma_area) \<Rightarrow> 'a sched_state_scheme \<Rightarrow> 'a sched_state_scheme res" where
  "upd_vma p f s = (if p = 0 then Inl NullDeref else Inr (s\<lparr>vmas := (vmas s)(p := f (vmas s p))\<rparr>))"

section \<open>Rotations and fix-up\<close>

definition vma_rotate_left :: "u64 \<Rightarrow> u64 \<Rightarrow> 'a sched_state_scheme \<Rightarrow> 'a sched_state_scheme res" where
  "vma_rotate_left t x s =
     bind_res (vma_at s x) (\<lambda>vx.
     let y = v_right vx
     in bind_res (vma_at s y) (\<lambda>vy.
        bind_res (upd_vma x (\<lambda>v. v\<lparr>v_right := v_left vy\<rparr>) s) (\<lambda>s1.
        bind_res (vma_at s1 y) (\<lambda>vy1.
        bind_res (if v_left vy1 \<noteq> 0 then upd_vma (v_left vy1) (\<lambda>v. v\<lparr>v_parent := x\<rparr>) s1 else Inr s1) (\<lambda>s2.
        bind_res (vma_at s2 x) (\<lambda>vx2.
        bind_res (upd_vma y (\<lambda>v. v\<lparr>v_parent := v_parent vx2\<rparr>) s2) (\<lambda>s3.
        bind_res (vma_at s3 x) (\<lambda>vx3.
        let p = v_parent vx3
        in bind_res
             (if p = 0 then upd_task t (\<lambda>tk. tk\<lparr>t_vma_tree_root := y\<rparr>) s3
              else bind_res (vma_at s3 p) (\<lambda>vp.
                if x = v_left vp then upd_vma p (\<lambda>v. v\<lparr>v_left := y\<rparr>) s3
                else upd_vma p (\<lambda>v. v\<lparr>v_right := y\<rparr>) s3)) (\<lambda>s4.
           bind_res (upd_vma y (\<lambda>v. v\<lparr>v_left := x\<rparr>) s4) (\<lambda>s5.
           upd_vma x (\<lambda>v. v\<lparr>v_parent := y\<rparr>) s5))))))))))"

definition vma_rotate_right :: "u64 \<Rightarrow> u64 \<Rightarrow> 'a sched_state_scheme \<Rightarrow> 'a sched_state_scheme res" where
  "vma_rotate_right t y s =
     bind_res (vma_at s y) (\<lambda>vy.
     let x = v_left vy
     in bind_res (vma_at s x) (\<lambda>vx.
        bind_res (upd_vma y (\<lambda>v. v\<lparr>v_left := v_right vx\<rparr>) s) (\<lambda>s1.
        bind_res (vma_at s1 x) (\<lambda>vx1.
        bind_res (if v_right vx1 \<noteq> 0 then upd_vma (v_right vx1) (\<lambda>v. v\<lparr>v_parent := y\<rparr>) s1 else Inr s1) (\<lambda>s2.
        bind_res (vma_at s2 y) (\<lambda>vy2.
        bind_res (upd_vma x (\<lambda>v. v\<lparr>v_parent := v_parent vy2\<rparr>) s2) (\<lambda>s3.
        bind_res (vma_at s3 y) (\<lambda>vy3.
        let p = v_parent vy3
        in bind_res
             (if p = 0 then upd_task t (\<lambda>tk. tk\<lparr>t_vma_tree_root := x\<rparr>) s3
              else bind_res (vma_at s3 p) (\<lambda>vp.
                if y = v_right vp then upd_vma p (\<lambda>v. v\<lparr>v_right := x\<rparr>) s3
                else upd_vma p (\<lambda>v. v\<lparr>v_left := x\<rparr>) s3)) (\<lambda>s4.
           bind_res (upd_vma x (\<lambda>v. v\<lparr>v_right := y\<rparr>) s4) (\<lambda>s5.
           upd_vma y (\<lambda>v. v\<lparr>v_parent := x\<rparr>) s5))))))))))"

definition set_color :: "u64 \<Rightarrow> vma_node_color \<Rightarrow> 'a sched_state_scheme \<Rightarrow> 'a sched_state_scheme res" where
  "set_color p c s = upd_vma p (\<lambda>v. v\<lparr>v_color := c\<rparr>) s"

definition parent_of :: "'a sched_state_scheme \<Rightarrow> u64 \<Rightarrow> u64 res" where
  "parent_of s p = bind_res (vma_at s p) (\<lambda>v. Inr (v_parent v))"

text \<open>
  The branch with a red uncle \<open>y\<close>, and the branch that rotates: \<open>inner\<close> and \<open>outer\<close> are the two rotations of the side, \<open>side\<close>
  the child that makes \<open>z\<close> an inner grandchild.
\<close>

definition fixup_recolor :: "u64 \<Rightarrow> u64 \<Rightarrow> 'a sched_state_scheme \<Rightarrow> (u64 \<times> 'a sched_state_scheme) res" where
  "fixup_recolor z y s =
     bind_res (parent_of s z) (\<lambda>p.
     bind_res (set_color p VMA_BLACK s) (\<lambda>s1.
     bind_res (set_color y VMA_BLACK s1) (\<lambda>s2.
     bind_res (parent_of s2 z) (\<lambda>p2.
     bind_res (parent_of s2 p2) (\<lambda>g.
     bind_res (set_color g VMA_RED s2) (\<lambda>s3. Inr (g, s3)))))))"

definition fixup_rotate ::
  "(vma_area \<Rightarrow> u64) \<Rightarrow> (u64 \<Rightarrow> u64 \<Rightarrow> 'a sched_state_scheme \<Rightarrow> 'a sched_state_scheme res) \<Rightarrow>
   (u64 \<Rightarrow> u64 \<Rightarrow> 'a sched_state_scheme \<Rightarrow> 'a sched_state_scheme res) \<Rightarrow>
   u64 \<Rightarrow> u64 \<Rightarrow> 'a sched_state_scheme \<Rightarrow> (u64 \<times> 'a sched_state_scheme) res" where
  "fixup_rotate side inner outer t z s =
     bind_res (parent_of s z) (\<lambda>p.
     bind_res (vma_at s p) (\<lambda>vp.
     bind_res (if z = side vp then bind_res (inner t p s) (\<lambda>s1. Inr (p, s1)) else Inr (z, s)) (\<lambda>(z1, s1).
     bind_res (parent_of s1 z1) (\<lambda>p1.
     bind_res (set_color p1 VMA_BLACK s1) (\<lambda>s2.
     bind_res (parent_of s2 z1) (\<lambda>p2.
     bind_res (parent_of s2 p2) (\<lambda>g.
     bind_res (set_color g VMA_RED s2) (\<lambda>s3.
     bind_res (parent_of s3 z1) (\<lambda>p3.
     bind_res (parent_of s3 p3) (\<lambda>g3.
     bind_res (outer t g3 s3) (\<lambda>s4. Inr (z1, s4))))))))))))"

text \<open>One turn of the loop of \<^verbatim>\<open>vma_insert_fixup\<close>: \<open>None\<close> when the loop ends, else the new \<open>z\<close>.\<close>

definition fixup_step :: "u64 \<Rightarrow> u64 \<Rightarrow> 'a sched_state_scheme \<Rightarrow> (u64 option \<times> 'a sched_state_scheme) res" where
  "fixup_step t z s =
     bind_res (vma_at s z) (\<lambda>vz.
     let p = v_parent vz
     in if p = 0 \<or> v_color (vmas s p) \<noteq> VMA_RED then Inr (None, s)
        else bind_res (vma_at s (v_parent (vmas s p))) (\<lambda>vg.
          bind_res
            (if p = v_left vg then
               (let y = v_right vg
                in if y \<noteq> 0 \<and> v_color (vmas s y) = VMA_RED then fixup_recolor z y s
                   else fixup_rotate v_right vma_rotate_left vma_rotate_right t z s)
             else
               (let y = v_left vg
                in if y \<noteq> 0 \<and> v_color (vmas s y) = VMA_RED then fixup_recolor z y s
                   else fixup_rotate v_left vma_rotate_right vma_rotate_left t z s)) (\<lambda>(z1, s1).
          Inr (Some z1, s1))))"

partial_function (option) fixup_loop :: "u64 \<Rightarrow> u64 \<Rightarrow> 'a sched_state_scheme \<Rightarrow> 'a sched_state_scheme res option" where
  "fixup_loop t z s =
     (case fixup_step t z s of
        Inl e \<Rightarrow> Some (Inl e)
      | Inr r \<Rightarrow> (case fst r of None \<Rightarrow> Some (Inr (snd r)) | Some z1 \<Rightarrow> fixup_loop t z1 (snd r)))"

definition vma_insert_fixup :: "u64 \<Rightarrow> u64 \<Rightarrow> 'a sched_state_scheme \<Rightarrow> 'a sched_state_scheme res" where
  "vma_insert_fixup t z s =
     bind_res (converge (fixup_loop t z s)) (\<lambda>s1.
     bind_res (task_at s1 t) (\<lambda>tk.
     set_color (t_vma_tree_root tk) VMA_BLACK s1))"

section \<open>Creating and searching\<close>

definition vma_init_task :: "u64 \<Rightarrow> 'a sched_state_scheme \<Rightarrow> 'a sched_state_scheme res" where
  "vma_init_task t s =
     upd_task t (\<lambda>tk. tk\<lparr>t_vma_tree_root := 0, t_vma_list_head := 0, t_vma_count := 0, t_vma_mutex := mutex_new\<rparr>) s"

partial_function (option) vma_find_loop :: "u64 \<Rightarrow> u64 \<Rightarrow> 'a sched_state_scheme \<Rightarrow> u64 option" where
  "vma_find_loop addr cur s =
     (if cur = 0 then Some 0
      else if addr \<ge> vm_start (vmas s cur) \<and> addr < vm_end (vmas s cur) then Some cur
      else if addr < vm_start (vmas s cur) then vma_find_loop addr (v_left (vmas s cur)) s
      else vma_find_loop addr (v_right (vmas s cur)) s)"

definition vma_find :: "u64 \<Rightarrow> u64 \<Rightarrow> 'a sched_state_scheme \<Rightarrow> u64 res" where
  "vma_find t addr s =
     bind_res (task_at s t) (\<lambda>tk.
     (case vma_find_loop addr (t_vma_tree_root tk) s of None \<Rightarrow> Inl Diverges | Some v \<Rightarrow> Inr v))"

section \<open>Mapping\<close>

text \<open>The mutex of a task's areas.\<close>

abbreviation vma_mutex :: "u64 \<Rightarrow> 'a sched_state_scheme \<Rightarrow> mutex" where
  "vma_mutex t s \<equiv> t_vma_mutex (tasks s t)"

abbreviation set_vma_mutex :: "u64 \<Rightarrow> mutex \<Rightarrow> 'a sched_state_scheme \<Rightarrow> 'a sched_state_scheme" where
  "set_vma_mutex t m s \<equiv> s\<lparr>tasks := (tasks s)(t := (tasks s t)\<lparr>t_vma_mutex := m\<rparr>)\<rparr>"

definition vma_lock :: "cpu_env \<Rightarrow> u64 \<Rightarrow> 'a sched_state_scheme \<Rightarrow> 'a sched_state_scheme res" where
  "vma_lock env t s =
     (if g_lock_enabled env \<and> t = 0 then Inl NullDeref else mutex_lock env (vma_mutex t) (set_vma_mutex t) s)"

definition vma_unlock :: "cpu_env \<Rightarrow> u64 \<Rightarrow> 'a sched_state_scheme \<Rightarrow> 'a sched_state_scheme res" where
  "vma_unlock env t s = mutex_unlock env (vma_mutex t) (set_vma_mutex t) s"

text \<open>The first area of the list that ends at \<open>addr\<close> and has the same flags; whether some area overlaps the range.\<close>

partial_function (option) vma_find_neighbor :: "u64 \<Rightarrow> u32 \<Rightarrow> u64 \<Rightarrow> 'a sched_state_scheme \<Rightarrow> u64 option" where
  "vma_find_neighbor addr flags cur s =
     (if cur = 0 then Some 0
      else if vm_end (vmas s cur) = addr \<and> vm_flags (vmas s cur) = flags then Some cur
      else vma_find_neighbor addr flags (v_next (vmas s cur)) s)"

partial_function (option) vma_overlaps :: "u64 \<Rightarrow> u64 \<Rightarrow> u64 \<Rightarrow> 'a sched_state_scheme \<Rightarrow> bool option" where
  "vma_overlaps addr len check s =
     (if check = 0 then Some False
      else if addr < vm_end (vmas s check) \<and> addr + len > vm_start (vmas s check) then Some True
      else vma_overlaps addr len (v_next (vmas s check)) s)"

text \<open>
  The page-table flags are computed in a \<^verbatim>\<open>uint32_t\<close>, which cannot hold \<^verbatim>\<open>PTE_NX\<close> (bit 63).
\<close>

definition vma_pte_opts :: "u32 \<Rightarrow> u32" where
  "vma_pte_opts flags =
     (let o0 = ucast (PTE_PRESENT OR PTE_USER) :: u32;
          o1 = (if flags AND VMA_WRITE \<noteq> 0 then ucast (ucast o0 OR PTE_WRITABLE) else o0)
      in if flags AND VMA_EXEC = 0 then ucast (ucast o1 OR PTE_NX) else o1)"

text \<open>Mapping fresh frames and clearing them; whether the mapping succeeded is not reported.\<close>

definition vma_back ::
  "cpu_env \<Rightarrow> u64 \<Rightarrow> u64 \<Rightarrow> u64 \<Rightarrow> u64 \<Rightarrow> u32 \<Rightarrow> 'a sched_state_scheme \<Rightarrow> 'a sched_state_scheme res" where
  "vma_back env t addr phys len flags s =
     bind_res (task_at s t) (\<lambda>tk.
     bind_res (vmm_map_range env (vmm_get_table s (t_cr3 tk)) addr phys len (ucast (vma_pte_opts flags)) s) (\<lambda>s1.
     memset_zero (phys_to_virt phys) len s1))"

definition vma_expand ::
  "cpu_env \<Rightarrow> u64 \<Rightarrow> u64 \<Rightarrow> u64 \<Rightarrow> u64 \<Rightarrow> u32 \<Rightarrow> 'a sched_state_scheme \<Rightarrow> (int \<times> 'a sched_state_scheme) res" where
  "vma_expand env t cur addr len flags s =
     bind_res (pmm_alloc_frames env (len div 4096) s) (\<lambda>(phys, s1).
       if phys = 0 then bind_res (vma_unlock env t s1) (\<lambda>s2. Inr (-1, s2))
       else bind_res (vma_back env t addr phys len flags s1) (\<lambda>s2.
            bind_res (upd_vma cur (\<lambda>v. v\<lparr>vm_end := vm_end v + len\<rparr>) s2) (\<lambda>s3.
            bind_res (vma_unlock env t s3) (\<lambda>s4. Inr (0, s4)))))"

text \<open>Insertion at the head of the list, and the descent that links the new area into the tree.\<close>

definition vma_link_list :: "u64 \<Rightarrow> u64 \<Rightarrow> 'a sched_state_scheme \<Rightarrow> 'a sched_state_scheme res" where
  "vma_link_list t new_vma s =
     bind_res (task_at s t) (\<lambda>tk.
     let head = t_vma_list_head tk
     in bind_res (upd_vma new_vma (\<lambda>v. v\<lparr>v_next := head\<rparr>) s) (\<lambda>s1.
        bind_res (if head \<noteq> 0 then upd_vma head (\<lambda>v. v\<lparr>v_prev := new_vma\<rparr>) s1 else Inr s1) (\<lambda>s2.
        upd_task t (\<lambda>tk. tk\<lparr>t_vma_list_head := new_vma\<rparr>) s2)))"

definition vma_attach :: "u64 \<Rightarrow> u64 \<Rightarrow> bool \<Rightarrow> 'a sched_state_scheme \<Rightarrow> 'a sched_state_scheme res" where
  "vma_attach new_vma node left s =
     bind_res (upd_vma node (\<lambda>v. if left then v\<lparr>v_left := new_vma\<rparr> else v\<lparr>v_right := new_vma\<rparr>) s) (\<lambda>s1.
     upd_vma new_vma (\<lambda>v. v\<lparr>v_parent := node\<rparr>) s1)"

partial_function (option) vma_descend :: "u64 \<Rightarrow> u64 \<Rightarrow> 'a sched_state_scheme \<Rightarrow> 'a sched_state_scheme res option" where
  "vma_descend new_vma node s =
     (if vm_start (vmas s new_vma) < vm_start (vmas s node) then
        (if v_left (vmas s node) = 0 then Some (vma_attach new_vma node True s)
         else vma_descend new_vma (v_left (vmas s node)) s)
      else
        (if v_right (vmas s node) = 0 then Some (vma_attach new_vma node False s)
         else vma_descend new_vma (v_right (vmas s node)) s))"

definition vma_link_tree :: "u64 \<Rightarrow> u64 \<Rightarrow> 'a sched_state_scheme \<Rightarrow> 'a sched_state_scheme res" where
  "vma_link_tree t new_vma s =
     bind_res (task_at s t) (\<lambda>tk.
       if t_vma_tree_root tk = 0 then upd_task t (\<lambda>tk. tk\<lparr>t_vma_tree_root := new_vma\<rparr>) s
       else converge (vma_descend new_vma (t_vma_tree_root tk) s))"

definition vma_insert :: "u64 \<Rightarrow> u64 \<Rightarrow> 'a sched_state_scheme \<Rightarrow> 'a sched_state_scheme res" where
  "vma_insert t new_vma s =
     bind_res (vma_link_list t new_vma s) (\<lambda>s1.
     bind_res (vma_link_tree t new_vma s1) (\<lambda>s2.
     vma_insert_fixup t new_vma s2))"

definition vma_create ::
  "cpu_env \<Rightarrow> u64 \<Rightarrow> u64 \<Rightarrow> u64 \<Rightarrow> u32 \<Rightarrow> 'a sched_state_scheme \<Rightarrow> (int \<times> 'a sched_state_scheme) res" where
  "vma_create env t addr len flags s =
     bind_res (kmalloc env SIZEOF_VMA s) (\<lambda>(new_vma, s1).
       if new_vma = 0 then bind_res (vma_unlock env t s1) (\<lambda>s2. Inr (-3, s2))
       else
         bind_res (upd_vma new_vma (\<lambda>_. zero_vma\<lparr>vm_start := addr, vm_end := addr + len, vm_flags := flags, v_color := VMA_RED\<rparr>) s1) (\<lambda>s2.
         bind_res (pmm_alloc_frames env (len div 4096) s2) (\<lambda>(phys, s3).
           if phys = 0 then
             bind_res (kfree env new_vma s3) (\<lambda>s4.
             bind_res (vma_unlock env t s4) (\<lambda>s5. Inr (-4, s5)))
           else
             bind_res (vma_back env t addr phys len flags s3) (\<lambda>s4.
             bind_res (vma_insert t new_vma s4) (\<lambda>s5.
             bind_res (upd_task t (\<lambda>tk. tk\<lparr>t_vma_count := t_vma_count tk + 1\<rparr>) s5) (\<lambda>s6.
             bind_res (vma_unlock env t s6) (\<lambda>s7. Inr (0, s7))))))))"

definition vma_map ::
  "cpu_env \<Rightarrow> u64 \<Rightarrow> u64 \<Rightarrow> u64 \<Rightarrow> u32 \<Rightarrow> 'a sched_state_scheme \<Rightarrow> (int \<times> 'a sched_state_scheme) res" where
  "vma_map env t addr sz flags s =
     (if sz = 0 then Inr (-1, s)
      else let len = (sz + 0xFFF) AND NOT 0xFFF
      in if addr AND 0xFFF \<noteq> 0 then Inr (-1, s)
         else
           bind_res (vma_lock env t s) (\<lambda>s1.
           bind_res (task_at s1 t) (\<lambda>tk.
           (case vma_find_neighbor addr flags (t_vma_list_head tk) s1 of
              None \<Rightarrow> Inl Diverges
            | Some cur \<Rightarrow>
                if cur \<noteq> 0 then vma_expand env t cur addr len flags s1
                else (case vma_overlaps addr len (t_vma_list_head tk) s1 of
                        None \<Rightarrow> Inl Diverges
                      | Some True \<Rightarrow> bind_res (vma_unlock env t s1) (\<lambda>s2. Inr (-2, s2))
                      | Some False \<Rightarrow> vma_create env t addr len flags s1)))))"

section \<open>Unmapping\<close>

text \<open>One page: it is unmapped and its frame freed if it is mapped to a frame other than the first.\<close>

definition vma_release_page :: "cpu_env \<Rightarrow> u64 \<Rightarrow> u64 \<Rightarrow> 'a sched_state_scheme \<Rightarrow> 'a sched_state_scheme res" where
  "vma_release_page env pml4 vaddr s =
     bind_res (vmm_virtual_to_physical s pml4 vaddr) (\<lambda>phys.
       if phys \<noteq> 0 then bind_res (vmm_unmap env pml4 vaddr s) (\<lambda>s1. pmm_free_frame env phys s1) else Inr s)"

partial_function (option) vma_release_pages ::
  "cpu_env \<Rightarrow> u64 \<Rightarrow> u64 \<Rightarrow> u64 \<Rightarrow> 'a sched_state_scheme \<Rightarrow> 'a sched_state_scheme res option" where
  "vma_release_pages env pml4 vaddr unmap_end s =
     (if vaddr < unmap_end then
        (case vma_release_page env pml4 vaddr s of
           Inl e \<Rightarrow> Some (Inl e)
         | Inr s1 \<Rightarrow> vma_release_pages env pml4 (vaddr + PAGE_SIZE) unmap_end s1)
      else Some (Inr s))"

definition vma_unlink_list :: "u64 \<Rightarrow> u64 \<Rightarrow> 'a sched_state_scheme \<Rightarrow> 'a sched_state_scheme res" where
  "vma_unlink_list t vma s =
     bind_res (vma_at s vma) (\<lambda>v.
     bind_res (if v_prev v \<noteq> 0 then upd_vma (v_prev v) (\<lambda>w. w\<lparr>v_next := v_next v\<rparr>) s else Inr s) (\<lambda>s1.
     bind_res (vma_at s1 vma) (\<lambda>v1.
     bind_res (if v_next v1 \<noteq> 0 then upd_vma (v_next v1) (\<lambda>w. w\<lparr>v_prev := v_prev v1\<rparr>) s1 else Inr s1) (\<lambda>s2.
     bind_res (vma_at s2 vma) (\<lambda>v2.
     bind_res (task_at s2 t) (\<lambda>tk.
     if t_vma_list_head tk = vma then upd_task t (\<lambda>tk. tk\<lparr>t_vma_list_head := v_next v2\<rparr>) s2 else Inr s2))))))"

partial_function (option) vma_rightmost :: "u64 \<Rightarrow> 'a sched_state_scheme \<Rightarrow> u64 option" where
  "vma_rightmost v s = (if v_right (vmas s v) = 0 then Some v else vma_rightmost (v_right (vmas s v)) s)"

text \<open>The replacement of a removed node: its left subtree with the right subtree hung below its rightmost node.\<close>

definition vma_join :: "u64 \<Rightarrow> 'a sched_state_scheme \<Rightarrow> (u64 \<times> 'a sched_state_scheme) res" where
  "vma_join vma s =
     bind_res (vma_at s vma) (\<lambda>v.
       if v_left v \<noteq> 0 then
         (if v_right v \<noteq> 0 then
            (case vma_rightmost (v_left v) s of
               None \<Rightarrow> Inl Diverges
             | Some rm \<Rightarrow>
                 bind_res (upd_vma rm (\<lambda>w. w\<lparr>v_right := v_right v\<rparr>) s) (\<lambda>s1.
                 bind_res (vma_at s1 vma) (\<lambda>v1.
                 bind_res (upd_vma (v_right v1) (\<lambda>w. w\<lparr>v_parent := rm\<rparr>) s1) (\<lambda>s2.
                 Inr (v_left v, s2)))))
          else Inr (v_left v, s))
       else Inr (v_right v, s))"

definition vma_unlink_tree :: "u64 \<Rightarrow> u64 \<Rightarrow> 'a sched_state_scheme \<Rightarrow> 'a sched_state_scheme res" where
  "vma_unlink_tree t vma s =
     bind_res (vma_join vma s) (\<lambda>(replacement, s1).
     bind_res (vma_at s1 vma) (\<lambda>v1.
     bind_res
       (if v_parent v1 = 0 then upd_task t (\<lambda>tk. tk\<lparr>t_vma_tree_root := replacement\<rparr>) s1
        else bind_res (vma_at s1 (v_parent v1)) (\<lambda>vp.
          upd_vma (v_parent v1) (\<lambda>w. if v_left vp = vma then w\<lparr>v_left := replacement\<rparr>
                                       else w\<lparr>v_right := replacement\<rparr>) s1)) (\<lambda>s2.
     bind_res (vma_at s2 vma) (\<lambda>v2.
     if replacement \<noteq> 0 then upd_vma replacement (\<lambda>w. w\<lparr>v_parent := v_parent v2\<rparr>) s2 else Inr s2))))"

definition vma_remove :: "cpu_env \<Rightarrow> u64 \<Rightarrow> u64 \<Rightarrow> 'a sched_state_scheme \<Rightarrow> 'a sched_state_scheme res" where
  "vma_remove env t vma s =
     bind_res (vma_unlink_list t vma s) (\<lambda>s1.
     bind_res (vma_unlink_tree t vma s1) (\<lambda>s2.
     bind_res (upd_task t (\<lambda>tk. tk\<lparr>t_vma_count := t_vma_count tk - 1\<rparr>) s2) (\<lambda>s3.
     kfree env vma s3)))"

definition vma_unmap ::
  "cpu_env \<Rightarrow> u64 \<Rightarrow> u64 \<Rightarrow> u64 \<Rightarrow> 'a sched_state_scheme \<Rightarrow> (int \<times> 'a sched_state_scheme) res" where
  "vma_unmap env t addr len s =
     (if len = 0 then Inr (0, s)
      else
        bind_res (vma_lock env t s) (\<lambda>s1.
        bind_res (vma_find t addr s1) (\<lambda>vma.
          if vma = 0 then bind_res (vma_unlock env t s1) (\<lambda>s2. Inr (-1, s2))
          else
            let unmap_end = addr + len;
                pml4 = vmm_get_table s1 (t_cr3 (tasks s1 t))
            in bind_res (converge (vma_release_pages env pml4 addr unmap_end s1)) (\<lambda>s2.
               bind_res (vma_at s2 vma) (\<lambda>v.
               bind_res
                 (if addr > vm_start v \<and> unmap_end \<ge> vm_end v then upd_vma vma (\<lambda>w. w\<lparr>vm_end := addr\<rparr>) s2
                  else if addr \<le> vm_start v \<and> unmap_end \<ge> vm_end v then vma_remove env t vma s2
                  else Inr s2) (\<lambda>s3.
               bind_res (vma_unlock env t (sync_tlb s3)) (\<lambda>s4. Inr (0, s4))))))))"

partial_function (option) vma_free_list :: "cpu_env \<Rightarrow> u64 \<Rightarrow> 'a sched_state_scheme \<Rightarrow> 'a sched_state_scheme res option" where
  "vma_free_list env cur s =
     (if cur = 0 then Some (Inr s)
      else (case kfree env cur s of
              Inl e \<Rightarrow> Some (Inl e)
            | Inr s1 \<Rightarrow> vma_free_list env (v_next (vmas s cur)) s1))"

definition vma_destroy_all :: "cpu_env \<Rightarrow> u64 \<Rightarrow> 'a sched_state_scheme \<Rightarrow> 'a sched_state_scheme res" where
  "vma_destroy_all env t s =
     bind_res (vma_lock env t s) (\<lambda>s1.
     bind_res (task_at s1 t) (\<lambda>tk.
     bind_res (converge (vma_free_list env (t_vma_list_head tk) s1)) (\<lambda>s2.
     bind_res (upd_task t (\<lambda>tk. tk\<lparr>t_vma_list_head := 0, t_vma_tree_root := 0, t_vma_count := 0\<rparr>) s2) (\<lambda>s3.
     bind_res (task_at s3 t) (\<lambda>tk3.
     bind_res
       (if t_cr3 tk3 \<noteq> 0 then
          bind_res (vmm_destroy_user_pml4 env (t_cr3 tk3) True s3) (\<lambda>s4. upd_task t (\<lambda>tk. tk\<lparr>t_cr3 := 0\<rparr>) s4)
        else Inr s3) (\<lambda>s5.
     vma_unlock env t s5))))))"

end
