(* ===== verification/Sched.thy ===== *)
theory Sched
  imports Vma
begin

text \<open>
  Definitions for the rest of \<^verbatim>\<open>kernel/sched/sched.c\<close>: sleeping, blocking, waking, work stealing, priority boosts,
  the scheduler itself, task exit and the reaper. \<^verbatim>\<open>sched_yield\<close> raises interrupt 32, whose handler is defined with the
  interrupt dispatcher.
\<close>

section \<open>Pointers to links\<close>

text \<open>A \<^verbatim>\<open>task_t**\<close> points to the head of a list or to the \<^verbatim>\<open>sched_next\<close> field of a task.\<close>

datatype link = Head | NextOf u64

fun link_get :: "('a sched_state_scheme \<Rightarrow> u64) \<Rightarrow> link \<Rightarrow> 'a sched_state_scheme \<Rightarrow> u64" where
  "link_get head Head s = head s"
| "link_get head (NextOf p) s = t_sched_next (tasks s p)"

fun link_put ::
  "(u64 \<Rightarrow> 'a sched_state_scheme \<Rightarrow> 'a sched_state_scheme) \<Rightarrow> link \<Rightarrow> u64 \<Rightarrow> 'a sched_state_scheme \<Rightarrow> 'a sched_state_scheme" where
  "link_put put Head v s = put v s"
| "link_put put (NextOf p) v s = s\<lparr>tasks := (tasks s)(p := (tasks s p)\<lparr>t_sched_next := v\<rparr>)\<rparr>"

abbreviation sleep_head :: "u64 \<Rightarrow> 'a sched_state_scheme \<Rightarrow> u64" where
  "sleep_head cpu s \<equiv> c_sleeping_list (cpus s cpu)"

abbreviation set_sleep_head :: "u64 \<Rightarrow> u64 \<Rightarrow> 'a sched_state_scheme \<Rightarrow> 'a sched_state_scheme" where
  "set_sleep_head cpu v s \<equiv> s\<lparr>cpus := (cpus s)(cpu := (cpus s cpu)\<lparr>c_sleeping_list := v\<rparr>)\<rparr>"

abbreviation set_blocked :: "u64 \<Rightarrow> 'a sched_state_scheme \<Rightarrow> 'a sched_state_scheme" where
  "set_blocked v s \<equiv> s\<lparr>blocked_task_list := v\<rparr>"

section \<open>Sleeping\<close>

definition sleep_acquire :: "cpu_env \<Rightarrow> u64 \<Rightarrow> 'a sched_state_scheme \<Rightarrow> 'a sched_state_scheme res" where
  "sleep_acquire env cpu s =
     bind_res (cpu_at s cpu) (\<lambda>c.
     bind_res (spin_lock env (c_sleep_lock c)) (\<lambda>l. upd_cpu cpu (\<lambda>c. c\<lparr>c_sleep_lock := l\<rparr>) s))"

definition sleep_release :: "cpu_env \<Rightarrow> u64 \<Rightarrow> 'a sched_state_scheme \<Rightarrow> 'a sched_state_scheme res" where
  "sleep_release env cpu s = upd_cpu cpu (\<lambda>c. c\<lparr>c_sleep_lock := spin_unlock env (c_sleep_lock c)\<rparr>) s"

text \<open>The first loop of \<^verbatim>\<open>sched_update_sleepers\<close> moves the expired tasks to a private list.\<close>

partial_function (option) sleepers_extract ::
  "u64 \<Rightarrow> u64 \<Rightarrow> u64 \<Rightarrow> 'a sched_state_scheme \<Rightarrow> (u64 \<times> 'a sched_state_scheme) option" where
  "sleepers_extract cpu now ready s =
     (let t = sleep_head cpu s
      in if t \<noteq> 0 \<and> now \<ge> t_sleep_until (tasks s t) then
           let s1 = set_sleep_head cpu (t_sched_next (tasks s t)) s
           in sleepers_extract cpu now t (s1\<lparr>tasks := (tasks s1)(t := (tasks s1 t)\<lparr>t_sched_next := ready\<rparr>)\<rparr>)
         else Some (ready, s))"

text \<open>The second loop enqueues a private list; \<open>target\<close> chooses the CPU and \<open>prep\<close> is what is done to each task before.\<close>

partial_function (option) enqueue_all ::
  "cpu_env \<Rightarrow> (task \<Rightarrow> 'a sched_state_scheme \<Rightarrow> u64) \<Rightarrow> (task \<Rightarrow> task) \<Rightarrow> u64 \<Rightarrow> 'a sched_state_scheme \<Rightarrow>
     'a sched_state_scheme res option" where
  "enqueue_all env target prep queue s =
     (if queue = 0 then Some (Inr s)
      else
        let nxt = t_sched_next (tasks s queue);
            s1 = s\<lparr>tasks := (tasks s)(queue := prep (tasks s queue))\<rparr>
        in (case enqueue_task env (target (tasks s1 queue) s1) queue s1 of
              Inl e \<Rightarrow> Some (Inl e)
            | Inr s2 \<Rightarrow> enqueue_all env target prep nxt s2))"

definition sched_update_sleepers :: "cpu_env \<Rightarrow> 'a sched_state_scheme \<Rightarrow> 'a sched_state_scheme res" where
  "sched_update_sleepers env s =
     (let cpu = get_cpu env s; now = get_uptime_ms s
      in bind_res (sleep_acquire env cpu s) (\<lambda>s1.
         (case sleepers_extract cpu now 0 s1 of
            None \<Rightarrow> Inl Diverges
          | Some (ready_queue, s2) \<Rightarrow>
              bind_res (sleep_release env cpu s2) (\<lambda>s3.
              converge (enqueue_all env (\<lambda>_ _. cpu) (\<lambda>t. t\<lparr>t_state := TASK_READY, t_sched_next := 0\<rparr>)
                ready_queue s3)))))"

partial_function (option) sleep_position :: "u64 \<Rightarrow> u64 \<Rightarrow> link \<Rightarrow> 'a sched_state_scheme \<Rightarrow> link option" where
  "sleep_position cpu until pp s =
     (let q = link_get (sleep_head cpu) pp s
      in if q \<noteq> 0 \<and> t_sleep_until (tasks s q) < until then sleep_position cpu until (NextOf q) s else Some pp)"

definition sched_make_task_sleep :: "cpu_env \<Rightarrow> u64 \<Rightarrow> 'a sched_state_scheme \<Rightarrow> 'a sched_state_scheme res" where
  "sched_make_task_sleep env ms s =
     bind_res (sched_get_current env s) (\<lambda>current.
       if current = 0 then Inr s
       else
         let cpu = get_cpu env s; until = get_uptime_ms s + ms
         in bind_res (upd_task current (\<lambda>t. t\<lparr>t_state := TASK_SLEEPING, t_sleep_until := until\<rparr>) s) (\<lambda>s1.
            bind_res (sleep_acquire env cpu s1) (\<lambda>s2.
            (case sleep_position cpu until Head s2 of
               None \<Rightarrow> Inl Diverges
             | Some pp \<Rightarrow>
                 bind_res (upd_task current (\<lambda>t. t\<lparr>t_sched_next := link_get (sleep_head cpu) pp s2\<rparr>) s2) (\<lambda>s3.
                 sleep_release env cpu (link_put (set_sleep_head cpu) pp current s3))))))"

section \<open>Blocking and waking\<close>

definition sched_block_current :: "cpu_env \<Rightarrow> task_reason \<Rightarrow> 'a sched_state_scheme \<Rightarrow> 'a sched_state_scheme res" where
  "sched_block_current env reason s =
     bind_res (sched_get_current env s) (\<lambda>current.
       if current = 0 then Inr s
       else
         bind_res (spin_lock env (blocked_lock s)) (\<lambda>l.
         let s1 = s\<lparr>blocked_lock := l\<rparr>
         in bind_res (upd_task current (\<lambda>t. t\<lparr>t_state := TASK_BLOCKED, t_wait_reason := reason,
                                              t_sched_next := blocked_task_list s1\<rparr>) s1) (\<lambda>s2.
            let s3 = s2\<lparr>blocked_task_list := current\<rparr>
            in Inr (s3\<lparr>blocked_lock := spin_unlock env (blocked_lock s3)\<rparr>))))"

text \<open>The first loop of \<^verbatim>\<open>sched_wakeup\<close>: the matching tasks are moved to a private list.\<close>

partial_function (option) wakeup_extract ::
  "task_reason \<Rightarrow> link \<Rightarrow> u64 \<Rightarrow> 'a sched_state_scheme \<Rightarrow> (u64 \<times> 'a sched_state_scheme) option" where
  "wakeup_extract reason pp to_wake s =
     (let t = link_get blocked_task_list pp s
      in if t = 0 then Some (to_wake, s)
         else if t_wait_reason (tasks s t) = reason then
           let s1 = link_put set_blocked pp (t_sched_next (tasks s t)) s
           in wakeup_extract reason pp t
                (s1\<lparr>tasks := (tasks s1)(t := (tasks s1 t)\<lparr>t_sched_next := to_wake, t_state := TASK_READY\<rparr>)\<rparr>)
         else wakeup_extract reason (NextOf t) to_wake s)"

definition wakeup_target :: "cpu_env \<Rightarrow> task \<Rightarrow> 'a sched_state_scheme \<Rightarrow> u64" where
  "wakeup_target env t s =
     (let target_cpu = get_cpu_by_id (t_cpu_id t) s in if target_cpu = 0 then get_cpu env s else target_cpu)"

definition sched_wakeup :: "cpu_env \<Rightarrow> task_reason \<Rightarrow> 'a sched_state_scheme \<Rightarrow> 'a sched_state_scheme res" where
  "sched_wakeup env reason s =
     bind_res (spin_lock env (blocked_lock s)) (\<lambda>l.
     (case wakeup_extract reason Head 0 (s\<lparr>blocked_lock := l\<rparr>) of
        None \<Rightarrow> Inl Diverges
      | Some (tasks_to_wake, s1) \<Rightarrow>
          converge (enqueue_all env (wakeup_target env) id tasks_to_wake
            (s1\<lparr>blocked_lock := spin_unlock env (blocked_lock s1)\<rparr>))))"

section \<open>Work stealing and priority boost\<close>

text \<open>The search of one level: the first task from \<open>cur\<close> on that may migrate, with its predecessor.\<close>

partial_function (option) steal_find :: "u64 \<Rightarrow> u64 \<Rightarrow> 'a sched_state_scheme \<Rightarrow> (u64 \<times> u64) option" where
  "steal_find cur prev s =
     (if cur = 0 then Some (0, prev)
      else if t_tid (tasks s cur) \<ge> 10 then Some (cur, prev)
      else steal_find (t_sched_next (tasks s cur)) cur s)"

definition steal_take :: "u64 \<Rightarrow> nat \<Rightarrow> u64 \<Rightarrow> u64 \<Rightarrow> 'a sched_state_scheme \<Rightarrow> 'a sched_state_scheme res" where
  "steal_take other p cur prev s =
     bind_res (task_at s cur) (\<lambda>tk.
     bind_res (if prev \<noteq> 0 then upd_task prev (\<lambda>t. t\<lparr>t_sched_next := t_sched_next tk\<rparr>) s
               else upd_cpu other (\<lambda>c. c\<lparr>c_rq_head := (c_rq_head c)(p := t_sched_next tk)\<rparr>) s) (\<lambda>s1.
     bind_res (upd_cpu other (\<lambda>c. if c_rq_tail c p = cur then c\<lparr>c_rq_tail := (c_rq_tail c)(p := prev)\<rparr> else c) s1) (\<lambda>s2.
     bind_res (upd_cpu other (\<lambda>c. c\<lparr>c_rq_count := (c_rq_count c)(p := c_rq_count c p - 1)\<rparr>) s2) (\<lambda>s3.
     upd_task cur (\<lambda>t. t\<lparr>t_sched_next := 0\<rparr>) s3))))"

fun steal_levels :: "u64 \<Rightarrow> nat list \<Rightarrow> 'a sched_state_scheme \<Rightarrow> (u64 \<times> 'a sched_state_scheme) res" where
  "steal_levels other [] s = Inr (0, s)"
| "steal_levels other (p # ps) s =
     bind_res (cpu_at s other) (\<lambda>c.
     (case steal_find (c_rq_head c p) 0 s of
        None \<Rightarrow> Inl Diverges
      | Some (cur, prev) \<Rightarrow>
          if cur = 0 then steal_levels other ps s
          else bind_res (steal_take other p cur prev s) (\<lambda>s1. Inr (cur, s1))))"

definition steal_task_from_cpu :: "cpu_env \<Rightarrow> u64 \<Rightarrow> 'a sched_state_scheme \<Rightarrow> (u64 \<times> 'a sched_state_scheme) res" where
  "steal_task_from_cpu env other s =
     bind_res (cpu_at s other) (\<lambda>c.
     bind_res (spin_trylock env (c_rq_lock c)) (\<lambda>(got, l).
       if \<not> got then Inr (0, s)
       else
         bind_res (upd_cpu other (\<lambda>c. c\<lparr>c_rq_lock := l\<rparr>) s) (\<lambda>s1.
         bind_res (steal_levels other [0 ..< 3] s1) (\<lambda>(stolen, s2).
         bind_res (rq_release env other s2) (\<lambda>s3. Inr (stolen, s3))))))"

text \<open>One turn of the loop of \<^verbatim>\<open>prio_boost\<close>, which runs for the levels 0 and 1 without the queue's lock.\<close>

definition boost_level :: "u64 \<Rightarrow> nat \<Rightarrow> 'a sched_state_scheme \<Rightarrow> 'a sched_state_scheme res" where
  "boost_level cpu p s =
     bind_res (cpu_at s cpu) (\<lambda>c.
       if c_rq_head c (p + 1) = 0 then Inr s
       else
         bind_res (if c_rq_tail c p \<noteq> 0 then upd_task (c_rq_tail c p) (\<lambda>t. t\<lparr>t_sched_next := c_rq_head c (p + 1)\<rparr>) s
                   else upd_cpu cpu (\<lambda>c. c\<lparr>c_rq_head := (c_rq_head c)(p := c_rq_head c (p + 1))\<rparr>) s) (\<lambda>s1.
         upd_cpu cpu (\<lambda>c. c\<lparr>c_rq_tail := (c_rq_tail c)(p := c_rq_tail c (p + 1), p + 1 := 0),
                            c_rq_count := (c_rq_count c)(p := c_rq_count c p + c_rq_count c (p + 1), p + 1 := 0),
                            c_rq_head := (c_rq_head c)(p + 1 := 0)\<rparr>) s1))"

definition prio_boost :: "u64 \<Rightarrow> 'a sched_state_scheme \<Rightarrow> 'a sched_state_scheme res" where
  "prio_boost cpu s = for_each (boost_level cpu) [0 ..< 2] s"

section \<open>Starting\<close>

text \<open>
  The fields of an \<^verbatim>\<open>interrupt_frame_t\<close> on a stack are words of memory. The address of the function \<^verbatim>\<open>idle_task\<close> is an
  argument.
\<close>

abbreviation F_RDI :: u64 where "F_RDI \<equiv> 64"
abbreviation F_RSI :: u64 where "F_RSI \<equiv> 72"
abbreviation F_RBP :: u64 where "F_RBP \<equiv> 80"
abbreviation F_RAX :: u64 where "F_RAX \<equiv> 112"
abbreviation F_VECTOR :: u64 where "F_VECTOR \<equiv> 120"
abbreviation F_ERROR :: u64 where "F_ERROR \<equiv> 128"
abbreviation F_RIP :: u64 where "F_RIP \<equiv> 136"
abbreviation F_CS :: u64 where "F_CS \<equiv> 144"
abbreviation F_RFLAGS :: u64 where "F_RFLAGS \<equiv> 152"
abbreviation F_RSP :: u64 where "F_RSP \<equiv> 160"
abbreviation F_SS :: u64 where "F_SS \<equiv> 168"

definition create_idle_struct :: "cpu_env \<Rightarrow> u64 \<Rightarrow> 'a sched_state_scheme \<Rightarrow> (u64 \<times> 'a sched_state_scheme) res" where
  "create_idle_struct env entry s =
     bind_res (kmalloc env SIZEOF_TASK s) (\<lambda>(t, s1).
     bind_res (upd_task t (\<lambda>_. zero_task) s1) (\<lambda>s2.
     let stack_size = 4096
     in bind_res (kmalloc env stack_size s2) (\<lambda>(base, s3).
        bind_res (upd_task t (\<lambda>tk. tk\<lparr>t_stack_base := base\<rparr>) s3) (\<lambda>s4.
        let stack_top = (base + stack_size) AND NOT 0xF;
            frame = stack_top - SIZEOF_FRAME - 8
        in bind_res (memset_zero frame SIZEOF_FRAME s4) (\<lambda>s5.
           bind_res (store64 frame F_RIP entry s5) (\<lambda>s6.
           bind_res (store64 frame F_CS 0x08 s6) (\<lambda>s7.
           bind_res (store64 frame F_RFLAGS 0x202 s7) (\<lambda>s8.
           bind_res (store64 frame F_RSP (stack_top - 8) s8) (\<lambda>s9.
           bind_res (store64 frame F_SS 0x10 s9) (\<lambda>s10.
           bind_res (store64 frame F_VECTOR 0 s10) (\<lambda>s11.
           bind_res (store64 frame F_ERROR 0 s11) (\<lambda>s12.
           bind_res (cpu_at s12 (get_cpu env s12)) (\<lambda>c.
           bind_res (upd_task t (\<lambda>tk. tk\<lparr>t_cr3 := read_cr3 env s12, t_is_user := False, t_stack_size := stack_size,
               t_rsp := frame, t_tid := 1, t_state := TASK_RUNNING, t_cpu_id := c_cpu_id c, t_priority := PRIO_IDLE\<rparr>) s12) (\<lambda>s13.
           bind_res (vma_init_task t s13) (\<lambda>s14.
           Inr (t, s14))))))))))))))))"

definition sched_init :: "cpu_env \<Rightarrow> u64 \<Rightarrow> 'a sched_state_scheme \<Rightarrow> 'a sched_state_scheme res" where
  "sched_init env idle_task s =
     (let cpu = get_cpu env s
      in bind_res (kmalloc env SIZEOF_TASK s) (\<lambda>(main_task, s1).
         bind_res (upd_task main_task (\<lambda>_. zero_task\<lparr>t_tid := 0\<rparr>) s1) (\<lambda>s2.
         bind_res (vma_init_task main_task s2) (\<lambda>s3.
         bind_res (cpu_at s3 cpu) (\<lambda>c.
         bind_res (upd_task main_task (\<lambda>tk. tk\<lparr>t_state := TASK_RUNNING, t_next := main_task, t_prev := main_task,
             t_cpu_id := c_cpu_id c, t_is_user := False, t_cr3 := read_cr3 env s3, t_stack_size := 0\<rparr>) s3) (\<lambda>s4.
         bind_res (upd_cpu cpu (\<lambda>c. c\<lparr>c_current_task := main_task\<rparr>) (s4\<lparr>root_task := main_task\<rparr>)) (\<lambda>s5.
         bind_res (create_idle_struct env idle_task s5) (\<lambda>(idle, s6).
         upd_cpu cpu (\<lambda>c. c\<lparr>c_idle_task := idle\<rparr>) s6))))))))"

definition sched_init_ap :: "cpu_env \<Rightarrow> u64 \<Rightarrow> 'a sched_state_scheme \<Rightarrow> 'a sched_state_scheme res" where
  "sched_init_ap env idle_task s =
     (let cpu = get_cpu env s
      in bind_res (create_idle_struct env idle_task s) (\<lambda>(idle, s1).
         upd_cpu cpu (\<lambda>c. c\<lparr>c_idle_task := idle, c_current_task := idle\<rparr>) s1))"

section \<open>The scheduler\<close>

text \<open>Giving up the current task: its stack pointer is saved; if it can go on it is queued again.\<close>

definition schedule_out :: "cpu_env \<Rightarrow> u64 \<Rightarrow> u64 \<Rightarrow> u64 \<Rightarrow> 'a sched_state_scheme \<Rightarrow> 'a sched_state_scheme res" where
  "schedule_out env cpu current frame s =
     (if current = 0 then Inr s
      else
        bind_res (upd_task current (\<lambda>t. t\<lparr>t_rsp := frame\<rparr>) s) (\<lambda>s1.
        bind_res
          (if t_state (tasks s1 current) = TASK_RUNNING \<and> t_priority (tasks s1 current) \<noteq> PRIO_IDLE then
             bind_res (upd_task current (\<lambda>t. t\<lparr>t_state := TASK_READY\<rparr>) s1) (enqueue_task env cpu current)
           else Inr s1) (\<lambda>s2.
        if t_tid (tasks s2 current) \<ge> 10 then upd_task current (\<lambda>t. t\<lparr>t_cpu_id := NO_CPU\<rparr>) s2 else Inr s2)))"

fun steal_from :: "cpu_env \<Rightarrow> u64 \<Rightarrow> u64 list \<Rightarrow> 'a sched_state_scheme \<Rightarrow> (u64 \<times> 'a sched_state_scheme) res" where
  "steal_from env cpu [] s = Inr (0, s)"
| "steal_from env cpu (i # is) s =
     (let other = get_cpu_by_id i s
      in if other = 0 \<or> other = cpu then steal_from env cpu is s
         else bind_res (steal_task_from_cpu env other s) (\<lambda>(t, s1).
              if t \<noteq> 0 then Inr (t, s1) else steal_from env cpu is s1))"

definition schedule_pick :: "cpu_env \<Rightarrow> u64 \<Rightarrow> 'a sched_state_scheme \<Rightarrow> (u64 \<times> 'a sched_state_scheme) res" where
  "schedule_pick env cpu s =
     bind_res (dequeue_task env cpu s) (\<lambda>(t, s1).
       if t \<noteq> 0 then Inr (t, s1)
       else bind_res (steal_from env cpu (map of_nat [0 ..< 32]) s1) (\<lambda>(t, s2).
         if t \<noteq> 0 then Inr (t, s2)
         else bind_res (cpu_at s2 cpu) (\<lambda>c. Inr (c_idle_task c, s2))))"

definition schedule_in :: "cpu_env \<Rightarrow> u64 \<Rightarrow> u64 \<Rightarrow> 'a sched_state_scheme \<Rightarrow> (u64 \<times> 'a sched_state_scheme) res" where
  "schedule_in env cpu nxt s =
     bind_res (cpu_at s cpu) (\<lambda>c.
     bind_res (upd_task nxt (\<lambda>t. t\<lparr>t_state := TASK_RUNNING, t_cpu_id := c_cpu_id c\<rparr>) s) (\<lambda>s1.
     bind_res (task_at s1 nxt) (\<lambda>tk.
     let rsp0 = t_stack_base tk + t_stack_size tk
     in bind_res (upd_cpu cpu (\<lambda>c. c\<lparr>c_current_task := nxt, c_tss := (c_tss c)\<lparr>tss_rsp0 := rsp0\<rparr>,
                                        c_kernel_stack := rsp0\<rparr>) s1) (\<lambda>s2.
        let s3 = (if t_cr3 tk \<noteq> 0 \<and> t_cr3 tk \<noteq> read_cr3 env s2 then write_cr3 env (t_cr3 tk) s2 else s2)
        in Inr (t_rsp tk, s3)))))"

definition schedule :: "cpu_env \<Rightarrow> u64 \<Rightarrow> 'a sched_state_scheme \<Rightarrow> (u64 \<times> 'a sched_state_scheme) res" where
  "schedule env frame s =
     (let cpu = get_cpu env s
      in bind_res (cpu_at s cpu) (\<lambda>c.
         let current = c_current_task c; now = get_uptime_ms s
         in bind_res
              (if now \<ge> c_next_priority_boost c then
                 bind_res (prio_boost cpu s) (upd_cpu cpu (\<lambda>c. c\<lparr>c_next_priority_boost := now + PRIORITY_BOOST\<rparr>))
               else Inr s) (\<lambda>s1.
            bind_res (schedule_out env cpu current frame s1) (\<lambda>s2.
            bind_res (schedule_pick env cpu s2) (\<lambda>(nxt, s3).
            schedule_in env cpu nxt s3)))))"

section \<open>Ending a task\<close>

definition zombie_fmt :: string where "zombie_fmt = ''[SCHED] Task %d is now a ZOMBIE.\<newline>''"
definition reaper_fmt :: string where "reaper_fmt = ''[REAPER] Cleaning up TID %d\<newline>''"

text \<open>\<^verbatim>\<open>task_exit\<close> up to its endless loop, in which the dead task yields.\<close>

definition task_exit :: "cpu_env \<Rightarrow> 'a sched_state_scheme \<Rightarrow> 'a sched_state_scheme res" where
  "task_exit env s =
     bind_res (sched_get_current env s) (\<lambda>current.
       if current = 0 then Inr s
       else
         bind_res (spin_lock env (dead_lock s)) (\<lambda>l.
         bind_res (kprintf env zombie_fmt [VaInt (ucast (ucast (t_tid (tasks s current)) :: u32))] (s\<lparr>dead_lock := l\<rparr>)) (\<lambda>s1.
         bind_res (upd_task current (\<lambda>t. t\<lparr>t_state := TASK_ZOMBIE, t_cpu_id := NO_CPU, t_sched_next := dead_task_list s1\<rparr>) s1) (\<lambda>s2.
         let s3 = s2\<lparr>dead_task_list := current\<rparr>
         in Inr (s3\<lparr>dead_lock := spin_unlock env (dead_lock s3)\<rparr>)))))"

text \<open>Unlinking a task from the circular list of all tasks, under \<^verbatim>\<open>sched_lock_\<close>.\<close>

definition reap_unlink :: "cpu_env \<Rightarrow> u64 \<Rightarrow> 'a sched_state_scheme \<Rightarrow> 'a sched_state_scheme res" where
  "reap_unlink env z s =
     bind_res (spin_lock env (sched_lock s)) (\<lambda>l.
     bind_res (task_at s z) (\<lambda>tz.
     let p = t_prev tz; n = t_next tz
     in bind_res (upd_task p (\<lambda>t. t\<lparr>t_next := n\<rparr>) (s\<lparr>sched_lock := l\<rparr>)) (\<lambda>s1.
        bind_res (upd_task n (\<lambda>t. t\<lparr>t_prev := p\<rparr>) s1) (\<lambda>s2.
        let s3 = (if root_task s2 = z then s2\<lparr>root_task := (if n = z then 0 else n)\<rparr> else s2)
        in Inr (s3\<lparr>sched_lock := spin_unlock env (sched_lock s3)\<rparr>)))))"

definition reap_one :: "cpu_env \<Rightarrow> u64 \<Rightarrow> 'a sched_state_scheme \<Rightarrow> 'a sched_state_scheme res" where
  "reap_one env z s =
     bind_res (reap_unlink env z s) (\<lambda>s1.
     bind_res (kprintf env reaper_fmt [VaInt (ucast (ucast (t_tid (tasks s1 z)) :: u32))] s1) (\<lambda>s2.
     bind_res (if t_tid (tasks s2 z) \<ge> 10 then vma_destroy_all env z s2 else Inr s2) (\<lambda>s3.
     bind_res (kfree env (t_stack_base (tasks s3 z)) s3) (\<lambda>s4.
     kfree env z s4))))"

partial_function (option) reap_all :: "cpu_env \<Rightarrow> u64 \<Rightarrow> 'a sched_state_scheme \<Rightarrow> 'a sched_state_scheme res option" where
  "reap_all env to_clean s =
     (if to_clean = 0 then Some (Inr s)
      else
        let next_zombie = t_sched_next (tasks s to_clean)
        in (case reap_one env to_clean s of
              Inl e \<Rightarrow> Some (Inl e)
            | Inr s1 \<Rightarrow> reap_all env next_zombie s1))"

definition sched_reap :: "cpu_env \<Rightarrow> 'a sched_state_scheme \<Rightarrow> 'a sched_state_scheme res" where
  "sched_reap env s =
     (if dead_task_list s = 0 then Inr s
      else
        bind_res (spin_lock env (dead_lock s)) (\<lambda>l.
        let s1 = s\<lparr>dead_lock := l\<rparr>;
            to_clean = dead_task_list s1;
            s2 = s1\<lparr>dead_task_list := 0\<rparr>
        in converge (reap_all env to_clean (s2\<lparr>dead_lock := spin_unlock env (dead_lock s2)\<rparr>))))"

text \<open>One turn of the idle task: the boot CPU also reaps the dead and flushes the log.\<close>

definition idle_turn :: "cpu_env \<Rightarrow> 'a sched_state_scheme \<Rightarrow> 'a sched_state_scheme res" where
  "idle_turn env s =
     bind_res (cpu_at s (get_cpu env s)) (\<lambda>c.
       if c_cpu_id c = 0 then bind_res (sched_reap env s) (\<lambda>s1. log_flush s1) else Inr s)"

end
