(* ===== verification/Runqueue.thy ===== *)
theory Runqueue
  imports Task "HOL-Library.Multiset"
begin

text \<open>
  The run queues as first-in-first-out queues: what \<^verbatim>\<open>enqueue_task\<close> and \<^verbatim>\<open>dequeue_task\<close> do to the lists of tasks that
  the link field \<^verbatim>\<open>sched_next\<close> threads through the store, and the order in which tasks are picked.
\<close>

section \<open>Lists of tasks\<close>

abbreviation snext :: "'a sched_state_scheme \<Rightarrow> u64 \<Rightarrow> u64" where
  "snext s x \<equiv> t_sched_next (tasks s x)"

definition rq_level :: "'a sched_state_scheme \<Rightarrow> u64 \<Rightarrow> nat \<Rightarrow> u64 list \<Rightarrow> bool" where
  "rq_level s cpu p xs \<longleftrightarrow>
     chain (snext s) (c_rq_head (cpus s cpu) p) xs \<and>
     c_rq_tail (cpus s cpu) p = (if xs = [] then 0 else last xs) \<and>
     c_rq_count (cpus s cpu) p = of_nat (length xs)"

text \<open>The queues of one CPU: no task is in two of them.\<close>

definition rq_ok :: "'a sched_state_scheme \<Rightarrow> u64 \<Rightarrow> (nat \<Rightarrow> u64 list) \<Rightarrow> bool" where
  "rq_ok s cpu Q \<longleftrightarrow> (\<forall>p<4. rq_level s cpu p (Q p)) \<and> (\<forall>p<4. \<forall>q<4. p \<noteq> q \<longrightarrow> set (Q p) \<inter> set (Q q) = {})"

definition queued :: "(nat \<Rightarrow> u64 list) \<Rightarrow> u64 set" where
  "queued Q = (\<Union>p<4. set (Q p))"

lemma rq_level_head: "rq_level s cpu p xs \<Longrightarrow> c_rq_head (cpus s cpu) p = (if xs = [] then 0 else hd xs)"
  unfolding rq_level_def using chain_head by blast

lemma rq_level_notnull: "rq_level s cpu p xs \<Longrightarrow> 0 \<notin> set xs"
  unfolding rq_level_def by (blast dest: lseg_notnull)

lemma rq_level_distinct: "rq_level s cpu p xs \<Longrightarrow> distinct xs"
  unfolding rq_level_def by (blast dest: chain_distinct)

lemma rq_level_cong:
  assumes "\<And>x. x \<in> set xs \<Longrightarrow> snext s' x = snext s x"
    and "c_rq_head (cpus s' cpu) p = c_rq_head (cpus s cpu) p"
    and "c_rq_tail (cpus s' cpu) p = c_rq_tail (cpus s cpu) p"
    and "c_rq_count (cpus s' cpu) p = c_rq_count (cpus s cpu) p"
  shows "rq_level s' cpu p xs = rq_level s cpu p xs"
  using assms lseg_cong [of xs "snext s'" "snext s"] by (simp add: rq_level_def)

lemma rq_ok_level: "rq_ok s cpu Q \<Longrightarrow> p < 4 \<Longrightarrow> rq_level s cpu p (Q p)"
  by (simp add: rq_ok_def)

section \<open>Enqueueing\<close>

definition level_of :: "task \<Rightarrow> nat" where
  "level_of t = prio_index (t_base_priority t)"

lemma level_of_less: "level_of t < 4"
  by (auto simp: level_of_def prio_index_def word_le_nat_alt)

text \<open>The state \<^verbatim>\<open>enqueue_task\<close> leaves, in closed form.\<close>

definition enq_task :: "cpu_context \<Rightarrow> task \<Rightarrow> task" where
  "enq_task c t = t\<lparr>t_priority := t_base_priority t, t_sched_next := 0,
     t_cpu_id := (if t_cpu_id t = NO_CPU then c_cpu_id c else t_cpu_id t)\<rparr>"

definition enq_cpu :: "u64 \<Rightarrow> nat \<Rightarrow> cpu_context \<Rightarrow> cpu_context" where
  "enq_cpu task i c = c\<lparr>c_current_quanta := (c_current_quanta c)(i := 0),
     c_rq_head := (if c_rq_tail c i = 0 then (c_rq_head c)(i := task) else c_rq_head c),
     c_rq_tail := (c_rq_tail c)(i := task),
     c_rq_count := (c_rq_count c)(i := c_rq_count c i + 1)\<rparr>"

definition enq_tasks :: "cpu_context \<Rightarrow> u64 \<Rightarrow> (u64 \<Rightarrow> task) \<Rightarrow> u64 \<Rightarrow> task" where
  "enq_tasks c task ts =
     (let lst = c_rq_tail c (level_of (ts task)); ts1 = ts(task := enq_task c (ts task))
      in if lst = 0 then ts1 else ts1(lst := (ts1 lst)\<lparr>t_sched_next := task\<rparr>))"

lemma enqueue_body_eq:
  assumes "cpu \<noteq> 0" "task \<noteq> 0" "c_rq_tail (cpus s cpu) (level_of (tasks s task)) \<noteq> task"
  shows "enqueue_body cpu task s =
    Inr (s\<lparr>tasks := enq_tasks (cpus s cpu) task (tasks s),
           cpus := (cpus s)(cpu := enq_cpu task (level_of (tasks s task)) (cpus s cpu))\<rparr>)"
proof -
  define i where "i = prio_index (t_base_priority (tasks s task))"
  have lv: "level_of (tasks s task) = i" by (simp add: i_def level_of_def)
  note defs = enqueue_body_def upd_task_def upd_cpu_def task_at_def cpu_at_def Let_def enq_tasks_def enq_cpu_def enq_task_def
  show ?thesis
  proof (cases "c_rq_tail (cpus s cpu) i = 0")
    case True
    with assms show ?thesis by (simp add: defs lv flip: i_def)
  next
    case False
    with assms show ?thesis by (simp add: defs lv fun_upd_twist flip: i_def)
  qed
qed

definition lock_cycle :: "cpu_env \<Rightarrow> spinlock \<Rightarrow> spinlock" where
  "lock_cycle env l = spin_unlock env (spin_locked env l)"

lemma lock_idle_cycle [simp]: "lock_idle (lock_cycle env l) = lock_idle l"
  by (simp add: lock_cycle_def)

abbreviation rq_cycle :: "cpu_env \<Rightarrow> cpu_context \<Rightarrow> cpu_context" where
  "rq_cycle env c \<equiv> c\<lparr>c_rq_lock := lock_cycle env (c_rq_lock c)\<rparr>"

lemma rq_acquire_eq:
  assumes "cpu \<noteq> 0" "lock_free env (c_rq_lock (cpus s cpu))"
  shows "rq_acquire env cpu s =
    Inr (s\<lparr>cpus := (cpus s)(cpu := (cpus s cpu)\<lparr>c_rq_lock := spin_locked env (c_rq_lock (cpus s cpu))\<rparr>)\<rparr>)"
  using assms by (simp add: rq_acquire_def cpu_at_def upd_cpu_def spin_lock_free)

lemma enqueue_task_eq:
  assumes "cpu \<noteq> 0" "task \<noteq> 0" "c_rq_tail (cpus s cpu) (level_of (tasks s task)) \<noteq> task"
    and "lock_free env (c_rq_lock (cpus s cpu))"
  shows "enqueue_task env cpu task s =
    Inr (s\<lparr>tasks := enq_tasks (cpus s cpu) task (tasks s),
           cpus := (cpus s)(cpu := rq_cycle env (enq_cpu task (level_of (tasks s task)) (cpus s cpu)))\<rparr>)"
proof -
  let ?s1 = "s\<lparr>cpus := (cpus s)(cpu := (cpus s cpu)\<lparr>c_rq_lock := spin_locked env (c_rq_lock (cpus s cpu))\<rparr>)\<rparr>"
  have "enqueue_body cpu task ?s1 =
    Inr (?s1\<lparr>tasks := enq_tasks (cpus ?s1 cpu) task (tasks ?s1),
           cpus := (cpus ?s1)(cpu := enq_cpu task (level_of (tasks ?s1 task)) (cpus ?s1 cpu))\<rparr>)"
    using assms by (intro enqueue_body_eq) auto
  moreover have "enq_tasks (cpus ?s1 cpu) task (tasks ?s1) = enq_tasks (cpus s cpu) task (tasks s)"
    by (simp add: enq_tasks_def enq_task_def)
  ultimately show ?thesis using assms
    by (simp add: enqueue_task_def rq_acquire_eq rq_release_def upd_cpu_def enq_cpu_def lock_cycle_def)
qed

lemma snext_enq:
  assumes "lst = c_rq_tail c (level_of (ts task))" "lst \<noteq> task"
  shows "(\<lambda>x. t_sched_next (enq_tasks c task ts x)) =
    (if lst = 0 then (\<lambda>x. t_sched_next (ts x))(task := 0) else ((\<lambda>x. t_sched_next (ts x))(task := 0))(lst := task))"
  using assms by (auto simp: enq_tasks_def enq_task_def Let_def fun_eq_iff)

text \<open>A task that is not queued is appended to the queue of its base priority; the other queues stay.\<close>

lemma enqueue_rq_ok:
  assumes ok: "rq_ok s cpu Q" and new: "task \<notin> queued Q" "task \<noteq> 0"
    and s': "tasks s' = enq_tasks (cpus s cpu) task (tasks s)"
    and head: "c_rq_head (cpus s' cpu) = c_rq_head (enq_cpu task i (cpus s cpu))"
    and tail: "c_rq_tail (cpus s' cpu) = c_rq_tail (enq_cpu task i (cpus s cpu))"
    and cnt: "c_rq_count (cpus s' cpu) = c_rq_count (enq_cpu task i (cpus s cpu))"
    and i: "i = level_of (tasks s task)"
  shows "rq_ok s' cpu (Q(i := Q i @ [task]))"
proof -
  have i4: "i < 4" by (simp add: i level_of_less)
  let ?lst = "c_rq_tail (cpus s cpu) i"
  have lv: "rq_level s cpu p (Q p)" if "p < 4" for p using rq_ok_level [OF ok that] .
  have lst: "?lst = (if Q i = [] then 0 else last (Q i))" using lv [OF i4] by (simp add: rq_level_def)
  have nin: "task \<notin> set (Q p)" if "p < 4" for p using new(1) that by (auto simp: queued_def)
  have nt: "?lst \<noteq> task" using lst nin [OF i4] new(2) by (auto split: if_splits dest: last_in_set)
  have nx: "snext s' = (if ?lst = 0 then (snext s)(task := 0) else ((snext s)(task := 0))(?lst := task))"
    using snext_enq [of ?lst "cpus s cpu" "tasks s" task] i nt unfolding s' by simp
  have lst0: "?lst = 0 \<longleftrightarrow> Q i = []" using lst rq_level_notnull [OF lv [OF i4]] by (auto split: if_splits dest: last_in_set)
  have "rq_level s' cpu p ((Q(i := Q i @ [task])) p)" if p: "p < 4" for p
  proof (cases "p = i")
    case False
    have "?lst \<notin> set (Q p)" if "Q i \<noteq> []"
      using ok False p i4 lst that unfolding rq_ok_def by (metis disjoint_iff last_in_set)
    then have "snext s' x = snext s x" if "x \<in> set (Q p)" for x
      using fun_cong [OF nx, of x] that nin [OF p] lst0 by (auto split: if_splits)
    then show ?thesis using lv [OF p] False head tail cnt
      by (subst rq_level_cong [where s = s]) (auto simp: enq_cpu_def)
  next
    case True
    show ?thesis
    proof (cases "Q i = []")
      case nil: True
      then show ?thesis using True lv [OF i4] lst0 head tail cnt new(2) unfolding rq_level_def nx
        by (simp add: enq_cpu_def)
    next
      case False
      have "chain (((snext s)(task := 0))(last (Q i) := task)) (c_rq_head (cpus s cpu) i) (Q i @ [task])"
        using lv [OF i4] False nin [OF i4] new(2) by (intro chain_snoc) (simp_all add: rq_level_def)
      then show ?thesis using True False lv [OF i4] lst lst0 head tail cnt unfolding rq_level_def nx
        by (simp add: enq_cpu_def)
    qed
  qed
  moreover have "set ((Q(i := Q i @ [task])) p) \<inter> set ((Q(i := Q i @ [task])) q) = {}"
    if "p < 4" "q < 4" "p \<noteq> q" for p q
    using ok that nin unfolding rq_ok_def by auto
  ultimately show ?thesis unfolding rq_ok_def by blast
qed

section \<open>Dequeueing\<close>

text \<open>Which level \<^verbatim>\<open>dequeue_task\<close> takes a task from, and the quanta it leaves.\<close>

fun pick :: "cpu_context \<Rightarrow> nat list \<Rightarrow> (nat \<Rightarrow> u32) \<Rightarrow> nat option \<times> (nat \<Rightarrow> u32)" where
  "pick c [] q = (None, q)"
| "pick c (p # ps) q =
     (if c_rq_head c p = 0 then pick c ps (q(p := 0))
      else if q p \<ge> priority_quanta ! p then
        (if work_below c p then pick c ps (q(p := 0)) else (Some p, q(p := 0)))
      else (Some p, q))"

definition with_quanta :: "u64 \<Rightarrow> (nat \<Rightarrow> u32) \<Rightarrow> 'a sched_state_scheme \<Rightarrow> 'a sched_state_scheme" where
  "with_quanta cpu q s = s\<lparr>cpus := (cpus s)(cpu := (cpus s cpu)\<lparr>c_current_quanta := q\<rparr>)\<rparr>"

lemma with_quanta_twice: "with_quanta cpu q (with_quanta cpu r s) = with_quanta cpu q s"
  by (simp add: with_quanta_def)

lemma with_quanta_id: "with_quanta cpu (c_current_quanta (cpus s cpu)) s = s"
  by (simp add: with_quanta_def)

lemma pick_cong: "c_rq_head c' = c_rq_head c \<Longrightarrow> pick c' ps q = pick c ps q"
  by (induction ps arbitrary: q) (auto simp: work_below_def)

lemma dequeue_levels_eq:
  assumes "cpu \<noteq> 0"
  shows "dequeue_levels cpu ps s =
    (case pick (cpus s cpu) ps (c_current_quanta (cpus s cpu)) of
       (None, q) \<Rightarrow> Inr (0, with_quanta cpu q s)
     | (Some p, q) \<Rightarrow> dequeue_take cpu p (with_quanta cpu q s))"
proof (induction ps arbitrary: s)
  case Nil
  then show ?case by (simp add: with_quanta_id)
next
  case (Cons p ps)
  let ?q = "(c_current_quanta (cpus s cpu))(p := 0)"
  let ?s1 = "with_quanta cpu ?q s"
  have upd: "upd_cpu cpu (\<lambda>c. c\<lparr>c_current_quanta := (c_current_quanta c)(p := 0)\<rparr>) s = Inr ?s1"
    using assms by (simp add: upd_cpu_def with_quanta_def)
  have q1: "c_current_quanta (cpus ?s1 cpu) = ?q" by (simp add: with_quanta_def)
  have pk: "pick (cpus ?s1 cpu) ps ?q = pick (cpus s cpu) ps ?q" by (rule pick_cong) (simp add: with_quanta_def)
  have IH: "dequeue_levels cpu ps ?s1 = (case pick (cpus s cpu) ps ?q of
       (None, q) \<Rightarrow> Inr (0, with_quanta cpu q s) | (Some p, q) \<Rightarrow> dequeue_take cpu p (with_quanta cpu q s))"
    unfolding Cons.IH [of ?s1] q1 pk with_quanta_twice by (rule refl)
  show ?case
    using assms upd IH by (simp add: cpu_at_def with_quanta_id)
qed

text \<open>A level that has work is picked whenever there is any, and no non-empty level above it has quantum left.\<close>

lemma pick_Some:
  assumes "\<exists>p \<in> set ps. c_rq_head c p \<noteq> 0" "sorted_wrt (<) ps" "set ps \<subseteq> {..<3}"
    and "\<forall>p \<in> set ps. \<forall>low<3. p < low \<longrightarrow> low \<in> set ps"
  shows "\<exists>p q'. pick c ps q = (Some p, q') \<and> p \<in> set ps \<and> c_rq_head c p \<noteq> 0 \<and>
    (\<forall>r \<in> set ps. r < p \<and> c_rq_head c r \<noteq> 0 \<longrightarrow> priority_quanta ! r \<le> q r)"
  using assms
proof (induction ps arbitrary: q)
  case (Cons p ps)
  have ge: "\<forall>r \<in> set ps. p < r" using Cons.prems(2) by simp
  show ?case
  proof (cases "c_rq_head c p \<noteq> 0 \<and> \<not> (q p \<ge> priority_quanta ! p \<and> work_below c p)")
    case True
    then show ?thesis using ge by auto
  next
    case False
    have ex: "\<exists>r \<in> set ps. c_rq_head c r \<noteq> 0"
    proof (cases "c_rq_head c p = 0")
      case True
      then show ?thesis using Cons.prems(1) by auto
    next
      case head: False
      then obtain low where "p < low" "low < 3" "c_rq_head c low \<noteq> 0" using False by (auto simp: work_below_def Suc_le_eq)
      then show ?thesis using Cons.prems(4) by auto
    qed
    have up: "\<forall>r \<in> set ps. \<forall>low<3. r < low \<longrightarrow> low \<in> set ps"
    proof (intro ballI allI impI)
      fix r low assume "r \<in> set ps" "low < 3" "r < low"
      moreover then have "low \<in> set (p # ps)" and "p < r" using Cons.prems(4) ge by auto
      ultimately show "low \<in> set ps" by auto
    qed
    have sub: "sorted_wrt (<) ps" "set ps \<subseteq> {..<3}" using Cons.prems(2,3) by auto
    obtain r q' where r: "pick c ps (q(p := 0)) = (Some r, q')" "r \<in> set ps" "c_rq_head c r \<noteq> 0"
      "\<forall>x \<in> set ps. x < r \<and> c_rq_head c x \<noteq> 0 \<longrightarrow> priority_quanta ! x \<le> (q(p := 0)) x"
      using Cons.IH [OF ex sub up, of "q(p := 0)"] by blast
    have "\<forall>x \<in> set (p # ps). x < r \<and> c_rq_head c x \<noteq> 0 \<longrightarrow> priority_quanta ! x \<le> q x"
      using r(4) False ge by (auto split: if_splits)
    then show ?thesis using r False by auto
  qed
qed simp

text \<open>Taking the first task of a level.\<close>

definition deq_cpu :: "nat \<Rightarrow> u64 \<Rightarrow> cpu_context \<Rightarrow> cpu_context" where
  "deq_cpu p nxt c = c\<lparr>c_rq_head := (c_rq_head c)(p := nxt),
     c_rq_tail := (if nxt = 0 then (c_rq_tail c)(p := 0) else c_rq_tail c),
     c_rq_count := (c_rq_count c)(p := c_rq_count c p - 1),
     c_current_quanta := (c_current_quanta c)(p := c_current_quanta c p + 1)\<rparr>"

lemma dequeue_take_eq:
  assumes "cpu \<noteq> 0" "c_rq_head (cpus s cpu) p = t" "t \<noteq> 0"
  shows "dequeue_take cpu p s = Inr (t, s\<lparr>cpus := (cpus s)(cpu := deq_cpu p (snext s t) (cpus s cpu))\<rparr>)"
  using assms by (simp add: dequeue_take_def cpu_at_def task_at_def upd_cpu_def deq_cpu_def Let_def)

lemma dequeue_rq_ok:
  assumes ok: "rq_ok s cpu Q" and p: "p < 4" and Q: "Q p = t # ts"
    and tk: "tasks s' = tasks s"
    and head: "c_rq_head (cpus s' cpu) = c_rq_head (deq_cpu p (snext s t) (cpus s cpu))"
    and tail: "c_rq_tail (cpus s' cpu) = c_rq_tail (deq_cpu p (snext s t) (cpus s cpu))"
    and cnt: "c_rq_count (cpus s' cpu) = c_rq_count (deq_cpu p (snext s t) (cpus s cpu))"
  shows "rq_ok s' cpu (Q(p := ts))"
proof -
  have lp: "rq_level s cpu p (t # ts)" using rq_ok_level [OF ok p] Q by simp
  then have ch: "chain (snext s) (snext s t) ts" by (simp add: rq_level_def)
  have nz: "snext s t = 0 \<longleftrightarrow> ts = []" using ch by (cases ts) auto
  have "rq_level s' cpu p ts" using lp ch nz head tail cnt unfolding rq_level_def deq_cpu_def tk by auto
  moreover have "rq_level s' cpu r (Q r)" if "r < 4" "r \<noteq> p" for r
    using rq_ok_level [OF ok that(1)] that(2) head tail cnt
    by (subst rq_level_cong [where s = s]) (auto simp: deq_cpu_def tk)
  moreover have "set ((Q(p := ts)) a) \<inter> set ((Q(p := ts)) b) = {}" if "a < 4" "b < 4" "a \<noteq> b" for a b
  proof -
    have "set ((Q(p := ts)) a) \<subseteq> set (Q a)" "set ((Q(p := ts)) b) \<subseteq> set (Q b)" using Q by auto
    then show ?thesis using ok that unfolding rq_ok_def by blast
  qed
  ultimately show ?thesis unfolding rq_ok_def by simp
qed

text \<open>What both operations need of the state, and what they keep of it.\<close>

definition rq_ready :: "cpu_env \<Rightarrow> u64 \<Rightarrow> 'a sched_state_scheme \<Rightarrow> (nat \<Rightarrow> u64 list) \<Rightarrow> bool" where
  "rq_ready env cpu s Q \<longleftrightarrow> cpu \<noteq> 0 \<and> env_ok env \<and> lock_idle (c_rq_lock (cpus s cpu)) \<and> rq_ok s cpu Q"

lemma rq_ready_free: "rq_ready env cpu s Q \<Longrightarrow> lock_free env (c_rq_lock (cpus s cpu))"
  by (simp add: rq_ready_def lock_idle_free)

lemma enqueue_task_spec:
  assumes rdy: "rq_ready env cpu s Q" and new: "task \<notin> queued Q" "task \<noteq> 0"
  shows "\<exists>s'. enqueue_task env cpu task s = Inr s' \<and> rq_ready env cpu s' (Q(level_of (tasks s task) := Q (level_of (tasks s task)) @ [task]))
    \<and> s' = s\<lparr>tasks := enq_tasks (cpus s cpu) task (tasks s),
           cpus := (cpus s)(cpu := rq_cycle env (enq_cpu task (level_of (tasks s task)) (cpus s cpu)))\<rparr>"
proof -
  let ?i = "level_of (tasks s task)"
  let ?s = "s\<lparr>tasks := enq_tasks (cpus s cpu) task (tasks s),
           cpus := (cpus s)(cpu := rq_cycle env (enq_cpu task ?i (cpus s cpu)))\<rparr>"
  have ok: "rq_ok s cpu Q" and cpu: "cpu \<noteq> 0" using rdy by (auto simp: rq_ready_def)
  have lv: "rq_level s cpu ?i (Q ?i)" by (rule rq_ok_level [OF ok level_of_less])
  have "c_rq_tail (cpus s cpu) ?i \<noteq> task"
    using lv new level_of_less [of "tasks s task"] by (auto simp: rq_level_def queued_def split: if_splits dest!: last_in_set)
  then have eq: "enqueue_task env cpu task s = Inr ?s"
    by (rule enqueue_task_eq [OF cpu new(2) _ rq_ready_free [OF rdy]])
  have "rq_ok ?s cpu (Q(?i := Q ?i @ [task]))" by (rule enqueue_rq_ok [OF ok new]) simp_all
  then have "rq_ready env cpu ?s (Q(?i := Q ?i @ [task]))" using rdy by (simp add: rq_ready_def enq_cpu_def)
  then show ?thesis using eq by blast
qed

lemma rq_ok_cong:
  assumes "tasks s' = tasks s" "c_rq_head (cpus s' cpu) = c_rq_head (cpus s cpu)"
    "c_rq_tail (cpus s' cpu) = c_rq_tail (cpus s cpu)" "c_rq_count (cpus s' cpu) = c_rq_count (cpus s cpu)"
  shows "rq_ok s' cpu Q = rq_ok s cpu Q"
  using assms by (simp add: rq_ok_def rq_level_def)

lemma dequeue_task_spec:
  assumes rdy: "rq_ready env cpu s Q"
  shows "\<exists>t s' c'. dequeue_task env cpu s = Inr (t, s') \<and> s' = s\<lparr>cpus := (cpus s)(cpu := c')\<rparr> \<and>
    (\<exists>q h tl n l. c' = (cpus s cpu)\<lparr>c_rq_head := h, c_rq_tail := tl, c_rq_count := n, c_current_quanta := q, c_rq_lock := l\<rparr>) \<and>
    ((\<forall>p<3. Q p = []) \<and> t = 0 \<and> rq_ready env cpu s' Q \<or>
     (\<exists>p<3. \<exists>ts. Q p = t # ts \<and> rq_ready env cpu s' (Q(p := ts)) \<and>
        (\<forall>r<p. Q r \<noteq> [] \<longrightarrow> priority_quanta ! r \<le> c_current_quanta (cpus s cpu) r)))"
proof -
  have ok: "rq_ok s cpu Q" and cpu: "cpu \<noteq> 0" and lk: "lock_idle (c_rq_lock (cpus s cpu))"
    using rdy by (auto simp: rq_ready_def)
  let ?c = "cpus s cpu"
  let ?s1 = "s\<lparr>cpus := (cpus s)(cpu := ?c\<lparr>c_rq_lock := spin_locked env (c_rq_lock ?c)\<rparr>)\<rparr>"
  have acq: "rq_acquire env cpu s = Inr ?s1" by (rule rq_acquire_eq [OF cpu rq_ready_free [OF rdy]])
  have head: "c_rq_head ?c p = (if Q p = [] then 0 else hd (Q p))" if "p < 4" for p
    by (rule rq_level_head [OF rq_ok_level [OF ok that]])
  have hnz: "c_rq_head ?c p = 0 \<longleftrightarrow> Q p = []" if "p < 4" for p
    using head [OF that] rq_level_notnull [OF rq_ok_level [OF ok that]] by (cases "Q p") auto
  have pk: "pick (cpus ?s1 cpu) [0..<3] (c_current_quanta (cpus ?s1 cpu)) = pick ?c [0..<3] (c_current_quanta ?c)"
    using pick_cong [of "cpus ?s1 cpu" ?c] by simp
  show ?thesis
  proof (cases "\<exists>p \<in> set [0..<3]. c_rq_head ?c p \<noteq> 0")
    case False
    then have nil: "\<forall>p<3. Q p = []" using hnz by auto
    have none: "fst (pick ?c ps q) = None" if "set ps \<subseteq> {..<3}" for ps q
      using that False by (induction ps arbitrary: q) auto
    obtain q where "pick ?c [0..<3] (c_current_quanta ?c) = (None, q)"
      using none [of "[0..<3]" "c_current_quanta ?c"] by (metis atLeastLessThan_upt lessThan_atLeast0 order_refl prod.collapse)
    then have dl: "dequeue_levels cpu [0..<3] ?s1 = Inr (0, with_quanta cpu q ?s1)"
      by (simp only: dequeue_levels_eq [OF cpu] pk) simp
    let ?c' = "?c\<lparr>c_rq_head := c_rq_head ?c, c_rq_tail := c_rq_tail ?c, c_rq_count := c_rq_count ?c, c_current_quanta := q,
      c_rq_lock := lock_cycle env (c_rq_lock ?c)\<rparr>"
    have eq: "dequeue_task env cpu s = Inr (0, s\<lparr>cpus := (cpus s)(cpu := ?c')\<rparr>)"
      unfolding dequeue_task_def acq using dl cpu
      by (simp add: with_quanta_def rq_release_def upd_cpu_def lock_cycle_def)
    have "rq_ready env cpu (s\<lparr>cpus := (cpus s)(cpu := ?c')\<rparr>) Q"
      using rdy unfolding rq_ready_def by (subst rq_ok_cong [where s = s]) auto
    then show ?thesis using eq nil by blast
  next
    case True
    have sub: "set [0..<3] \<subseteq> {..<3}" and up: "\<forall>p \<in> set [0..<3]. \<forall>low<3. p < low \<longrightarrow> low \<in> set [0..<3]" by auto
    obtain p q where pq: "pick ?c [0..<3] (c_current_quanta ?c) = (Some p, q)" "p < 3" "c_rq_head ?c p \<noteq> 0"
      "\<forall>r \<in> set [0..<3]. r < p \<and> c_rq_head ?c r \<noteq> 0 \<longrightarrow> priority_quanta ! r \<le> c_current_quanta ?c r"
      using pick_Some [OF True sorted_wrt_upt sub up, of "c_current_quanta ?c"] by auto
    then obtain t ts where Q: "Q p = t # ts" using hnz [of p] by (cases "Q p") auto
    have t: "c_rq_head ?c p = t" "t \<noteq> 0" using head [of p] pq(2,3) Q by auto
    have dl: "dequeue_levels cpu [0..<3] ?s1 = dequeue_take cpu p (with_quanta cpu q ?s1)"
      by (simp only: dequeue_levels_eq [OF cpu] pk pq(1)) simp
    have tk: "dequeue_take cpu p (with_quanta cpu q ?s1) =
      Inr (t, (with_quanta cpu q ?s1)\<lparr>cpus := (cpus (with_quanta cpu q ?s1))(cpu := deq_cpu p (snext s t) (cpus (with_quanta cpu q ?s1) cpu))\<rparr>)"
      using t dequeue_take_eq [OF cpu, of "with_quanta cpu q ?s1" p t] by (simp add: with_quanta_def)
    let ?d = "deq_cpu p (snext s t) ?c"
    let ?c' = "?c\<lparr>c_rq_head := c_rq_head ?d, c_rq_tail := c_rq_tail ?d,
      c_rq_count := c_rq_count ?d, c_current_quanta := q(p := q p + 1), c_rq_lock := lock_cycle env (c_rq_lock ?c)\<rparr>"
    have eq: "dequeue_task env cpu s = Inr (t, s\<lparr>cpus := (cpus s)(cpu := ?c')\<rparr>)"
      unfolding dequeue_task_def acq using dl tk cpu
      by (simp add: with_quanta_def rq_release_def upd_cpu_def lock_cycle_def deq_cpu_def)
    have "rq_ok (s\<lparr>cpus := (cpus s)(cpu := ?c')\<rparr>) cpu (Q(p := ts))"
      using pq(2) by (intro dequeue_rq_ok [OF ok _ Q]) simp_all
    then have "rq_ready env cpu (s\<lparr>cpus := (cpus s)(cpu := ?c')\<rparr>) (Q(p := ts))"
      using rdy by (simp add: rq_ready_def)
    moreover have "\<forall>r<p. Q r \<noteq> [] \<longrightarrow> priority_quanta ! r \<le> c_current_quanta ?c r"
      using pq(2,4) hnz by auto
    ultimately show ?thesis using eq Q pq(2) by blast
  qed
qed

section \<open>The interface of a ready queue\<close>

text \<open>Asking for a task \<open>n\<close> times.\<close>

fun serve :: "('s \<Rightarrow> (u64 \<times> 's) res) \<Rightarrow> nat \<Rightarrow> 's \<Rightarrow> (u64 list \<times> 's) res" where
  "serve deq 0 s = Inr ([], s)"
| "serve deq (Suc n) s =
     bind_res (deq s) (\<lambda>(t, s1). bind_res (serve deq n s1) (\<lambda>(ts, s2). Inr (t # ts, s2)))"

definition waiting :: "(nat \<Rightarrow> u64 list) \<Rightarrow> nat" where
  "waiting Q = (\<Sum>p<3. length (Q p))"

locale ready_queue =
  fixes enq :: "u64 \<Rightarrow> 's \<Rightarrow> 's res"
    and deq :: "'s \<Rightarrow> (u64 \<times> 's) res"
    and level :: "'s \<Rightarrow> u64 \<Rightarrow> nat"
    and queues :: "'s \<Rightarrow> (nat \<Rightarrow> u64 list) \<Rightarrow> bool"
  assumes enq_law: "queues s Q \<Longrightarrow> t \<notin> queued Q \<Longrightarrow> t \<noteq> 0 \<Longrightarrow>
      \<exists>s'. enq t s = Inr s' \<and> queues s' (Q(level s t := Q (level s t) @ [t]))"
    and deq_none: "queues s Q \<Longrightarrow> \<forall>p<3. Q p = [] \<Longrightarrow> \<exists>s'. deq s = Inr (0, s') \<and> queues s' Q"
    and deq_some: "queues s Q \<Longrightarrow> \<exists>p<3. Q p \<noteq> [] \<Longrightarrow>
      \<exists>p<3. \<exists>t ts s'. Q p = t # ts \<and> deq s = Inr (t, s') \<and> queues s' (Q(p := ts))"
    and disjoint: "queues s Q \<Longrightarrow> p < 3 \<Longrightarrow> q < 3 \<Longrightarrow> p \<noteq> q \<Longrightarrow> set (Q p) \<inter> set (Q q) = {}"
begin

lemma waiting_dec:
  assumes "p < 3" "Q p = t # ts"
  shows "waiting Q = Suc (waiting (Q(p := ts)))"
proof -
  have "waiting Q = length (Q p) + (\<Sum>r\<in>{..<3} - {p}. length (Q r))"
    unfolding waiting_def using assms(1) by (subst sum.remove [of _ p]) auto
  moreover have "waiting (Q(p := ts)) = length ts + (\<Sum>r\<in>{..<3} - {p}. length (Q r))"
    unfolding waiting_def using assms(1) by (subst sum.remove [of _ p]) auto
  ultimately show ?thesis using assms(2) by simp
qed

lemma waiting_pos: "waiting Q = Suc n \<Longrightarrow> \<exists>p<3. Q p \<noteq> []"
  by (rule ccontr) (auto simp: waiting_def)

text \<open>Every waiting task is served exactly once, and the tasks of one level in their order of arrival.\<close>

lemma serve_all:
  "queues s Q \<Longrightarrow> waiting Q = n \<Longrightarrow>
    \<exists>ts s'. serve deq n s = Inr (ts, s') \<and> mset ts = (\<Sum>p<3. mset (Q p)) \<and>
      (\<forall>p<3. filter (\<lambda>t. t \<in> set (Q p)) ts = Q p) \<and> (\<exists>Q'. queues s' Q' \<and> (\<forall>p<3. Q' p = []))"
proof (induction n arbitrary: s Q)
  case 0
  then have "\<forall>p<3. Q p = []" by (simp add: waiting_def)
  with 0 show ?case by auto
next
  case (Suc n)
  obtain p t ts s1 where p: "p < 3" "Q p = t # ts" "deq s = Inr (t, s1)" "queues s1 (Q(p := ts))"
    using deq_some [OF Suc.prems(1) waiting_pos [OF Suc.prems(2)]] by blast
  have "waiting (Q(p := ts)) = n" using waiting_dec [of p Q t ts] p(1,2) Suc.prems(2) by simp
  from Suc.IH [OF p(4) this] obtain us s2 Q' where us: "serve deq n s1 = Inr (us, s2)"
    "mset us = (\<Sum>r<3. mset ((Q(p := ts)) r))" "\<forall>r<3. filter (\<lambda>t. t \<in> set ((Q(p := ts)) r)) us = (Q(p := ts)) r"
    "queues s2 Q'" "\<forall>r<3. Q' r = []" by blast
  have m: "mset (t # us) = (\<Sum>r<3. mset (Q r))"
    using us(2) p(1,2) by (simp add: sum.remove [of "{..<3}" p])
  have f: "filter (\<lambda>x. x \<in> set (Q r)) (t # us) = Q r" if r: "r < 3" for r
  proof (cases "r = p")
    case False
    then have "t \<notin> set (Q r)" using disjoint [OF Suc.prems(1) r p(1)] p(2) by auto
    moreover have "filter (\<lambda>x. x \<in> set (Q r)) us = Q r" using spec [OF us(3), of r] r False by simp
    ultimately show ?thesis by simp
  next
    case True
    have eq: "filter (\<lambda>x. x \<in> set ts) us = ts" using spec [OF us(3), of p] p(1) by simp
    have "count (mset us) t = count (\<Sum>r<3. mset ((Q(p := ts)) r)) t" using us(2) by simp
    also have "\<dots> = (\<Sum>r<3. count (mset ((Q(p := ts)) r)) t)" by (rule count_sum)
    also have "\<dots> = (\<Sum>r\<in>{p}. count (mset ((Q(p := ts)) r)) t)"
      using disjoint [OF Suc.prems(1) _ p(1)] p(1,2)
      by (intro sum.mono_neutral_right) (auto simp: not_in_iff [symmetric])
    finally have ct: "count (mset us) t = count (mset ts) t" by simp
    have "filter (\<lambda>x. x \<in> set (t # ts)) us = ts"
    proof (cases "t \<in> set ts")
      case True
      then show ?thesis using eq by (simp add: insert_absorb)
    next
      case False
      then have "t \<notin> set us" using ct by (metis count_eq_zero_iff set_mset_mset)
      then have "filter (\<lambda>x. x \<in> set (t # ts)) us = filter (\<lambda>x. x \<in> set ts) us"
        by (intro filter_cong) auto
      then show ?thesis using eq by simp
    qed
    then show ?thesis using True p(2) by simp
  qed
  show ?case using p(3) us(1,4,5) m f by auto
qed

end

interpretation rq: ready_queue "enqueue_task env cpu" "dequeue_task env cpu" "\<lambda>s t. level_of (tasks s t)" "rq_ready env cpu"
  for env cpu
proof (unfold_locales, goal_cases)
  case (1 s Q t)
  then show ?case using enqueue_task_spec [of env cpu s Q t] by blast
next
  case (2 s Q)
  then show ?case using dequeue_task_spec [OF 2(1)] by fastforce
next
  case (3 s Q)
  then show ?case using dequeue_task_spec [OF 3(1)] by blast
next
  case (4 s Q p q)
  then show ?case by (simp add: rq_ready_def rq_ok_def)
qed

end
