(* ===== verification/Sched_Layout.thy ===== *)
theory Sched_Layout
  imports Sched Runqueue
begin

text \<open>
  Where tasks can be. The run queues, sleeping lists, the blocked and the dead list all thread tasks through one link field,
  \<^verbatim>\<open>sched_next\<close>, so that a task may be on one of them only. A layout gives the list of tasks at each place of a set \<open>K\<close> of
  CPUs; the lemmas say what the operations of the scheduler do to it.
\<close>

section \<open>Places\<close>

datatype place = RunQ u64 nat | SleepQ u64 | BlockQ | DeadQ

fun anchor :: "'a sched_state_scheme \<Rightarrow> place \<Rightarrow> u64 \<times> u64 \<times> u32" where
  "anchor s (RunQ c p) = (c_rq_head (cpus s c) p, c_rq_tail (cpus s c) p, c_rq_count (cpus s c) p)"
| "anchor s (SleepQ c) = (c_sleeping_list (cpus s c), 0, 0)"
| "anchor s BlockQ = (blocked_task_list s, 0, 0)"
| "anchor s DeadQ = (dead_task_list s, 0, 0)"

fun place_ok :: "'a sched_state_scheme \<Rightarrow> place \<Rightarrow> u64 list \<Rightarrow> bool" where
  "place_ok s (RunQ c p) xs \<longleftrightarrow> rq_level s c p xs"
| "place_ok s (SleepQ c) xs \<longleftrightarrow> chain (snext s) (c_sleeping_list (cpus s c)) xs"
| "place_ok s BlockQ xs \<longleftrightarrow> chain (snext s) (blocked_task_list s) xs"
| "place_ok s DeadQ xs \<longleftrightarrow> chain (snext s) (dead_task_list s) xs"

definition places :: "u64 set \<Rightarrow> place set" where
  "places K = (\<Union>c \<in> K. RunQ c ` {..<4}) \<union> SleepQ ` K \<union> {BlockQ, DeadQ}"

definition apart :: "u64 set \<Rightarrow> (place \<Rightarrow> u64 list) \<Rightarrow> bool" where
  "apart K L \<longleftrightarrow> (\<forall>a \<in> places K. \<forall>b \<in> places K. a \<noteq> b \<longrightarrow> set (L a) \<inter> set (L b) = {})"

definition layout :: "u64 set \<Rightarrow> 'a sched_state_scheme \<Rightarrow> (place \<Rightarrow> u64 list) \<Rightarrow> bool" where
  "layout K s L \<longleftrightarrow> (\<forall>pl \<in> places K. place_ok s pl (L pl)) \<and> apart K L"

definition listed :: "u64 set \<Rightarrow> (place \<Rightarrow> u64 list) \<Rightarrow> u64 set" where
  "listed K L = (\<Union>pl \<in> places K. set (L pl))"

lemma places_simps [simp]:
  "RunQ c p \<in> places K \<longleftrightarrow> c \<in> K \<and> p < 4" "SleepQ c \<in> places K \<longleftrightarrow> c \<in> K" "BlockQ \<in> places K" "DeadQ \<in> places K"
  by (auto simp: places_def)

lemma place_ok_chain: "place_ok s pl xs \<Longrightarrow> chain (snext s) (fst (anchor s pl)) xs"
  by (cases pl) (auto simp: rq_level_def)

lemma place_ok_cong:
  assumes "anchor s' pl = anchor s pl" and "\<And>x. x \<in> set xs \<Longrightarrow> snext s' x = snext s x"
  shows "place_ok s' pl xs = place_ok s pl xs"
proof (cases pl)
  case (RunQ c p)
  then show ?thesis using assms rq_level_cong [of xs s' s c p] by simp
qed (use assms lseg_cong [of xs "snext s'" "snext s"] in auto)

lemma layout_place: "layout K s L \<Longrightarrow> pl \<in> places K \<Longrightarrow> place_ok s pl (L pl)"
  by (simp add: layout_def)

lemma layout_distinct: "layout K s L \<Longrightarrow> pl \<in> places K \<Longrightarrow> distinct (L pl)"
  using layout_place place_ok_chain chain_distinct by blast

lemma layout_notnull: "layout K s L \<Longrightarrow> 0 \<notin> listed K L"
  using layout_place place_ok_chain lseg_notnull by (fastforce simp: listed_def)

lemma layout_apart: "layout K s L \<Longrightarrow> apart K L"
  by (simp add: layout_def)

lemma apartD: "apart K L \<Longrightarrow> a \<in> places K \<Longrightarrow> b \<in> places K \<Longrightarrow> a \<noteq> b \<Longrightarrow> x \<in> set (L a) \<Longrightarrow> x \<notin> set (L b)"
  by (auto simp: apart_def)

lemma listedI: "pl \<in> places K \<Longrightarrow> x \<in> set (L pl) \<Longrightarrow> x \<in> listed K L"
  by (auto simp: listed_def)

lemma not_listed: "x \<notin> listed K L \<Longrightarrow> pl \<in> places K \<Longrightarrow> x \<notin> set (L pl)"
  by (auto simp: listed_def)

text \<open>Changing one list: to a part of itself, or with a task that is on none.\<close>

lemma apart_sub:
  assumes "apart K L" and "set xs \<subseteq> set (L pl)"
  shows "apart K (L(pl := xs))"
  unfolding apart_def
proof (intro ballI impI)
  fix a b assume ab: "a \<in> places K" "b \<in> places K" "a \<noteq> b"
  have "set ((L(pl := xs)) a) \<subseteq> set (L a)" "set ((L(pl := xs)) b) \<subseteq> set (L b)" using assms(2) by auto
  moreover have "set (L a) \<inter> set (L b) = {}" using assms(1) ab by (simp add: apart_def)
  ultimately show "set ((L(pl := xs)) a) \<inter> set ((L(pl := xs)) b) = {}" by blast
qed

lemma apart_new:
  assumes "apart K L" and "set xs \<subseteq> insert t (set (L pl))" and "t \<notin> listed K L"
  shows "apart K (L(pl := xs))"
  unfolding apart_def
proof (intro ballI impI)
  fix a b assume ab: "a \<in> places K" "b \<in> places K" "a \<noteq> b"
  have "set (L a) \<inter> set (L b) = {}" "t \<notin> set (L a)" "t \<notin> set (L b)"
    using assms(1,3) ab by (auto simp: apart_def listed_def)
  then show "set ((L(pl := xs)) a) \<inter> set ((L(pl := xs)) b) = {}" using assms(2) ab(3) by auto
qed

lemma listed_new: "pl \<in> places K \<Longrightarrow> set xs = insert t (set (L pl)) \<Longrightarrow> listed K (L(pl := xs)) = insert t (listed K L)"
  unfolding listed_def by (auto split: if_splits)

lemma listed_shrink:
  assumes ap: "apart K L" and pl: "pl \<in> places K" and sub: "set xs \<subseteq> set (L pl)"
  shows "listed K (L(pl := xs)) = listed K L - (set (L pl) - set xs)"
proof (intro set_eqI iffI)
  fix x assume "x \<in> listed K (L(pl := xs))"
  then obtain q where q: "q \<in> places K" "x \<in> set ((L(pl := xs)) q)" by (auto simp: listed_def)
  show "x \<in> listed K L - (set (L pl) - set xs)"
  proof (cases "q = pl")
    case True
    then show ?thesis using q sub listedI [OF pl, of x L] by auto
  next
    case False
    then have "x \<notin> set (L pl)" using apartD [OF ap q(1) pl] q(2) by simp
    then show ?thesis using False q listedI [of q K x L] by simp
  qed
next
  fix x assume x: "x \<in> listed K L - (set (L pl) - set xs)"
  then obtain q where q: "q \<in> places K" "x \<in> set (L q)" by (auto simp: listed_def)
  show "x \<in> listed K (L(pl := xs))"
  proof (cases "q = pl")
    case True
    then show ?thesis using x q listedI [OF pl, of x "L(pl := xs)"] by simp
  next
    case False
    then show ?thesis using q listedI [of q K x "L(pl := xs)"] by simp
  qed
qed

lemma listed_remove:
  assumes "apart K L" and "pl \<in> places K" and "t \<in> set (L pl)" and "set xs = set (L pl) - {t}"
  shows "listed K (L(pl := xs)) = listed K L - {t}"
  using listed_shrink [OF assms(1,2), of xs] assms(3,4) by auto

lemma layout_change:
  assumes lay: "layout K s L"
    and same: "\<And>q. q \<in> places K \<Longrightarrow> q \<notin> D \<Longrightarrow> anchor s' q = anchor s q \<and> L' q = L q"
    and links: "\<And>q x. q \<in> places K \<Longrightarrow> q \<notin> D \<Longrightarrow> x \<in> set (L q) \<Longrightarrow> snext s' x = snext s x"
    and ok: "\<And>q. q \<in> places K \<Longrightarrow> q \<in> D \<Longrightarrow> place_ok s' q (L' q)"
    and ap: "apart K L'"
  shows "layout K s' L'"
  unfolding layout_def
proof (intro conjI ballI)
  fix q assume q: "q \<in> places K"
  show "place_ok s' q (L' q)"
  proof (cases "q \<in> D")
    case False
    have "place_ok s' q (L q) = place_ok s q (L q)" using same [OF q False] links [OF q False] by (intro place_ok_cong) auto
    then show ?thesis using same [OF q False] layout_place [OF lay q] by simp
  qed (use ok q in blast)
qed (rule ap)

text \<open>One list is replaced by tasks it had and perhaps a task that is on no other, and only links of these change.\<close>

lemma layout_replace:
  assumes lay: "layout K s L" and pl: "pl \<in> places K"
    and same: "\<And>q. q \<in> places K \<Longrightarrow> q \<noteq> pl \<Longrightarrow> anchor s' q = anchor s q"
    and links: "\<And>x. x \<noteq> t \<Longrightarrow> x \<notin> set (L pl) \<Longrightarrow> snext s' x = snext s x"
    and t: "\<And>q. q \<in> places K \<Longrightarrow> q \<noteq> pl \<Longrightarrow> t \<notin> set (L q)"
    and ok: "place_ok s' pl xs" and sub: "set xs \<subseteq> insert t (set (L pl))"
  shows "layout K s' (L(pl := xs))"
proof (rule layout_change [OF lay, where D = "{pl}"])
  fix q x assume q: "q \<in> places K" "q \<notin> {pl}" "x \<in> set (L q)"
  then have "x \<notin> set (L pl)" using apartD [OF layout_apart [OF lay] q(1) pl, of x] by simp
  moreover have "x \<noteq> t" using t [OF q(1)] q(2,3) by auto
  ultimately show "snext s' x = snext s x" by (intro links)
next
  show "apart K (L(pl := xs))"
    unfolding apart_def
  proof (intro ballI impI)
    fix a b assume ab: "a \<in> places K" "b \<in> places K" "a \<noteq> b"
    have "set (L a) \<inter> set (L b) = {}" using layout_apart [OF lay] ab by (simp add: apart_def)
    then show "set ((L(pl := xs)) a) \<inter> set ((L(pl := xs)) b) = {}" using sub t [OF ab(1)] t [OF ab(2)] ab(3) by auto
  qed
qed (use same ok in auto)

lemma layout_cong:
  assumes "layout K s L" and "\<And>q. q \<in> places K \<Longrightarrow> anchor s' q = anchor s q"
    and "\<And>x. x \<in> listed K L \<Longrightarrow> snext s' x = snext s x"
  shows "layout K s' L"
proof (rule layout_change [where D = "{}", OF assms(1)])
  show "snext s' x = snext s x" if "q \<in> places K" "x \<in> set (L q)" for q x
    using assms(3) that by (auto simp: listed_def)
qed (use assms(1,2) in \<open>simp_all add: layout_apart\<close>)

section \<open>Locks, and what the operations keep\<close>

definition locks_idle :: "u64 set \<Rightarrow> 'a sched_state_scheme \<Rightarrow> bool" where
  "locks_idle K s \<longleftrightarrow> (\<forall>c \<in> K. lock_idle (c_rq_lock (cpus s c)) \<and> lock_idle (c_sleep_lock (cpus s c))) \<and>
     lock_idle (blocked_lock s) \<and> lock_idle (dead_lock s)"

text \<open>Which CPUs there are, what they run, and the identity and base priority of tasks stay the same.\<close>

definition keeps :: "'a sched_state_scheme \<Rightarrow> 'a sched_state_scheme \<Rightarrow> bool" where
  "keeps s s' \<longleftrightarrow> sched_state.more s' = sched_state.more s \<and> cpu_table s' = cpu_table s \<and> msrs s' = msrs s \<and> system_uptime_ms s' = system_uptime_ms s \<and>
     (\<forall>c. c_current_task (cpus s' c) = c_current_task (cpus s c) \<and> c_idle_task (cpus s' c) = c_idle_task (cpus s c) \<and>
        c_cpu_id (cpus s' c) = c_cpu_id (cpus s c)) \<and>
     (\<forall>x. t_base_priority (tasks s' x) = t_base_priority (tasks s x) \<and> t_tid (tasks s' x) = t_tid (tasks s x))"

text \<open>Of the tasks outside \<open>T\<close> at most the link changes.\<close>

definition touches :: "'a sched_state_scheme \<Rightarrow> 'a sched_state_scheme \<Rightarrow> u64 set \<Rightarrow> bool" where
  "touches s s' T \<longleftrightarrow> (\<forall>x. x \<notin> T \<longrightarrow> tasks s' x = (tasks s x)\<lparr>t_sched_next := snext s' x\<rparr>)"

lemma keeps_refl [simp]: "keeps s s"
  by (simp add: keeps_def)

lemma keeps_trans: "keeps s s' \<Longrightarrow> keeps s' s'' \<Longrightarrow> keeps s s''"
  by (simp add: keeps_def)

lemma keeps_get_cpu: "keeps s s' \<Longrightarrow> get_cpu env s' = get_cpu env s"
  by (simp add: keeps_def get_cpu_def split: option.splits)

lemma touches_refl [simp]: "touches s s T"
  by (simp add: touches_def)

lemma touches_same: "tasks s' = tasks s \<Longrightarrow> touches s s' T"
  by (simp add: touches_def)

lemma touches_trans:
  assumes "touches s s' T" and "touches s' s'' U" and "T \<union> U \<subseteq> V"
  shows "touches s s'' V"
  unfolding touches_def
proof (intro allI impI)
  fix x assume "x \<notin> V"
  then have a: "tasks s' x = (tasks s x)\<lparr>t_sched_next := snext s' x\<rparr>" and b: "tasks s'' x = (tasks s' x)\<lparr>t_sched_next := snext s'' x\<rparr>"
    using assms unfolding touches_def by blast+
  show "tasks s'' x = (tasks s x)\<lparr>t_sched_next := snext s'' x\<rparr>" by (subst b, subst a) simp
qed

lemma touches_state:
  assumes "touches s s' T" and "x \<notin> T"
  shows "t_state (tasks s' x) = t_state (tasks s x)" "t_priority (tasks s' x) = t_priority (tasks s x)"
    "t_wait_reason (tasks s' x) = t_wait_reason (tasks s x)" "t_sleep_until (tasks s' x) = t_sleep_until (tasks s x)"
    "t_cpu_id (tasks s' x) = t_cpu_id (tasks s x)"
proof -
  have eq: "tasks s' x = (tasks s x)\<lparr>t_sched_next := snext s' x\<rparr>" using assms by (simp add: touches_def)
  show "t_state (tasks s' x) = t_state (tasks s x)" "t_priority (tasks s' x) = t_priority (tasks s x)"
    "t_wait_reason (tasks s' x) = t_wait_reason (tasks s x)" "t_sleep_until (tasks s' x) = t_sleep_until (tasks s x)"
    "t_cpu_id (tasks s' x) = t_cpu_id (tasks s x)"
    by (subst eq, simp)+
qed

text \<open>A layout with idle locks, the starting point of every operation.\<close>

definition settled :: "u64 set \<Rightarrow> 'a sched_state_scheme \<Rightarrow> (place \<Rightarrow> u64 list) \<Rightarrow> bool" where
  "settled K s L \<longleftrightarrow> 0 \<notin> K \<and> locks_idle K s \<and> layout K s L"

abbreviation runq :: "(place \<Rightarrow> u64 list) \<Rightarrow> u64 \<Rightarrow> nat \<Rightarrow> u64 list" where
  "runq L c \<equiv> \<lambda>p. L (RunQ c p)"

lemma settled_rq_ready:
  assumes "settled K s L" and "c \<in> K" and "env_ok env"
  shows "rq_ready env c s (runq L c)"
proof -
  have lay: "layout K s L" and c: "c \<noteq> 0" using assms by (auto simp: settled_def)
  have "rq_level s c p (L (RunQ c p))" if "p < 4" for p using layout_place [OF lay, of "RunQ c p"] that assms(2) by simp
  moreover have "set (L (RunQ c p)) \<inter> set (L (RunQ c q)) = {}" if "p < 4" "q < 4" "p \<noteq> q" for p q
    using layout_apart [OF lay] that assms(2) by (simp add: apart_def)
  ultimately show ?thesis using assms c by (auto simp: rq_ready_def rq_ok_def settled_def locks_idle_def)
qed

lemma queued_listed:
  assumes "c \<in> K"
  shows "queued (runq L c) \<subseteq> listed K L"
proof
  fix x assume "x \<in> queued (runq L c)"
  then obtain p where "p < 4" "x \<in> set (L (RunQ c p))" by (auto simp: queued_def)
  then show "x \<in> listed K L" using assms listedI [of "RunQ c p" K x L] by simp
qed

text \<open>What a call has led to.\<close>

definition leads :: "u64 set \<Rightarrow> 'a sched_state_scheme \<Rightarrow> 'a sched_state_scheme \<Rightarrow> (place \<Rightarrow> u64 list) \<Rightarrow> u64 set \<Rightarrow> bool" where
  "leads K s s' L' T \<longleftrightarrow> settled K s' L' \<and> keeps s s' \<and> touches s s' T"

lemma leads_trans: "leads K s s1 L1 T \<Longrightarrow> leads K s1 s2 L2 U \<Longrightarrow> T \<union> U \<subseteq> V \<Longrightarrow> leads K s s2 L2 V"
  unfolding leads_def by (blast intro: keeps_trans touches_trans)

lemma leads_mono: "leads K s s1 L1 T \<Longrightarrow> T \<subseteq> V \<Longrightarrow> leads K s s1 L1 V"
  unfolding leads_def touches_def by blast

lemma leads_settled: "leads K s s' L' T \<Longrightarrow> settled K s' L'"
  by (simp add: leads_def)

section \<open>Run queues\<close>

lemma enqueue_leads:
  assumes st: "settled K s L" "c \<in> K" "env_ok env" and t: "t \<notin> listed K L" "t \<noteq> 0"
    and i: "i = level_of (tasks s t)"
  shows "\<exists>s'. enqueue_task env c t s = Inr s' \<and> leads K s s' (L(RunQ c i := L (RunQ c i) @ [t])) {t} \<and>
    t_state (tasks s' t) = t_state (tasks s t) \<and> t_priority (tasks s' t) = t_base_priority (tasks s t) \<and> (\<forall>x. x \<noteq> t \<and> x \<notin> listed K L \<longrightarrow> snext s' x = snext s x)"
proof -
  let ?Q = "runq L c" let ?c = "cpus s c" let ?lst = "c_rq_tail ?c i"
  note rdy = settled_rq_ready [OF st]
  have lay: "layout K s L" and i4: "i < 4" using st by (simp_all add: settled_def i level_of_less)
  have new: "t \<notin> queued ?Q" using t queued_listed [OF st(2)] by blast
  let ?s = "s\<lparr>tasks := enq_tasks ?c t (tasks s), cpus := (cpus s)(c := rq_cycle env (enq_cpu t i ?c))\<rparr>"
  have enq: "enqueue_task env c t s = Inr ?s" "rq_ready env c ?s (?Q(i := ?Q i @ [t]))"
    using enqueue_task_spec [OF rdy new t(2)] i by auto
  have lst: "?lst = (if ?Q i = [] then 0 else last (?Q i))"
    using layout_place [OF lay, of "RunQ c i"] i4 st(2) by (simp add: rq_level_def)
  have nxt: "snext ?s x = snext s x" if "x \<noteq> t" "x \<noteq> ?lst" for x
    using that i by (simp add: enq_tasks_def Let_def)
  have ltt: "?lst \<noteq> t" using lst t not_listed [OF t(1), of "RunQ c i"] i4 st(2) by (auto split: if_splits)
  have "layout K ?s (L(RunQ c i := L (RunQ c i) @ [t]))"
  proof (rule layout_change [OF lay, where D = "RunQ c ` {..<4}"])
    fix q assume q: "q \<in> places K" "q \<notin> RunQ c ` {..<4}"
    then have ne: "q \<noteq> RunQ c p" for p by (cases "p < 4") auto
    show "anchor ?s q = anchor s q \<and> (L(RunQ c i := L (RunQ c i) @ [t])) q = L q"
      using ne by (cases q) (auto simp: enq_cpu_def)
    show "snext ?s x = snext s x" if "x \<in> set (L q)" for x
    proof (rule nxt)
      show "x \<noteq> t" using that not_listed [OF t(1) q(1)] by blast
      have "x \<notin> set (?Q i)" using apartD [OF layout_apart [OF lay] q(1) _ ne that] i4 st(2) by simp
      moreover have "x \<noteq> 0" using layout_notnull [OF lay] listedI [of q K x L] q(1) that by blast
      ultimately show "x \<noteq> ?lst" using lst by (auto split: if_splits)
    qed
  next
    fix q assume "q \<in> RunQ c ` {..<4}"
    then obtain p where p: "q = RunQ c p" "p < 4" by auto
    then have "rq_level ?s c p ((?Q(i := ?Q i @ [t])) p)" using enq(2) by (simp add: rq_ready_def rq_ok_def)
    then show "place_ok ?s q ((L(RunQ c i := L (RunQ c i) @ [t])) q)" using p by (simp split: if_splits)
  next
    show "apart K (L(RunQ c i := L (RunQ c i) @ [t]))"
      by (rule apart_new [OF layout_apart [OF lay] _ t(1)]) auto
  qed
  then have "settled K ?s (L(RunQ c i := L (RunQ c i) @ [t]))"
    using st by (auto simp: settled_def locks_idle_def enq_cpu_def)
  moreover have "keeps s ?s" by (simp add: keeps_def enq_cpu_def enq_tasks_def enq_task_def Let_def)
  moreover have "touches s ?s {t}" by (auto simp: touches_def enq_tasks_def enq_task_def Let_def)
  moreover have "t_state (tasks ?s t) = t_state (tasks s t)" "t_priority (tasks ?s t) = t_base_priority (tasks s t)" using ltt i by (simp_all add: enq_tasks_def enq_task_def Let_def)
  moreover have "snext ?s x = snext s x" if "x \<noteq> t \<and> x \<notin> listed K L" for x
    using that nxt [of x] lst listedI [of "RunQ c i" K x L] i4 st(2) t(2) i
    by (cases "?lst = 0") (auto simp: enq_tasks_def Let_def split: if_splits)
  ultimately show ?thesis using enq(1) unfolding leads_def by blast
qed

text \<open>\<^verbatim>\<open>dequeue_task\<close> takes the first task of a queue, or finds the three queues it looks at empty.\<close>

lemma dequeue_leads:
  assumes st: "settled K s L" "c \<in> K" "env_ok env"
  shows "\<exists>t s' L'. dequeue_task env c s = Inr (t, s') \<and> leads K s s' L' {} \<and> tasks s' = tasks s \<and>
    ((\<forall>p<3. L (RunQ c p) = []) \<and> t = 0 \<and> L' = L \<or>
     (\<exists>p<3. \<exists>ts. L (RunQ c p) = t # ts \<and> L' = L(RunQ c p := ts)))"
proof -
  let ?Q = "runq L c"
  have lay: "layout K s L" using st by (simp add: settled_def)
  obtain t s' c' where deq: "dequeue_task env c s = Inr (t, s')" "s' = s\<lparr>cpus := (cpus s)(c := c')\<rparr>"
    "\<exists>q h tl n l. c' = (cpus s c)\<lparr>c_rq_head := h, c_rq_tail := tl, c_rq_count := n, c_current_quanta := q, c_rq_lock := l\<rparr>"
    and res: "(\<forall>p<3. ?Q p = []) \<and> t = 0 \<and> rq_ready env c s' ?Q \<or>
     (\<exists>p<3. \<exists>ts. ?Q p = t # ts \<and> rq_ready env c s' (?Q(p := ts)))"
    using dequeue_task_spec [OF settled_rq_ready [OF st]] by blast
  obtain q h tl n l where
    c': "c' = (cpus s c)\<lparr>c_rq_head := h, c_rq_tail := tl, c_rq_count := n, c_current_quanta := q, c_rq_lock := l\<rparr>"
    using deq(3) by blast
  have kt: "keeps s s'" "touches s s' {}" using deq(2) c' by (auto simp: keeps_def touches_def)
  have go: "settled K s' L'"
    if Q': "rq_ready env c s' (runq L' c)" and ap: "apart K L'" and same: "\<And>q. (\<And>p. q \<noteq> RunQ c p) \<Longrightarrow> L' q = L q" for L'
  proof -
    have "layout K s' L'"
    proof (rule layout_change [OF lay, where D = "RunQ c ` {..<4}"])
      fix q assume q: "q \<in> places K" "q \<notin> RunQ c ` {..<4}"
      then have ne: "q \<noteq> RunQ c p" for p by (cases "p < 4") auto
      show "anchor s' q = anchor s q \<and> L' q = L q"
        using same [OF ne] ne deq(2) c' by (cases q) auto
    qed (use Q' ap deq(2) in \<open>auto simp: rq_ready_def rq_ok_def\<close>)
    then show ?thesis using st Q' deq(2) c' by (auto simp: settled_def locks_idle_def rq_ready_def)
  qed
  from res show ?thesis
  proof (elim disjE exE conjE)
    assume "\<forall>p<3. ?Q p = []" "t = 0" "rq_ready env c s' ?Q"
    then show ?thesis using go [of L] layout_apart [OF lay] deq(1,2) kt unfolding leads_def by auto
  next
    fix p ts assume p: "p < 3" "?Q p = t # ts" "rq_ready env c s' (?Q(p := ts))"
    have rq: "runq (L(RunQ c p := ts)) c = ?Q(p := ts)" by auto
    have ap: "apart K (L(RunQ c p := ts))" using p(2) by (intro apart_sub [OF layout_apart [OF lay]]) auto
    have "settled K s' (L(RunQ c p := ts))" by (rule go [OF _ ap]) (use p(3) rq in auto)
    then show ?thesis using p deq(1,2) kt unfolding leads_def by auto
  qed
qed

end
