(* ===== verification/Sched_Moves.thy ===== *)
theory Sched_Moves
  imports Sched_Layout
begin

text \<open>
  What sleeping, blocking, waking, stealing and the priority boost do to the layout of the tasks.
\<close>

section \<open>Inserting into and removing from chains\<close>

lemma chain_push: "chain nxt h xs \<Longrightarrow> y \<notin> set xs \<Longrightarrow> y \<noteq> 0 \<Longrightarrow> chain (nxt(y := h)) y (y # xs)"
  by simp

lemma chain_insert:
  assumes "chain nxt h (pre @ post)" "pre \<noteq> []" "y \<notin> set (pre @ post)" "y \<noteq> 0"
  shows "chain (nxt(y := nxt (last pre), last pre := y)) h (pre @ y # post)"
proof -
  have d: "distinct (pre @ post)" using assms(1) by (rule chain_distinct)
  obtain r where r: "lseg nxt h pre r" "chain nxt r post" using assms(1) by auto
  have rl: "r = nxt (last pre)" using lseg_last [OF r(1) assms(2)] by simp
  have l: "last pre \<in> set pre" "last pre \<noteq> y" "last pre \<notin> set post"
    using assms(3) d last_in_set [OF assms(2)] by (auto simp del: last_in_set)
  have "lseg (nxt(last pre := y)) h pre y" using lseg_retarget [OF r(1) _ assms(2)] d by simp
  then have "lseg ((nxt(last pre := y))(y := r)) h pre y" using assms(3) by (simp del: fun_upd_apply)
  moreover have "(nxt(last pre := y))(y := r) = nxt(y := r, last pre := y)" using l(2) by (rule fun_upd_twist)
  moreover have "chain (nxt(y := r, last pre := y)) r post" using r(2) l(3) assms(3) by (simp del: fun_upd_apply)
  ultimately show ?thesis using l(2) assms(4) rl by (simp del: fun_upd_apply) (simp add: fun_upd_def)
qed

lemma chain_remove:
  assumes "chain nxt h (pre @ y # post)" "pre \<noteq> []"
  shows "chain (nxt(last pre := nxt y)) h (pre @ post)"
proof -
  have d: "distinct (pre @ y # post)" using assms(1) by (rule chain_distinct)
  obtain r where r: "lseg nxt h pre r" "chain nxt (nxt y) post" using assms(1) by auto
  have "last pre \<notin> set post" using d last_in_set [OF assms(2)] by (auto simp del: last_in_set)
  then have "chain (nxt(last pre := nxt y)) (nxt y) post" using r(2) by (simp del: fun_upd_apply)
  moreover have "lseg (nxt(last pre := nxt y)) h pre (nxt y)" using lseg_retarget [OF r(1) _ assms(2)] d by simp
  ultimately show ?thesis by auto
qed

section \<open>Going to sleep\<close>

lemma sleep_position_eq:
  "chain (snext s) (link_get (sleep_head cpu) pp s) ys \<Longrightarrow>
   sleep_position cpu until pp s =
     (let pre = takeWhile (\<lambda>q. t_sleep_until (tasks s q) < until) ys in Some (if pre = [] then pp else NextOf (last pre)))"
proof (induction ys arbitrary: pp)
  case Nil
  then show ?case by (subst sleep_position.simps) simp
next
  case (Cons y ys)
  have "chain (snext s) (link_get (sleep_head cpu) (NextOf y) s) ys" using Cons.prems by simp
  note IH = Cons.IH [OF this]
  show ?case using Cons.prems IH by (subst sleep_position.simps) (auto simp: Let_def)
qed

lemma sleep_acquire_eq:
  assumes "cpu \<noteq> 0" "lock_free env (c_sleep_lock (cpus s cpu))"
  shows "sleep_acquire env cpu s =
    Inr (s\<lparr>cpus := (cpus s)(cpu := (cpus s cpu)\<lparr>c_sleep_lock := spin_locked env (c_sleep_lock (cpus s cpu))\<rparr>)\<rparr>)"
  using assms by (simp add: sleep_acquire_def cpu_at_def upd_cpu_def spin_lock_free)

text \<open>The CPU a call runs on.\<close>

definition on_cpu :: "u64 set \<Rightarrow> cpu_env \<Rightarrow> 'a sched_state_scheme \<Rightarrow> u64 \<Rightarrow> bool" where
  "on_cpu K env s c \<longleftrightarrow> g_lock_enabled env \<and> this_cpu env \<noteq> None \<and> get_cpu env s = c \<and> c \<in> K"

lemma on_cpu_env [simp]: "on_cpu K env s c \<Longrightarrow> env_ok env"
  by (simp add: on_cpu_def env_ok_def)

lemma on_cpu_keeps: "on_cpu K env s c \<Longrightarrow> keeps s s' \<Longrightarrow> on_cpu K env s' c"
  using keeps_get_cpu by (auto simp: on_cpu_def)

text \<open>The sleeping list is kept in the order of the times at which tasks are to be woken.\<close>

definition due :: "'a sched_state_scheme \<Rightarrow> u64 \<Rightarrow> u64 list \<Rightarrow> u64 list" where
  "due s until xs = takeWhile (\<lambda>q. t_sleep_until (tasks s q) < until) xs"

definition later :: "'a sched_state_scheme \<Rightarrow> u64 \<Rightarrow> u64 list \<Rightarrow> u64 list" where
  "later s until xs = dropWhile (\<lambda>q. t_sleep_until (tasks s q) < until) xs"

lemma due_later [simp]: "due s until xs @ later s until xs = xs"
  by (simp add: due_def later_def)

lemma set_due_later: "set (due s until xs) \<union> set (later s until xs) = set xs"
  by (metis due_later set_append)

lemma last_due: "due s until xs \<noteq> [] \<Longrightarrow> last (due s until xs) \<in> set xs"
  unfolding due_def using last_in_set set_takeWhileD by fast

lemma make_sleep_leads:
  assumes st: "settled K s L" "on_cpu K env s c" and cur: "c_current_task (cpus s c) = t" "t \<noteq> 0" "t \<notin> listed K L"
    and u: "until = system_uptime_ms s + ms"
  shows "\<exists>s'. sched_make_task_sleep env ms s = Inr s' \<and>
    leads K s s' (L(SleepQ c := due s until (L (SleepQ c)) @ t # later s until (L (SleepQ c)))) {t} \<and>
    t_state (tasks s' t) = TASK_SLEEPING \<and> t_sleep_until (tasks s' t) = until \<and> t_priority (tasks s' t) = t_priority (tasks s t)"
proof -
  let ?xs = "L (SleepQ c)" let ?pre = "due s until ?xs" let ?post = "later s until ?xs"
  have c: "c \<in> K" "get_cpu env s = c" "c \<noteq> 0" and lay: "layout K s L" using st by (auto simp: on_cpu_def settled_def)
  have pl: "SleepQ c \<in> places K" using c by simp
  have ch: "chain (snext s) (sleep_head c s) ?xs" using layout_place [OF lay pl] by simp
  have free: "lock_free env (c_sleep_lock (cpus s c))" using st c by (simp add: settled_def locks_idle_def lock_idle_free)
  have tx: "t \<notin> set ?xs" using not_listed [OF cur(3) pl] .
  let ?t1 = "(tasks s t)\<lparr>t_state := TASK_SLEEPING, t_sleep_until := until\<rparr>"
  let ?s2 = "s\<lparr>tasks := (tasks s)(t := ?t1), cpus := (cpus s)(c := (cpus s c)\<lparr>c_sleep_lock := spin_locked env (c_sleep_lock (cpus s c))\<rparr>)\<rparr>"
  have "chain (snext ?s2) (sleep_head c ?s2) ?xs" using ch tx lseg_cong [of ?xs "snext ?s2" "snext s"] by auto
  moreover have "takeWhile (\<lambda>q. t_sleep_until (tasks ?s2 q) < until) ?xs = ?pre"
    unfolding due_def using tx by (intro takeWhile_cong) auto
  ultimately have pos: "sleep_position c until Head ?s2 = Some (if ?pre = [] then Head else NextOf (last ?pre))"
    using sleep_position_eq [of ?s2 c Head ?xs until] by (simp add: Let_def)
  let ?n = "if ?pre = [] then sleep_head c s else snext s (last ?pre)"
  have lp: "last ?pre \<noteq> t" if "?pre \<noteq> []" using tx last_due [OF that] by auto
  let ?c1 = "if ?pre = [] then (cpus s c)\<lparr>c_sleeping_list := t\<rparr> else cpus s c"
  let ?c' = "?c1\<lparr>c_sleep_lock := lock_cycle env (c_sleep_lock (cpus s c))\<rparr>"
  let ?ts = "(tasks s)(t := ?t1\<lparr>t_sched_next := ?n\<rparr>)"
  let ?s' = "s\<lparr>tasks := (if ?pre = [] then ?ts else ?ts(last ?pre := (tasks s (last ?pre))\<lparr>t_sched_next := t\<rparr>)), cpus := (cpus s)(c := ?c')\<rparr>"
  let ?s1 = "s\<lparr>tasks := (tasks s)(t := ?t1)\<rparr>"
  have a: "sched_get_current env s = Inr t" using cur c by (simp add: sched_get_current_def cpu_at_def)
  have b: "upd_task t (\<lambda>t. t\<lparr>t_state := TASK_SLEEPING, t_sleep_until := until\<rparr>) s = Inr ?s1" using cur(2) by (simp add: upd_task_def)
  have d: "sleep_acquire env c ?s1 = Inr ?s2" using sleep_acquire_eq [OF c(3), of env ?s1] free by simp
  have eq: "sched_make_task_sleep env ms s = Inr ?s'"
    unfolding sched_make_task_sleep_def a bind_res.simps Let_def get_uptime_ms_def c(2) u [symmetric] b d pos if_not_P [OF cur(2)] option.case
    using cur(2) c(3) lp by (cases "?pre = []") (simp_all add: upd_task_def sleep_release_def upd_cpu_def lock_cycle_def)
  have sn: "snext ?s' = (if ?pre = [] then (snext s)(t := ?n) else (snext s)(t := ?n, last ?pre := t))" using lp by auto
  have ok: "place_ok ?s' (SleepQ c) (?pre @ t # ?post)"
  proof (cases "?pre = []")
    case True
    then have "?post = ?xs" using due_later [of s until ?xs] by simp
    then show ?thesis using True ch tx cur(2) unfolding place_ok.simps sn by simp
  next
    case False
    then show ?thesis using chain_insert [of "snext s" "sleep_head c s" ?pre ?post t] ch tx cur(2) unfolding place_ok.simps sn by simp
  qed
  have "layout K ?s' (L(SleepQ c := ?pre @ t # ?post))"
  proof (rule layout_replace [OF lay pl _ _ _ ok])
    show "anchor ?s' q = anchor s q" if "q \<noteq> SleepQ c" for q using that by (cases q) auto
    show "snext ?s' x = snext s x" if "x \<noteq> t" "x \<notin> set ?xs" for x
      using that last_due [of s until ?xs] by (cases "?pre = []") auto
    show "t \<notin> set (L q)" if "q \<in> places K" for q using not_listed [OF cur(3) that] .
  qed (use set_due_later [of s until ?xs] in auto)
  then have "settled K ?s' (L(SleepQ c := ?pre @ t # ?post))" using st by (auto simp: settled_def locks_idle_def)
  moreover have "keeps s ?s'" by (simp add: keeps_def)
  moreover have "touches s ?s' {t}" by (auto simp: touches_def)
  moreover have "t_state (tasks ?s' t) = TASK_SLEEPING" "t_sleep_until (tasks ?s' t) = until"
    "t_priority (tasks ?s' t) = t_priority (tasks s t)" using lp by auto
  ultimately show ?thesis using eq unfolding leads_def by blast
qed

section \<open>Blocking\<close>

lemma block_leads:
  assumes st: "settled K s L" "on_cpu K env s c" and cur: "c_current_task (cpus s c) = t" "t \<noteq> 0" "t \<notin> listed K L"
  shows "\<exists>s'. sched_block_current env reason s = Inr s' \<and> leads K s s' (L(BlockQ := t # L BlockQ)) {t} \<and>
    t_state (tasks s' t) = TASK_BLOCKED \<and> t_wait_reason (tasks s' t) = reason \<and> t_priority (tasks s' t) = t_priority (tasks s t)"
proof -
  have c: "c \<in> K" "get_cpu env s = c" "c \<noteq> 0" and lay: "layout K s L" using st by (auto simp: on_cpu_def settled_def)
  have free: "lock_free env (blocked_lock s)" using st by (simp add: settled_def locks_idle_def lock_idle_free)
  let ?s' = "s\<lparr>tasks := (tasks s)(t := (tasks s t)\<lparr>t_state := TASK_BLOCKED, t_wait_reason := reason, t_sched_next := blocked_task_list s\<rparr>),
     blocked_task_list := t, blocked_lock := lock_cycle env (blocked_lock s)\<rparr>"
  have eq: "sched_block_current env reason s = Inr ?s'"
    using cur c free by (simp add: sched_block_current_def sched_get_current_def cpu_at_def upd_task_def spin_lock_free lock_cycle_def Let_def)
  have ch: "chain (snext s) (blocked_task_list s) (L BlockQ)" using layout_place [OF lay, of BlockQ] by simp
  have sn: "snext ?s' = (snext s)(t := blocked_task_list s)" by auto
  have "layout K ?s' (L(BlockQ := t # L BlockQ))"
  proof (rule layout_replace [OF lay, where t = t])
    show "anchor ?s' q = anchor s q" if "q \<noteq> BlockQ" for q using that by (cases q) auto
    show "place_ok ?s' BlockQ (t # L BlockQ)"
      using chain_push [OF ch _ cur(2)] not_listed [OF cur(3), of BlockQ] unfolding place_ok.simps sn by simp
    show "t \<notin> set (L q)" if "q \<in> places K" for q using not_listed [OF cur(3) that] .
  qed auto
  then have "settled K ?s' (L(BlockQ := t # L BlockQ))" using st by (simp add: settled_def locks_idle_def)
  moreover have "keeps s ?s'" "touches s ?s' {t}" by (auto simp: keeps_def touches_def)
  ultimately show ?thesis using eq unfolding leads_def by auto
qed

section \<open>Enqueueing a private list\<close>

text \<open>The layout after the tasks \<open>ts\<close> have been put on the queues of the CPUs \<open>tgt\<close> and levels \<open>lvl\<close> say.\<close>

definition deliver :: "(u64 \<Rightarrow> u64) \<Rightarrow> (u64 \<Rightarrow> nat) \<Rightarrow> u64 list \<Rightarrow> (place \<Rightarrow> u64 list) \<Rightarrow> place \<Rightarrow> u64 list" where
  "deliver tgt lvl ts L pl = (case pl of RunQ c p \<Rightarrow> L pl @ filter (\<lambda>t. tgt t = c \<and> lvl t = p) ts | _ \<Rightarrow> L pl)"

lemma deliver_Nil [simp]: "deliver tgt lvl [] L = L"
  by (rule ext) (simp add: deliver_def split: place.split)

lemma deliver_Cons:
  "deliver tgt lvl (t # ts) L = deliver tgt lvl ts (L(RunQ (tgt t) (lvl t) := L (RunQ (tgt t) (lvl t)) @ [t]))"
  by (rule ext) (auto simp: deliver_def split: place.split)

lemma listed_deliver:
  assumes "\<And>t. t \<in> set ts \<Longrightarrow> tgt t \<in> K" and "\<And>t. lvl t < 4"
  shows "listed K (deliver tgt lvl ts L) = listed K L \<union> set ts"
  using assms(1)
proof (induction ts arbitrary: L)
  case (Cons t ts)
  have "listed K (L(RunQ (tgt t) (lvl t) := L (RunQ (tgt t) (lvl t)) @ [t])) = insert t (listed K L)"
    using Cons.prems assms(2) by (intro listed_new) auto
  with Cons show ?case by (simp add: deliver_Cons)
qed simp

lemma keeps_level: "keeps s s' \<Longrightarrow> level_of (tasks s' x) = level_of (tasks s x)"
  by (simp add: keeps_def level_of_def)

lemma same_link [simp]: "t\<lparr>t_sched_next := t_sched_next t\<rparr> = (t :: task)"
  by (cases t) simp

lemma touches_same_task: "touches s s' T \<Longrightarrow> x \<notin> T \<Longrightarrow> snext s' x = snext s x \<Longrightarrow> tasks s' x = tasks s x"
  unfolding touches_def using same_link by metis

lemma enqueue_all_leads:
  assumes "settled K s L" "env_ok env" "chain (snext s) q zs" "set zs \<inter> listed K L = {}"
    and prep: "\<And>t. t_base_priority (prep t) = t_base_priority t \<and> t_tid (prep t) = t_tid t"
    and tgt: "\<And>x s'. x \<in> set zs \<Longrightarrow> keeps s s' \<Longrightarrow> target (prep (tasks s x)) s' = tgt x" "\<And>x. x \<in> set zs \<Longrightarrow> tgt x \<in> K"
  shows "\<exists>s'. enqueue_all env target prep q s = Some (Inr s') \<and> leads K s s' (deliver tgt (\<lambda>x. level_of (tasks s x)) zs L) (set zs) \<and>
    (\<forall>x \<in> set zs. t_state (tasks s' x) = t_state (prep (tasks s x)) \<and> t_priority (tasks s' x) = t_base_priority (tasks s x))"
  using assms(1-4) tgt
proof (induction zs arbitrary: s L q)
  case Nil
  then show ?case by (subst enqueue_all.simps) (simp add: leads_def)
next
  case (Cons z zs)
  have z: "q = z" "z \<noteq> 0" "chain (snext s) (snext s z) zs" "z \<notin> listed K L" "z \<notin> set zs"
    using Cons.prems(3,4) chain_distinct [OF Cons.prems(3)] by auto
  let ?s1 = "s\<lparr>tasks := (tasks s)(z := prep (tasks s z))\<rparr>"
  have lv1: "level_of (tasks ?s1 x) = level_of (tasks s x)" for x using prep by (simp add: level_of_def)
  have "layout K s L" using Cons.prems(1) by (simp add: settled_def)
  then have "layout K ?s1 L"
  proof (rule layout_cong)
    show "anchor ?s1 p = anchor s p" for p by (cases p) auto
  qed (use z(4) in auto)
  then have st1: "settled K ?s1 L" using Cons.prems(1) by (simp add: settled_def locks_idle_def)
  have k1: "keeps s ?s1" "touches s ?s1 {z}" using prep by (auto simp: keeps_def touches_def)
  have tz: "target (tasks ?s1 z) ?s1 = tgt z" "tgt z \<in> K" using Cons.prems(5) [OF _ k1(1), of z] Cons.prems(6) [of z] by auto
  let ?L = "L(RunQ (tgt z) (level_of (tasks s z)) := L (RunQ (tgt z) (level_of (tasks s z))) @ [z])"
  obtain s2 where s2: "enqueue_task env (tgt z) z ?s1 = Inr s2" "leads K ?s1 s2 ?L {z}" "t_state (tasks s2 z) = t_state (tasks ?s1 z)"
    "t_priority (tasks s2 z) = t_base_priority (tasks ?s1 z)"
    "\<forall>x. x \<noteq> z \<and> x \<notin> listed K L \<longrightarrow> snext s2 x = snext ?s1 x"
    using enqueue_leads [OF st1 tz(2) Cons.prems(2) z(4,2) refl] lv1 by metis
  have ld2: "leads K s s2 ?L {z}" using s2(2) k1 unfolding leads_def by (blast intro: keeps_trans touches_trans)
  have same: "tasks s2 x = tasks s x" if "x \<in> set zs" for x
  proof (rule touches_same_task)
    show "touches s s2 {z}" using ld2 by (simp add: leads_def)
    show "x \<notin> {z}" using that z(5) by auto
    then show "snext s2 x = snext s x" using spec [OF s2(5), of x] Cons.prems(4) that by auto
  qed
  have lst: "listed K ?L = insert z (listed K L)" using tz(2) level_of_less by (intro listed_new) auto
  have kp: "keeps s s2" using ld2 by (simp add: leads_def)
  have "\<exists>s'. enqueue_all env target prep (snext s z) s2 = Some (Inr s') \<and>
    leads K s2 s' (deliver tgt (\<lambda>x. level_of (tasks s2 x)) zs ?L) (set zs) \<and>
    (\<forall>x \<in> set zs. t_state (tasks s' x) = t_state (prep (tasks s2 x)) \<and> t_priority (tasks s' x) = t_base_priority (tasks s2 x))"
  proof (rule Cons.IH [OF leads_settled [OF ld2] Cons.prems(2)])
    show "chain (snext s2) (snext s z) zs" using z(3) same lseg_cong [of zs "snext s2" "snext s"] by simp
    show "set zs \<inter> listed K ?L = {}" using lst z(5) Cons.prems(4) by auto
    show "target (prep (tasks s2 x)) s' = tgt x" if "x \<in> set zs" "keeps s2 s'" for x s'
      using Cons.prems(5) [of x s'] keeps_trans [OF kp that(2)] that(1) same by simp
    show "tgt x \<in> K" if "x \<in> set zs" for x using Cons.prems(6) that by simp
  qed
  then obtain s' where s': "enqueue_all env target prep (snext s z) s2 = Some (Inr s')"
    "leads K s2 s' (deliver tgt (\<lambda>x. level_of (tasks s x)) zs ?L) (set zs)"
    "\<forall>x \<in> set zs. t_state (tasks s' x) = t_state (prep (tasks s2 x)) \<and> t_priority (tasks s' x) = t_base_priority (tasks s2 x)"
    unfolding keeps_level [OF kp] by blast
  have "enqueue_all env target prep q s = Some (Inr s')"
    using z(1,2) s'(1) s2(1) tz(1) by (subst enqueue_all.simps) (simp add: Let_def)
  moreover have "t_state (tasks s' z) = t_state (prep (tasks s z))" "t_priority (tasks s' z) = t_base_priority (tasks s z)"
    using touches_state(1,2) [of s2 s' "set zs" z] s'(2) z(5) s2(3,4) prep by (simp_all add: leads_def)
  ultimately show ?case using leads_trans [OF ld2 s'(2)] s'(3) same by (auto simp: deliver_Cons)
qed

section \<open>Waking sleepers\<close>

abbreviation expired :: "'a sched_state_scheme \<Rightarrow> u64 \<Rightarrow> u64 \<Rightarrow> bool" where
  "expired s now x \<equiv> t_sleep_until (tasks s x) \<le> now"

lemma sleepers_extract_eq:
  assumes "layout K s L" "c \<in> K" "L (SleepQ c) = ys" "chain (snext s) r zs" "set zs \<inter> listed K L = {}"
  shows "\<exists>r' ts h. let s' = s\<lparr>cpus := (cpus s)(c := (cpus s c)\<lparr>c_sleeping_list := h\<rparr>), tasks := ts\<rparr> in
    sleepers_extract c now r s = Some (r', s') \<and> layout K s' (L(SleepQ c := dropWhile (expired s now) ys)) \<and>
    chain (snext s') r' (rev (takeWhile (expired s now) ys) @ zs) \<and> touches s s' {}"
  using assms
proof (induction ys arbitrary: s L r zs)
  case Nil
  have "chain (snext s) (sleep_head c s) []" using layout_place [OF Nil.prems(1), of "SleepQ c"] Nil.prems(2,3) by simp
  then have "sleepers_extract c now r s = Some (r, s)" by (subst sleepers_extract.simps) simp
  moreover have "L(SleepQ c := []) = L" using Nil.prems(3) by auto
  ultimately show ?case using Nil.prems
    by (intro exI [of _ r] exI [of _ "tasks s"] exI [of _ "sleep_head c s"]) simp
next
  case (Cons y ys)
  have pl: "SleepQ c \<in> places K" using Cons.prems(2) by simp
  have ch: "sleep_head c s = y" "y \<noteq> 0" "chain (snext s) (snext s y) ys"
    using layout_place [OF Cons.prems(1) pl] Cons.prems(3) by simp_all
  have yn: "y \<notin> set ys" using layout_distinct [OF Cons.prems(1) pl] Cons.prems(3) by simp
  show ?case
  proof (cases "expired s now y")
    case False
    then have "sleepers_extract c now r s = Some (r, s)" using ch by (subst sleepers_extract.simps) simp
    moreover have "L(SleepQ c := y # ys) = L" using Cons.prems(3) by auto
    ultimately show ?thesis using False Cons.prems
      by (intro exI [of _ r] exI [of _ "tasks s"] exI [of _ "sleep_head c s"]) simp
  next
    case True
    let ?s1 = "s\<lparr>cpus := (cpus s)(c := (cpus s c)\<lparr>c_sleeping_list := snext s y\<rparr>), tasks := (tasks s)(y := (tasks s y)\<lparr>t_sched_next := r\<rparr>)\<rparr>"
    let ?L = "L(SleepQ c := ys)"
    have step: "sleepers_extract c now r s = sleepers_extract c now y ?s1"
      using True ch by (subst sleepers_extract.simps) (simp add: Let_def)
    have yz: "y \<notin> set zs" using Cons.prems(3,5) listedI [OF pl, of y L] by auto
    have ap: "y \<notin> set (L q)" if "q \<in> places K" "q \<noteq> SleepQ c" for q
      using apartD [OF layout_apart [OF Cons.prems(1)] pl that(1), of y] that(2) Cons.prems(3) by simp
    have sn: "snext ?s1 = (snext s)(y := r)" by auto
    have lay: "layout K ?s1 ?L"
    proof (rule layout_replace [OF Cons.prems(1) pl, where t = y])
      show "anchor ?s1 q = anchor s q" if "q \<noteq> SleepQ c" for q using that by (cases q) auto
      show "place_ok ?s1 (SleepQ c) ys" using ch(3) yn unfolding place_ok.simps sn by simp
    qed (use Cons.prems(3) ap in auto)
    have P: "expired ?s1 now = expired s now" by auto
    have cz: "chain (snext ?s1) y (y # zs)" using Cons.prems(4) yz ch(2) unfolding sn by simp
    have "listed K ?L = listed K L - {y}" using Cons.prems(3) yn by (intro listed_remove [OF layout_apart [OF Cons.prems(1)] pl]) auto
    then have dj: "set (y # zs) \<inter> listed K ?L = {}" using Cons.prems(5) by auto
    obtain r' ts h where IH: "let s' = ?s1\<lparr>cpus := (cpus ?s1)(c := (cpus ?s1 c)\<lparr>c_sleeping_list := h\<rparr>), tasks := ts\<rparr> in
      sleepers_extract c now y ?s1 = Some (r', s') \<and> layout K s' (?L(SleepQ c := dropWhile (expired ?s1 now) ys)) \<and>
      chain (snext s') r' (rev (takeWhile (expired ?s1 now) ys) @ y # zs) \<and> touches ?s1 s' {}"
      using Cons.IH [OF lay Cons.prems(2) fun_upd_same cz dj] by blast
    let ?s2 = "s\<lparr>cpus := (cpus s)(c := (cpus s c)\<lparr>c_sleeping_list := h\<rparr>), tasks := ts\<rparr>"
    have r: "sleepers_extract c now r s = Some (r', ?s2)" "layout K ?s2 (L(SleepQ c := dropWhile (expired s now) ys))"
      "chain (snext ?s2) r' (rev (takeWhile (expired s now) ys) @ y # zs)" "touches ?s1 ?s2 {}"
      using IH unfolding P step by (simp_all add: Let_def)
    have "touches s ?s1 {}" by (auto simp: touches_def)
    then have "touches s ?s2 {}" using touches_trans [OF _ r(4)] by blast
    then show ?thesis using r True unfolding Let_def by (intro exI [of _ r'] exI [of _ ts] exI [of _ h]) simp
  qed
qed

lemma update_sleepers_leads:
  assumes st: "settled K s L" "on_cpu K env s c" and xs: "L (SleepQ c) = xs" and now: "now = system_uptime_ms s"
  shows "\<exists>s'. sched_update_sleepers env s = Inr s' \<and>
    leads K s s' (deliver (\<lambda>_. c) (\<lambda>x. level_of (tasks s x)) (rev (takeWhile (expired s now) xs)) (L(SleepQ c := dropWhile (expired s now) xs)))
      (set (takeWhile (expired s now) xs)) \<and>
    (\<forall>x \<in> set (takeWhile (expired s now) xs). t_state (tasks s' x) = TASK_READY \<and> t_priority (tasks s' x) = t_base_priority (tasks s x))"
proof -
  have c: "c \<in> K" "get_cpu env s = c" "c \<noteq> 0" and lay: "layout K s L" using st by (auto simp: on_cpu_def settled_def)
  have pl: "SleepQ c \<in> places K" using c by simp
  have free: "lock_free env (c_sleep_lock (cpus s c))" using st c by (simp add: settled_def locks_idle_def lock_idle_free)
  let ?c1 = "(cpus s c)\<lparr>c_sleep_lock := spin_locked env (c_sleep_lock (cpus s c))\<rparr>"
  let ?s1 = "s\<lparr>cpus := (cpus s)(c := ?c1)\<rparr>"
  have lay1: "layout K ?s1 L"
  proof (rule layout_cong [OF lay])
    show "anchor ?s1 q = anchor s q" for q by (cases q) auto
  qed simp
  have P: "expired ?s1 now = expired s now" by simp
  obtain r ts h where e: "let s' = ?s1\<lparr>cpus := (cpus ?s1)(c := (cpus ?s1 c)\<lparr>c_sleeping_list := h\<rparr>), tasks := ts\<rparr> in
    sleepers_extract c now 0 ?s1 = Some (r, s') \<and> layout K s' (L(SleepQ c := dropWhile (expired ?s1 now) xs)) \<and>
    chain (snext s') r (rev (takeWhile (expired ?s1 now) xs) @ []) \<and> touches ?s1 s' {}"
    using sleepers_extract_eq [OF lay1 c(1) xs, of 0 "[]" now] unfolding chain_null set_empty2 list.set by blast
  let ?c2 = "?c1\<lparr>c_sleeping_list := h\<rparr>" let ?s2 = "s\<lparr>cpus := (cpus s)(c := ?c2), tasks := ts\<rparr>"
  let ?L = "L(SleepQ c := dropWhile (expired s now) xs)" let ?zs = "rev (takeWhile (expired s now) xs)"
  have e2: "sleepers_extract c now 0 ?s1 = Some (r, ?s2)" "layout K ?s2 ?L" "chain (snext ?s2) r ?zs" "touches ?s1 ?s2 {}"
    using e unfolding P by (simp_all add: Let_def)
  let ?s3 = "s\<lparr>tasks := ts, cpus := (cpus s)(c := ?c2\<lparr>c_sleep_lock := lock_cycle env (c_sleep_lock (cpus s c))\<rparr>)\<rparr>"
  have "layout K ?s3 ?L"
  proof (rule layout_cong [OF e2(2)])
    show "anchor ?s3 q = anchor ?s2 q" for q by (cases q) auto
  qed simp
  then have st3: "settled K ?s3 ?L" using st by (auto simp: settled_def locks_idle_def)
  have t3: "touches s ?s3 {}" using e2(4) by (simp add: touches_def)
  then have k3: "keeps s ?s3" unfolding keeps_def touches_def by (simp add: fun_upd_def) (metis task.ext_inject task.surjective task.update_convs(18))
  have zs: "set ?zs \<inter> listed K ?L = {}"
  proof -
    have "set (takeWhile (expired s now) xs) \<inter> set (dropWhile (expired s now) xs) = {}"
      using layout_distinct [OF lay pl] xs by (metis distinct_append takeWhile_dropWhile_id)
    moreover have "listed K ?L = listed K L - (set xs - set (dropWhile (expired s now) xs))"
      using listed_shrink [OF layout_apart [OF lay] pl, of "dropWhile (expired s now) xs"] xs by (simp add: set_dropWhileD subset_iff)
    ultimately show ?thesis using set_takeWhileD [of _ "expired s now" xs] by auto
  qed
  let ?prep = "\<lambda>t. t\<lparr>t_state := TASK_READY, t_sched_next := 0\<rparr>"
  obtain s' where s': "enqueue_all env (\<lambda>_ _. c) ?prep r ?s3 = Some (Inr s')"
    "leads K ?s3 s' (deliver (\<lambda>_. c) (\<lambda>x. level_of (tasks ?s3 x)) ?zs ?L) (set ?zs)"
    "\<forall>x \<in> set ?zs. t_state (tasks s' x) = t_state (?prep (tasks ?s3 x)) \<and> t_priority (tasks s' x) = t_base_priority (tasks ?s3 x)"
    using enqueue_all_leads [OF st3 on_cpu_env [OF st(2)] _ zs, of r ?prep "\<lambda>_ _. c" "\<lambda>_. c"] e2(3) c(1) by auto
  have lv: "level_of (tasks ?s3 x) = level_of (tasks s x)" for x by (rule keeps_level [OF k3])
  have "sched_update_sleepers env s = Inr s'"
    unfolding sched_update_sleepers_def c(2) Let_def get_uptime_ms_def now [symmetric] sleep_acquire_eq [OF c(3) free] bind_res.simps e2(1)
    using s'(1) c(3) by (simp add: sleep_release_def upd_cpu_def lock_cycle_def)
  moreover have "leads K s s' (deliver (\<lambda>_. c) (\<lambda>x. level_of (tasks s x)) ?zs ?L) (set ?zs)"
    using s'(2) k3 t3 unfolding leads_def lv by (blast intro: keeps_trans touches_trans)
  moreover have "t_base_priority (tasks ?s3 x) = t_base_priority (tasks s x)" for x using k3 by (simp add: keeps_def)
  ultimately show ?thesis using s'(3) by auto
qed

section \<open>Waking blocked tasks\<close>

abbreviation awaits :: "'a sched_state_scheme \<Rightarrow> task_reason \<Rightarrow> u64 \<Rightarrow> bool" where
  "awaits s reason x \<equiv> t_wait_reason (tasks s x) = reason"

abbreviation link_after :: "u64 list \<Rightarrow> link" where
  "link_after pre \<equiv> if pre = [] then Head else NextOf (last pre)"

lemma link_get_after:
  assumes "chain (snext s) (blocked_task_list s) (pre @ ys)"
  shows "chain (snext s) (link_get blocked_task_list (link_after pre) s) ys"
  using assms lseg_last [of "snext s" "blocked_task_list s" pre] by (cases "pre = []") auto

text \<open>The state after \<open>y\<close> has been moved from behind \<open>pre\<close> to the private list \<open>r\<close>.\<close>

definition moved :: "u64 list \<Rightarrow> u64 \<Rightarrow> u64 \<Rightarrow> 'a sched_state_scheme \<Rightarrow> 'a sched_state_scheme" where
  "moved pre y r s =
     (let s1 = link_put set_blocked (link_after pre) (snext s y) s
      in s1\<lparr>tasks := (tasks s1)(y := (tasks s1 y)\<lparr>t_sched_next := r, t_state := TASK_READY\<rparr>)\<rparr>)"

lemma moved_frame: "moved pre y r s = s\<lparr>blocked_task_list := blocked_task_list (moved pre y r s), tasks := tasks (moved pre y r s)\<rparr>"
  by (simp add: moved_def Let_def)

text \<open>The tasks \<open>W\<close> are made ready; otherwise only links change.\<close>

definition woke :: "'a sched_state_scheme \<Rightarrow> 'a sched_state_scheme \<Rightarrow> u64 set \<Rightarrow> bool" where
  "woke s s' W \<longleftrightarrow> (\<forall>x. tasks s' x =
     (tasks s x)\<lparr>t_state := (if x \<in> W then TASK_READY else t_state (tasks s x)), t_sched_next := snext s' x\<rparr>)"

lemma woke_refl: "woke s s {}"
  by (simp add: woke_def)

lemma woke_cong: "tasks a = tasks s \<Longrightarrow> tasks b = tasks s' \<Longrightarrow> woke a b W = woke s s' W"
  by (simp only: woke_def)

lemma woke_trans:
  assumes "woke s s1 V" "woke s1 s2 W"
  shows "woke s s2 (V \<union> W)"
  unfolding woke_def
proof
  fix x
  obtain m n where a: "tasks s1 x = (tasks s x)\<lparr>t_state := (if x \<in> V then TASK_READY else t_state (tasks s x)), t_sched_next := m\<rparr>"
    and b: "tasks s2 x = (tasks s1 x)\<lparr>t_state := (if x \<in> W then TASK_READY else t_state (tasks s1 x)), t_sched_next := n\<rparr>"
    using assms unfolding woke_def by blast
  show "tasks s2 x = (tasks s x)\<lparr>t_state := (if x \<in> V \<union> W then TASK_READY else t_state (tasks s x)), t_sched_next := snext s2 x\<rparr>"
    unfolding b a by simp
qed

lemma woke_field:
  assumes "woke s s' W"
  shows "t_wait_reason (tasks s' x) = t_wait_reason (tasks s x)" "t_base_priority (tasks s' x) = t_base_priority (tasks s x)"
    "t_tid (tasks s' x) = t_tid (tasks s x)" "t_cpu_id (tasks s' x) = t_cpu_id (tasks s x)"
    "t_state (tasks s' x) = (if x \<in> W then TASK_READY else t_state (tasks s x))"
proof -
  have a: "tasks s' x = (tasks s x)\<lparr>t_state := (if x \<in> W then TASK_READY else t_state (tasks s x)), t_sched_next := snext s' x\<rparr>"
    using assms unfolding woke_def by blast
  show "t_wait_reason (tasks s' x) = t_wait_reason (tasks s x)" "t_base_priority (tasks s' x) = t_base_priority (tasks s x)"
    "t_tid (tasks s' x) = t_tid (tasks s x)" "t_cpu_id (tasks s' x) = t_cpu_id (tasks s x)"
    "t_state (tasks s' x) = (if x \<in> W then TASK_READY else t_state (tasks s x))"
    by (subst a, simp)+
qed

lemma woke_touches: "woke s s' W \<Longrightarrow> touches s s' W"
  unfolding woke_def touches_def
proof (intro allI impI)
  fix x assume w: "\<forall>x. tasks s' x = (tasks s x)\<lparr>t_state := (if x \<in> W then TASK_READY else t_state (tasks s x)), t_sched_next := snext s' x\<rparr>"
    and x: "x \<notin> W"
  have id: "t\<lparr>t_state := t_state t\<rparr> = t" for t :: task by (cases t) simp
  show "tasks s' x = (tasks s x)\<lparr>t_sched_next := snext s' x\<rparr>" using spec [OF w, of x] x by (simp add: id)
qed

lemma moved_layout:
  assumes lay: "layout K s L" and L: "L BlockQ = pre @ y # ys"
  shows "layout K (moved pre y r s) (L(BlockQ := pre @ ys))" and "snext (moved pre y r s) y = r"
    and "x \<notin> set (pre @ [y]) \<Longrightarrow> snext (moved pre y r s) x = snext s x"
    and "woke s (moved pre y r s) {y}"
proof -
  have ch: "chain (snext s) (blocked_task_list s) (pre @ y # ys)" using layout_place [OF lay, of BlockQ] L by simp
  have d: "distinct (pre @ y # ys)" using ch by (rule chain_distinct)
  have ne: "last pre \<noteq> y" if "pre \<noteq> []" using d last_in_set [OF that] by (auto simp del: last_in_set)
  let ?s = "moved pre y r s"
  have sn: "snext ?s = (if pre = [] then snext s else (snext s)(last pre := snext s y))(y := r)"
    using ne by (auto simp: moved_def Let_def fun_eq_iff)
  show "snext ?s y = r" by (simp add: moved_def Let_def)
  show "woke s ?s {y}" using ne by (auto simp: moved_def Let_def woke_def)
  show "snext ?s x = snext s x" if "x \<notin> set (pre @ [y])"
    using that last_in_set [of pre] fun_cong [OF sn, of x] by (cases "pre = []") auto
  show "layout K ?s (L(BlockQ := pre @ ys))"
  proof (rule layout_replace [OF lay, where t = y])
    show "anchor ?s q = anchor s q" if "q \<noteq> BlockQ" for q using that by (cases q) (auto simp: moved_def Let_def)
    show "snext ?s x = snext s x" if "x \<noteq> y" "x \<notin> set (L BlockQ)" for x
      using that last_in_set [of pre] fun_cong [OF sn, of x] L by (cases "pre = []") auto
    show "y \<notin> set (L q)" if "q \<in> places K" "q \<noteq> BlockQ" for q
      using apartD [OF layout_apart [OF lay] _ that(1), of BlockQ y] that(2) L by simp
    show "place_ok ?s BlockQ (pre @ ys)"
    proof (cases "pre = []")
      case True
      then show ?thesis using ch d unfolding place_ok.simps sn by (simp add: moved_def Let_def)
    next
      case False
      have "blocked_task_list ?s = blocked_task_list s" using False by (simp add: moved_def Let_def)
      moreover have "chain (((snext s)(last pre := snext s y))(y := r)) (blocked_task_list s) (pre @ ys)"
        using chain_remove [OF ch False] d by (subst lseg_upd) auto
      ultimately show ?thesis using False unfolding place_ok.simps sn by simp
    qed
  qed (use L in auto)
qed

lemma wakeup_extract_eq:
  assumes "layout K s L" "L BlockQ = pre @ ys" "chain (snext s) r zs" "set zs \<inter> listed K L = {}"
  shows "\<exists>r' s'. wakeup_extract reason (link_after pre) r s = Some (r', s') \<and>
    s' = s\<lparr>blocked_task_list := blocked_task_list s', tasks := tasks s'\<rparr> \<and>
    layout K s' (L(BlockQ := pre @ filter (\<lambda>x. \<not> awaits s reason x) ys)) \<and>
    chain (snext s') r' (rev (filter (awaits s reason) ys) @ zs) \<and> woke s s' (set (filter (awaits s reason) ys))"
  using assms
proof (induction ys arbitrary: s L r zs pre)
  case Nil
  have "chain (snext s) (link_get blocked_task_list (link_after pre) s) []"
    using link_get_after layout_place [OF Nil.prems(1), of BlockQ] Nil.prems(2) by fastforce
  then have "wakeup_extract reason (link_after pre) r s = Some (r, s)" by (subst wakeup_extract.simps) simp
  moreover have "L(BlockQ := pre) = L" using Nil.prems(2) by auto
  ultimately show ?case using Nil.prems by (intro exI [of _ r] exI [of _ s]) (simp add: woke_refl)
next
  case (Cons y ys)
  have ch: "chain (snext s) (blocked_task_list s) (pre @ y # ys)" using layout_place [OF Cons.prems(1), of BlockQ] Cons.prems(2) by simp
  have d: "distinct (pre @ y # ys)" using ch by (rule chain_distinct)
  have y: "link_get blocked_task_list (link_after pre) s = y" "y \<noteq> 0" using link_get_after [OF ch] by auto
  show ?case
  proof (cases "awaits s reason y")
    case False
    have eq: "wakeup_extract reason (link_after pre) r s = wakeup_extract reason (link_after (pre @ [y])) r s"
      using False y by (subst wakeup_extract.simps) simp
    have "L BlockQ = (pre @ [y]) @ ys" using Cons.prems(2) by simp
    from Cons.IH [OF Cons.prems(1) this Cons.prems(3,4)] show ?thesis unfolding eq using False by simp
  next
    case True
    let ?s1 = "moved pre y r s" let ?L = "L(BlockQ := pre @ ys)"
    note mv = moved_layout [OF Cons.prems(1,2), where r = r]
    have eq: "wakeup_extract reason (link_after pre) r s = wakeup_extract reason (link_after pre) y ?s1"
      using True y by (subst wakeup_extract.simps) (simp add: moved_def Let_def)
    note aw = woke_field(1) [OF mv(4)]
    have bl: "set (pre @ y # ys) \<subseteq> listed K L" using listedI [of BlockQ K _ L] Cons.prems(2) by auto
    have "snext ?s1 x = snext s x" if "x \<in> set zs" for x
      using that bl Cons.prems(4) by (intro mv(3)) auto
    then have cz: "chain (snext ?s1) y (y # zs)" using Cons.prems(3) y(2) mv(2) lseg_cong [of zs "snext ?s1" "snext s"] by simp
    have "listed K ?L = listed K L - {y}" using Cons.prems(2) d by (intro listed_remove [OF layout_apart [OF Cons.prems(1)]]) auto
    then have dj: "set (y # zs) \<inter> listed K ?L = {}" using Cons.prems(4) by auto
    obtain r' s' where IH: "wakeup_extract reason (link_after pre) y ?s1 = Some (r', s')"
      "s' = ?s1\<lparr>blocked_task_list := blocked_task_list s', tasks := tasks s'\<rparr>"
      "layout K s' (?L(BlockQ := pre @ filter (\<lambda>x. \<not> awaits s reason x) ys))"
      "chain (snext s') r' (rev (filter (awaits s reason) ys) @ y # zs)" "woke ?s1 s' (set (filter (awaits s reason) ys))"
      using Cons.IH [OF mv(1) fun_upd_same cz dj] unfolding aw by blast
    have "s' = s\<lparr>blocked_task_list := blocked_task_list s', tasks := tasks s'\<rparr>"
      by (subst IH(2), subst moved_frame) simp
    moreover have "layout K s' (L(BlockQ := pre @ filter (\<lambda>x. \<not> awaits s reason x) (y # ys)))"
      using IH(3) True by (simp del: fun_upd_apply)
    moreover have "woke s s' (set (filter (awaits s reason) (y # ys)))" using woke_trans [OF mv(4) IH(5)] True by simp
    moreover have "chain (snext s') r' (rev (filter (awaits s reason) (y # ys)) @ zs)" using IH(4) True by simp
    ultimately show ?thesis using eq IH(1) by metis
  qed
qed

text \<open>The CPU on whose queue a woken task goes: the one it last ran on, or else this one.\<close>

definition wake_cpu :: "cpu_env \<Rightarrow> 'a sched_state_scheme \<Rightarrow> u64 \<Rightarrow> u64" where
  "wake_cpu env s x = wakeup_target env (tasks s x) s"

definition cpus_known :: "u64 set \<Rightarrow> 'a sched_state_scheme \<Rightarrow> bool" where
  "cpus_known K s \<longleftrightarrow> (\<forall>i<32. cpu_table s i \<in> insert 0 K)"

lemma cpus_known_get: "cpus_known K s \<Longrightarrow> get_cpu_by_id i s \<in> insert 0 K"
  by (auto simp: cpus_known_def get_cpu_by_id_def word_le_nat_alt)

lemma wakeup_target_K: "cpus_known K s \<Longrightarrow> on_cpu K env s c \<Longrightarrow> wakeup_target env t s \<in> K"
  using cpus_known_get [of K s "t_cpu_id t"] by (auto simp: wakeup_target_def Let_def on_cpu_def)

lemma wakeup_target_keeps: "keeps s s' \<Longrightarrow> t_cpu_id t' = t_cpu_id t \<Longrightarrow> wakeup_target env t' s' = wakeup_target env t s"
  by (simp add: wakeup_target_def keeps_get_cpu get_cpu_by_id_def keeps_def Let_def)

lemma wakeup_leads:
  assumes st: "settled K s L" "on_cpu K env s c" "cpus_known K s"
    and W: "W = filter (awaits s reason) (L BlockQ)"
  shows "\<exists>s'. sched_wakeup env reason s = Inr s' \<and>
    leads K s s' (deliver (wake_cpu env s) (\<lambda>x. level_of (tasks s x)) (rev W) (L(BlockQ := filter (\<lambda>x. \<not> awaits s reason x) (L BlockQ)))) (set W) \<and>
    (\<forall>x \<in> set W. t_state (tasks s' x) = TASK_READY \<and> t_priority (tasks s' x) = t_base_priority (tasks s x))"
proof -
  have lay: "layout K s L" using st by (simp add: settled_def)
  have free: "lock_free env (blocked_lock s)" using st by (simp add: settled_def locks_idle_def lock_idle_free)
  let ?s1 = "s\<lparr>blocked_lock := spin_locked env (blocked_lock s)\<rparr>" let ?L = "L(BlockQ := filter (\<lambda>x. \<not> awaits s reason x) (L BlockQ))"
  have lay1: "layout K ?s1 L"
  proof (rule layout_cong [OF lay])
    show "anchor ?s1 q = anchor s q" for q by (cases q) auto
  qed simp
  obtain r s2 where e: "wakeup_extract reason Head 0 ?s1 = Some (r, s2)"
    "s2 = ?s1\<lparr>blocked_task_list := blocked_task_list s2, tasks := tasks s2\<rparr>" "layout K s2 ?L"
    "chain (snext s2) r (rev W)" "woke ?s1 s2 (set W)"
    using wakeup_extract_eq [OF lay1, of "[]" "L BlockQ" 0 "[]" reason] W by auto
  let ?s3 = "s2\<lparr>blocked_lock := spin_unlock env (blocked_lock s2)\<rparr>"
  have "layout K ?s3 ?L"
  proof (rule layout_cong [OF e(3)])
    show "anchor ?s3 q = anchor s2 q" for q by (cases q) auto
  qed simp
  moreover have fr: "sched_state.more s2 = sched_state.more s" "cpus s2 = cpus s" "blocked_lock s2 = spin_locked env (blocked_lock s)" "dead_lock s2 = dead_lock s"
    "cpu_table s2 = cpu_table s" "msrs s2 = msrs s" "system_uptime_ms s2 = system_uptime_ms s"
    by (subst e(2), simp)+
  ultimately have st3: "settled K ?s3 ?L" using st by (simp add: settled_def locks_idle_def)
  have wk: "woke s ?s3 (set W)" using e(5) woke_cong [of ?s1 s s2 ?s3 "set W"] by simp
  then have k3: "keeps s ?s3" using fr woke_field [OF wk] by (simp add: keeps_def)
  have dj: "set (rev W) \<inter> listed K ?L = {}"
    using listed_shrink [OF layout_apart [OF lay], of BlockQ "filter (\<lambda>x. \<not> awaits s reason x) (L BlockQ)"] W by auto
  have tg: "wakeup_target env (id (tasks ?s3 x)) s' = wake_cpu env s x" if "keeps ?s3 s'" for x s'
    unfolding wake_cpu_def using wakeup_target_keeps [OF keeps_trans [OF k3 that], of "tasks ?s3 x" "tasks s x" env] woke_field(4) [OF wk] by simp
  have ch3: "chain (snext ?s3) r (rev W)" using e(4) by simp
  obtain s' where s': "enqueue_all env (wakeup_target env) id r ?s3 = Some (Inr s')"
    "leads K ?s3 s' (deliver (wake_cpu env s) (\<lambda>x. level_of (tasks ?s3 x)) (rev W) ?L) (set (rev W))"
    "\<forall>x \<in> set (rev W). t_state (tasks s' x) = t_state (id (tasks ?s3 x)) \<and> t_priority (tasks s' x) = t_base_priority (tasks ?s3 x)"
    using enqueue_all_leads [OF st3 on_cpu_env [OF st(2)] ch3 dj, of id "wakeup_target env" "wake_cpu env s"]
      tg wakeup_target_K [OF st(3,2)] unfolding wake_cpu_def by auto
  have "sched_wakeup env reason s = Inr s'"
    using e(1) s'(1) by (simp add: sched_wakeup_def spin_lock_free [OF free])
  moreover have "leads K s s' (deliver (wake_cpu env s) (\<lambda>x. level_of (tasks s x)) (rev W) ?L) (set W)"
    using s'(2) k3 woke_touches [OF wk] unfolding leads_def keeps_level [OF k3] set_rev by (blast intro: keeps_trans touches_trans)
  moreover have "\<forall>x \<in> set W. t_state (tasks s' x) = TASK_READY \<and> t_priority (tasks s' x) = t_base_priority (tasks s x)"
    using s'(3) woke_field(2,5) [OF wk] by simp
  ultimately show ?thesis by blast
qed

end
