(* ===== verification/Sched_Switch.thy ===== *)
theory Sched_Switch
  imports Sched_Moves
begin

text \<open>
  Work stealing, the priority boost and the switch itself: what \<^verbatim>\<open>schedule\<close> does to the layout of the tasks and to the task
  a CPU runs.
\<close>

section \<open>Work stealing\<close>

lemma steal_find_eq:
  "chain (snext s) cur ys \<Longrightarrow>
   steal_find cur prev s =
     (let pre = takeWhile (\<lambda>x. t_tid (tasks s x) < 10) ys; post = dropWhile (\<lambda>x. t_tid (tasks s x) < 10) ys
      in Some (if post = [] then 0 else hd post, if pre = [] then prev else last pre))"
proof (induction ys arbitrary: cur prev)
  case Nil
  then show ?case by (subst steal_find.simps) simp
next
  case (Cons y ys)
  have "chain (snext s) (snext s y) ys" using Cons.prems by simp
  note IH = Cons.IH [OF this, of y]
  show ?case using Cons.prems IH by (subst steal_find.simps) (auto simp: Let_def not_less)
qed

text \<open>Taking a task out of the middle of a queue.\<close>

definition unqueue :: "u64 \<Rightarrow> nat \<Rightarrow> u64 \<Rightarrow> u64 \<Rightarrow> 'a sched_state_scheme \<Rightarrow> 'a sched_state_scheme" where
  "unqueue c p t prev s =
     s\<lparr>tasks := (if prev = 0 then tasks s else (tasks s)(prev := (tasks s prev)\<lparr>t_sched_next := snext s t\<rparr>))
          (t := (tasks s t)\<lparr>t_sched_next := 0\<rparr>),
       cpus := (cpus s)(c := (cpus s c)\<lparr>
         c_rq_head := (if prev = 0 then (c_rq_head (cpus s c))(p := snext s t) else c_rq_head (cpus s c)),
         c_rq_tail := (if c_rq_tail (cpus s c) p = t then (c_rq_tail (cpus s c))(p := prev) else c_rq_tail (cpus s c)),
         c_rq_count := (c_rq_count (cpus s c))(p := c_rq_count (cpus s c) p - 1)\<rparr>)\<rparr>"

lemma steal_take_eq:
  assumes "c \<noteq> 0" "t \<noteq> 0" "prev \<noteq> t"
  shows "steal_take c p t prev s = Inr (unqueue c p t prev s)"
  using assms
  by (simp add: steal_take_def unqueue_def task_at_def upd_task_def upd_cpu_def)

lemma unqueue_layout:
  assumes lay: "layout K s L" and c: "c \<in> K" "p < 4" and L: "L (RunQ c p) = pre @ t # post"
    and prev: "prev = (if pre = [] then 0 else last pre)"
  shows "layout K (unqueue c p t prev s) (L(RunQ c p := pre @ post))"
proof -
  let ?s = "unqueue c p t prev s" let ?c = "cpus s c"
  have pl: "RunQ c p \<in> places K" using c by simp
  have lv: "rq_level s c p (pre @ t # post)" using layout_place [OF lay pl] L by simp
  have ch: "chain (snext s) (c_rq_head ?c p) (pre @ t # post)" and d: "distinct (pre @ t # post)"
    and nz: "0 \<notin> set (pre @ t # post)"
    using lv rq_level_distinct [OF lv] rq_level_notnull [OF lv] by (auto simp: rq_level_def)
  have lp: "last pre \<in> set pre" "last pre \<noteq> t" "last pre \<noteq> 0" if "pre \<noteq> []"
    using d nz last_in_set [OF that] by (auto simp del: last_in_set)
  have sn: "snext ?s = (if pre = [] then snext s else (snext s)(last pre := snext s t))(t := 0)"
    using prev lp by (auto simp: unqueue_def fun_eq_iff)
  have "chain (snext ?s) (c_rq_head (cpus ?s c) p) (pre @ post)"
  proof (cases "pre = []")
    case True
    then show ?thesis using ch d prev unfolding sn by (simp add: unqueue_def)
  next
    case False
    have "chain (((snext s)(last pre := snext s t))(t := 0)) (c_rq_head ?c p) (pre @ post)"
      using chain_remove [OF ch False] d by (subst lseg_upd) auto
    then show ?thesis using False prev lp unfolding sn by (simp add: unqueue_def)
  qed
  moreover have "c_rq_tail (cpus ?s c) p = (if pre @ post = [] then 0 else last (pre @ post))"
    using lv prev d nz by (cases "post = []") (auto simp: unqueue_def rq_level_def)
  moreover have "c_rq_count (cpus ?s c) p = of_nat (length (pre @ post))"
    using lv by (simp add: unqueue_def rq_level_def)
  ultimately have ok: "place_ok ?s (RunQ c p) (pre @ post)" by (simp add: rq_level_def)
  show ?thesis
  proof (rule layout_replace [OF lay pl _ _ _ ok, where t = t])
    show "anchor ?s q = anchor s q" if "q \<noteq> RunQ c p" for q using that by (cases q) (auto simp: unqueue_def)
    show "snext ?s x = snext s x" if "x \<noteq> t" "x \<notin> set (L (RunQ c p))" for x
      using that fun_cong [OF sn, of x] lp(1) L by (cases "pre = []") auto
    show "t \<notin> set (L q)" if "q \<in> places K" "q \<noteq> RunQ c p" for q
      using apartD [OF layout_apart [OF lay] pl that(1), of t] that(2) L by simp
  qed (use L in auto)
qed

text \<open>One task has left a run queue.\<close>

definition pulled :: "u64 set \<Rightarrow> (place \<Rightarrow> u64 list) \<Rightarrow> u64 \<Rightarrow> (place \<Rightarrow> u64 list) \<Rightarrow> bool" where
  "pulled K L t L' \<longleftrightarrow> (\<exists>c \<in> K. \<exists>p < 4. \<exists>pre post. L (RunQ c p) = pre @ t # post \<and> L' = L(RunQ c p := pre @ post))"

lemma pulled_listed:
  assumes "pulled K L t L'" and lay: "layout K s L"
  shows "t \<in> listed K L" and "listed K L' = listed K L - {t}" and "set (L' pl) \<subseteq> set (L pl)" and "t \<noteq> 0"
    and "L' (SleepQ c) = L (SleepQ c)" and "L' BlockQ = L BlockQ" and "L' DeadQ = L DeadQ"
proof -
  obtain d p pre post where t: "d \<in> K" "p < 4" "L (RunQ d p) = pre @ t # post" "L' = L(RunQ d p := pre @ post)"
    using assms(1) unfolding pulled_def by blast
  have pl: "RunQ d p \<in> places K" using t by simp
  show l: "t \<in> listed K L" using listedI [OF pl, of t L] t(3) by simp
  then show "t \<noteq> 0" using layout_notnull [OF lay] by auto
  show "listed K L' = listed K L - {t}"
    unfolding t(4) using t(3) layout_distinct [OF lay pl] by (intro listed_remove [OF layout_apart [OF lay] pl]) auto
  show "set (L' pl) \<subseteq> set (L pl)" "L' (SleepQ c) = L (SleepQ c)" "L' BlockQ = L BlockQ" "L' DeadQ = L DeadQ" using t(3,4) by auto
qed

lemma unqueue_frame:
  "keeps s (unqueue c p t prev s)" "touches s (unqueue c p t prev s) {}" "c_rq_lock (cpus (unqueue c p t prev s) d) = c_rq_lock (cpus s d)"
  "c_sleep_lock (cpus (unqueue c p t prev s) d) = c_sleep_lock (cpus s d)" "blocked_lock (unqueue c p t prev s) = blocked_lock s"
  "dead_lock (unqueue c p t prev s) = dead_lock s"
  by (auto simp: unqueue_def keeps_def touches_def)

text \<open>The search goes through the levels; the first task with a TID of at least 10 is pulled.\<close>

lemma steal_levels_eq:
  assumes "layout K s L" "c \<in> K" "c \<noteq> 0" "set ps \<subseteq> {..<4}"
  shows "\<exists>t s' L'. steal_levels c ps s = Inr (t, s') \<and> layout K s' L' \<and>
    (t = 0 \<and> s' = s \<and> L' = L \<and> (\<forall>p \<in> set ps. \<forall>x \<in> set (L (RunQ c p)). t_tid (tasks s x) < 10) \<or>
     pulled K L t L' \<and> t_tid (tasks s t) \<ge> 10 \<and> (\<exists>p prev. s' = unqueue c p t prev s))"
  using assms(4)
proof (induction ps)
  case Nil
  then show ?case using assms(1) by auto
next
  case (Cons p ps)
  let ?P = "\<lambda>x. t_tid (tasks s x) < 10" let ?xs = "L (RunQ c p)"
  have pl: "RunQ c p \<in> places K" using Cons.prems assms(2) by simp
  have lv: "rq_level s c p ?xs" using layout_place [OF assms(1) pl] by simp
  then have ch: "chain (snext s) (c_rq_head (cpus s c) p) ?xs" by (simp add: rq_level_def)
  note find = steal_find_eq [OF ch, of 0]
  show ?case
  proof (cases "dropWhile ?P ?xs")
    case Nil
    then have "steal_levels c (p # ps) s = steal_levels c ps s" using find assms(3) by (simp add: cpu_at_def Let_def)
    moreover have "\<forall>x \<in> set ?xs. t_tid (tasks s x) < 10" using Nil by (simp add: dropWhile_eq_Nil_conv)
    ultimately show ?thesis using Cons by auto
  next
    case (Cons t post)
    let ?pre = "takeWhile ?P ?xs"
    define prev where prev: "prev = (if ?pre = [] then 0 else last ?pre)"
    have xs: "?xs = ?pre @ t # post" using Cons takeWhile_dropWhile_id [of ?P ?xs] by simp
    have tx: "t \<in> set ?xs" by (subst xs) simp
    then have t: "t \<noteq> 0" "t_tid (tasks s t) \<ge> 10"
      using rq_level_notnull [OF lv] Cons hd_dropWhile [of ?P ?xs] by (metis, simp add: not_less)
    have "t \<notin> set ?pre" using t(2) set_takeWhileD [of t ?P ?xs] by auto
    then have pt: "prev \<noteq> t" using t(1) last_in_set [of ?pre] prev by (cases "?pre = []") auto
    have "steal_find (c_rq_head (cpus s c) p) 0 s = Some (t, prev)" using find Cons prev by (simp add: Let_def)
    then have "steal_levels c (p # ps) s = Inr (t, unqueue c p t prev s)"
      using assms(3) t(1) steal_take_eq [OF assms(3) t(1) pt] by (simp add: cpu_at_def)
    moreover have "layout K (unqueue c p t prev s) (L(RunQ c p := ?pre @ post))"
      using pl by (intro unqueue_layout [OF assms(1,2) _ xs prev]) simp
    moreover have "pulled K L t (L(RunQ c p := ?pre @ post))"
      unfolding pulled_def using xs pl assms(2) by (intro bexI [of _ c] exI [of _ p]) auto
    ultimately show ?thesis using t(2) by blast
  qed
qed

lemma steal_leads:
  assumes st: "settled K s L" "on_cpu K env s c" and o: "other \<in> K"
  shows "\<exists>t s' L'. steal_task_from_cpu env other s = Inr (t, s') \<and> leads K s s' L' {} \<and>
    (t = 0 \<and> L' = L \<and> (\<forall>p<3. \<forall>x \<in> set (L (RunQ other p)). t_tid (tasks s x) < 10) \<or> pulled K L t L' \<and> t_tid (tasks s t) \<ge> 10)"
proof -
  let ?l = "c_rq_lock (cpus s other)"
  let ?s1 = "s\<lparr>cpus := (cpus s)(other := (cpus s other)\<lparr>c_rq_lock := spin_locked env ?l\<rparr>)\<rparr>"
  have o0: "other \<noteq> 0" and lay: "layout K s L" and idle: "lock_idle ?l" using st o by (auto simp: settled_def locks_idle_def)
  obtain n where n: "this_cpu env = Some n" "g_lock_enabled env" using st(2) by (auto simp: on_cpu_def)
  have got: "spin_trylock env ?l = Inr (True, spin_locked env ?l)"
    using spin_trylock_free [OF _ n(1), of ?l] idle n by (simp add: lock_idle_def spin_locked_def)
  have lay1: "layout K ?s1 L"
  proof (rule layout_cong [OF lay])
    show "anchor ?s1 q = anchor s q" for q by (cases q) auto
  qed simp
  have k1: "keeps s ?s1" by (simp add: keeps_def)
  have three: "set [0..<3] \<subseteq> {..<4 :: nat}" by auto
  obtain t s2 L' where r: "steal_levels other [0..<3] ?s1 = Inr (t, s2)" "layout K s2 L'"
    "t = 0 \<and> s2 = ?s1 \<and> L' = L \<and> (\<forall>p \<in> set [0..<3]. \<forall>x \<in> set (L (RunQ other p)). t_tid (tasks ?s1 x) < 10) \<or>
     pulled K L t L' \<and> t_tid (tasks ?s1 t) \<ge> 10 \<and> (\<exists>p prev. s2 = unqueue other p t prev ?s1)"
    using steal_levels_eq [OF lay1 o o0 three] by blast
  have fr: "keeps ?s1 s2" "touches ?s1 s2 {}" "\<And>d. c_rq_lock (cpus s2 d) = c_rq_lock (cpus ?s1 d)"
    "\<And>d. c_sleep_lock (cpus s2 d) = c_sleep_lock (cpus ?s1 d)" "blocked_lock s2 = blocked_lock ?s1" "dead_lock s2 = dead_lock ?s1"
    using r(3) unqueue_frame by (metis keeps_refl touches_refl)+
  let ?s3 = "s2\<lparr>cpus := (cpus s2)(other := (cpus s2 other)\<lparr>c_rq_lock := spin_unlock env (c_rq_lock (cpus s2 other))\<rparr>)\<rparr>"
  have eq: "steal_task_from_cpu env other s = Inr (t, ?s3)"
    using got r(1) o0 by (simp add: steal_task_from_cpu_def cpu_at_def upd_cpu_def rq_release_def)
  have "layout K ?s3 L'"
  proof (rule layout_cong [OF r(2)])
    show "anchor ?s3 q = anchor s2 q" for q by (cases q) auto
  qed simp
  then have "settled K ?s3 L'" using st fr by (auto simp: settled_def locks_idle_def)
  moreover have "keeps s ?s3" using keeps_trans [OF k1 fr(1)] by (simp add: keeps_def)
  moreover have "touches s ?s3 {}" using fr(2) by (simp add: touches_def)
  ultimately show ?thesis using eq r(3) unfolding leads_def by auto
qed

text \<open>No other CPU has a task that may migrate.\<close>

definition none_to_steal :: "u64 list \<Rightarrow> u64 \<Rightarrow> 'a sched_state_scheme \<Rightarrow> (place \<Rightarrow> u64 list) \<Rightarrow> bool" where
  "none_to_steal ids c s L \<longleftrightarrow>
     (\<forall>i \<in> set ids. get_cpu_by_id i s \<noteq> 0 \<and> get_cpu_by_id i s \<noteq> c \<longrightarrow>
        (\<forall>p<3. \<forall>x \<in> set (L (RunQ (get_cpu_by_id i s) p)). t_tid (tasks s x) < 10))"

lemma none_to_steal_keeps: "keeps s s' \<Longrightarrow> none_to_steal ids c s' L = none_to_steal ids c s L"
  by (simp add: none_to_steal_def keeps_def get_cpu_by_id_def)

lemma steal_from_leads:
  assumes st: "settled K s L" "on_cpu K env s c" "cpus_known K s"
  shows "\<exists>t s' L'. steal_from env c is s = Inr (t, s') \<and> leads K s s' L' {} \<and>
    (t = 0 \<and> L' = L \<and> none_to_steal is c s L \<or> pulled K L t L' \<and> t_tid (tasks s t) \<ge> 10)"
  using st
proof (induction "is" arbitrary: s)
  case Nil
  then show ?case by (auto simp: leads_def none_to_steal_def)
next
  case (Cons i "is")
  let ?o = "get_cpu_by_id i s"
  show ?case
  proof (cases "?o = 0 \<or> ?o = c")
    case True
    then have "steal_from env c (i # is) s = steal_from env c is s" by (simp add: Let_def)
    moreover have "none_to_steal (i # is) c s L = none_to_steal is c s L" using True by (auto simp: none_to_steal_def)
    ultimately show ?thesis using Cons.IH [OF Cons.prems] by metis
  next
    case False
    then have "?o \<in> K" using cpus_known_get [OF Cons.prems(3), of i] by simp
    from steal_leads [OF Cons.prems(1,2) this] obtain t s1 L1 where
      s1: "steal_task_from_cpu env ?o s = Inr (t, s1)" "leads K s s1 L1 {}"
      "t = 0 \<and> L1 = L \<and> (\<forall>p<3. \<forall>x \<in> set (L (RunQ ?o p)). t_tid (tasks s x) < 10) \<or> pulled K L t L1 \<and> t_tid (tasks s t) \<ge> 10"
      by blast
    show ?thesis
    proof (cases "t = 0")
      case False': False
      have "steal_from env c (i # is) s = Inr (t, s1)" using False False' s1(1) by (simp add: Let_def)
      then show ?thesis using s1 False' by blast
    next
      case True
      then have L1: "L1 = L" "\<forall>p<3. \<forall>x \<in> set (L (RunQ ?o p)). t_tid (tasks s x) < 10"
        using s1(3) pulled_listed(4) Cons.prems(1) by (metis settled_def)+
      have kp: "keeps s s1" using s1(2) by (simp add: leads_def)
      have st1: "settled K s1 L" "on_cpu K env s1 c" "cpus_known K s1"
        using s1(2) L1(1) on_cpu_keeps [OF Cons.prems(2) kp] Cons.prems(3) kp by (simp_all add: leads_def cpus_known_def keeps_def)
      obtain u s2 L2 where s2: "steal_from env c is s1 = Inr (u, s2)" "leads K s1 s2 L2 {}"
        "u = 0 \<and> L2 = L \<and> none_to_steal is c s1 L \<or> pulled K L u L2 \<and> t_tid (tasks s1 u) \<ge> 10"
        using Cons.IH [OF st1] by blast
      have "steal_from env c (i # is) s = Inr (u, s2)" using False True s1(1) s2(1) by (simp add: Let_def)
      moreover have "leads K s s2 L2 {}" using leads_trans [OF s1(2) s2(2)] by simp
      moreover have "t_tid (tasks s1 u) = t_tid (tasks s u)" using kp by (simp add: keeps_def)
      moreover have "none_to_steal (i # is) c s L" if "none_to_steal is c s1 L"
        using that L1(2) none_to_steal_keeps [OF kp, of "is" c L] by (auto simp: none_to_steal_def)
      ultimately show ?thesis using s2(3) by metis
    qed
  qed
qed

section \<open>Priority boost\<close>

lemma chain_append:
  assumes "chain nxt h xs" "chain nxt k ys" "xs \<noteq> []" "set xs \<inter> set ys = {}"
  shows "chain (nxt(last xs := k)) h (xs @ ys)"
proof -
  have "lseg (nxt(last xs := k)) h xs k" using lseg_retarget [OF assms(1) chain_distinct [OF assms(1)] assms(3)] .
  moreover have "chain (nxt(last xs := k)) k ys" using assms(2,4) last_in_set [OF assms(3)] by (subst lseg_upd) auto
  ultimately show ?thesis by auto
qed

text \<open>The tasks of level \<open>p + 1\<close> are appended to those of level \<open>p\<close>.\<close>

definition lift_level :: "u64 \<Rightarrow> nat \<Rightarrow> (place \<Rightarrow> u64 list) \<Rightarrow> place \<Rightarrow> u64 list" where
  "lift_level c p L = L(RunQ c p := L (RunQ c p) @ L (RunQ c (Suc p)), RunQ c (Suc p) := [])"

lemma boost_level_leads:
  assumes st: "settled K s L" and c: "c \<in> K" "p < 3"
  shows "\<exists>s'. boost_level c p s = Inr s' \<and> leads K s s' (lift_level c p L) {}"
proof -
  have c0: "c \<noteq> 0" and lay: "layout K s L" using st c by (auto simp: settled_def)
  have pl: "RunQ c p \<in> places K" "RunQ c (Suc p) \<in> places K" using c by auto
  let ?c = "cpus s c" let ?xs = "L (RunQ c p)" let ?ys = "L (RunQ c (Suc p))"
  have lv: "rq_level s c p ?xs" "rq_level s c (Suc p) ?ys" using layout_place [OF lay pl(1)] layout_place [OF lay pl(2)] by simp_all
  have dj: "set ?xs \<inter> set ?ys = {}" using layout_apart [OF lay] pl by (simp add: apart_def)
  show ?thesis
  proof (cases "?ys = []")
    case True
    then have "boost_level c p s = Inr s" using rq_level_head [OF lv(2)] c0 by (simp add: boost_level_def cpu_at_def)
    moreover have "lift_level c p L = L" using True by (auto simp: lift_level_def)
    ultimately show ?thesis using st by (simp add: leads_def)
  next
    case ys: False
    have h: "c_rq_head ?c (Suc p) \<noteq> 0" "c_rq_head ?c (Suc p) = hd ?ys"
      using rq_level_head [OF lv(2)] rq_level_notnull [OF lv(2)] ys by (cases ?ys; simp)+
    have lx: "last ?xs \<noteq> 0" if "?xs \<noteq> []" using rq_level_notnull [OF lv(1)] last_in_set [OF that] by metis
    have tl: "c_rq_tail ?c p = (if ?xs = [] then 0 else last ?xs)" using lv(1) by (simp add: rq_level_def)
    define c' where "c' = ?c\<lparr>c_rq_tail := (c_rq_tail ?c)(p := c_rq_tail ?c (Suc p), Suc p := 0),
      c_rq_count := (c_rq_count ?c)(p := c_rq_count ?c p + c_rq_count ?c (Suc p), Suc p := 0),
      c_rq_head := (if ?xs = [] then (c_rq_head ?c)(p := c_rq_head ?c (Suc p)) else c_rq_head ?c)(Suc p := 0)\<rparr>"
    define ts where "ts = (if ?xs = [] then tasks s else (tasks s)(last ?xs := (tasks s (last ?xs))\<lparr>t_sched_next := hd ?ys\<rparr>))"
    let ?s = "s\<lparr>tasks := ts, cpus := (cpus s)(c := c')\<rparr>"
    have eq: "boost_level c p s = Inr ?s"
    proof (cases "?xs = []")
      case True
      then show ?thesis using h tl c0 by (simp add: boost_level_def cpu_at_def upd_cpu_def c'_def ts_def)
    next
      case False
      then show ?thesis using lx [OF False] h tl c0 by (simp add: boost_level_def cpu_at_def upd_cpu_def upd_task_def c'_def ts_def)
    qed
    have sn: "snext ?s = (if ?xs = [] then snext s else (snext s)(last ?xs := hd ?ys))" by (auto simp: ts_def)
    have chx: "chain (snext s) (c_rq_head ?c p) ?xs" and chy: "chain (snext s) (hd ?ys) ?ys"
      using lv h(2) by (simp_all add: rq_level_def)
    have "chain (snext ?s) (c_rq_head (cpus ?s c) p) (?xs @ ?ys)"
    proof (cases "?xs = []")
      case True
      then show ?thesis using chy h unfolding sn by (simp add: c'_def)
    next
      case False
      then show ?thesis using chain_append [OF chx chy False dj] unfolding sn by (simp add: c'_def)
    qed
    then have "rq_level ?s c p (?xs @ ?ys)" using lv ys by (simp add: rq_level_def c'_def)
    moreover have "rq_level ?s c (Suc p) []" by (simp add: rq_level_def c'_def)
    ultimately have ok: "place_ok ?s (RunQ c p) (?xs @ ?ys)" "place_ok ?s (RunQ c (Suc p)) []" by simp_all
    have "layout K ?s (lift_level c p L)"
    proof (rule layout_change [OF lay, where D = "{RunQ c p, RunQ c (Suc p)}"])
      fix q assume q: "q \<in> places K" "q \<notin> {RunQ c p, RunQ c (Suc p)}"
      then show "anchor ?s q = anchor s q \<and> lift_level c p L q = L q"
        by (cases q) (auto simp: c'_def lift_level_def)
      show "snext ?s x = snext s x" if "x \<in> set (L q)" for x
        using apartD [OF layout_apart [OF lay] q(1) pl(1) _ that] q(2) fun_cong [OF sn, of x] by (auto split: if_splits)
    next
      show "apart K (lift_level c p L)"
        unfolding apart_def
      proof (intro ballI impI)
        fix a b assume ab: "a \<in> places K" "b \<in> places K" "a \<noteq> b"
        have "set (L x) \<inter> set (L y) = {}" if "x \<in> places K" "y \<in> places K" "x \<noteq> y" for x y
          using layout_apart [OF lay] that by (simp add: apart_def)
        note ds = this [OF ab] this [OF pl(2) ab(1)] this [OF pl(2) ab(2)] this [OF pl(1) ab(1)] this [OF pl(1) ab(2)]
        show "set (lift_level c p L a) \<inter> set (lift_level c p L b) = {}"
          using ds ab(3) dj by (auto simp: lift_level_def)
      qed
    qed (use ok in \<open>auto simp: lift_level_def\<close>)
    then have "settled K ?s (lift_level c p L)" using st by (auto simp: settled_def locks_idle_def c'_def)
    moreover have "keeps s ?s" "touches s ?s {}" by (auto simp: keeps_def touches_def c'_def ts_def)
    ultimately show ?thesis using eq unfolding leads_def by blast
  qed
qed

lemma prio_boost_leads:
  assumes st: "settled K s L" and c: "c \<in> K"
  shows "\<exists>s'. prio_boost c s = Inr s' \<and> leads K s s' (lift_level c 1 (lift_level c 0 L)) {}"
proof -
  obtain s1 where s1: "boost_level c 0 s = Inr s1" "leads K s s1 (lift_level c 0 L) {}"
    using boost_level_leads [OF st c, of 0] by auto
  obtain s2 where s2: "boost_level c 1 s1 = Inr s2" "leads K s1 s2 (lift_level c 1 (lift_level c 0 L)) {}"
    using boost_level_leads [OF leads_settled [OF s1(2)] c, of 1] by auto
  have "prio_boost c s = Inr s2" using s1(1) s2(1) by (simp add: prio_boost_def upt_rec)
  then show ?thesis using leads_trans [OF s1(2) s2(2)] by auto
qed

section \<open>The switch\<close>

text \<open>Fields of a task that are neither its link nor its level are changed.\<close>

lemma upd_task_leads:
  assumes st: "settled K s L" and f: "t_sched_next (f (tasks s x)) = snext s x"
    "t_base_priority (f (tasks s x)) = t_base_priority (tasks s x)" "t_tid (f (tasks s x)) = t_tid (tasks s x)"
  shows "leads K s (s\<lparr>tasks := (tasks s)(x := f (tasks s x))\<rparr>) L {x}"
proof -
  let ?s = "s\<lparr>tasks := (tasks s)(x := f (tasks s x))\<rparr>"
  have "layout K s L" using st by (simp add: settled_def)
  then have "layout K ?s L"
  proof (rule layout_cong)
    show "anchor ?s q = anchor s q" for q by (cases q) auto
  qed (use f in auto)
  then show ?thesis using st f by (auto simp: leads_def settled_def locks_idle_def keeps_def touches_def)
qed

lemma upd_cpu_leads:
  assumes st: "settled K s L" and "\<And>x. anchor (s\<lparr>cpus := (cpus s)(c := f (cpus s c))\<rparr>) x = anchor s x"
    "c_rq_lock (f (cpus s c)) = c_rq_lock (cpus s c)" "c_sleep_lock (f (cpus s c)) = c_sleep_lock (cpus s c)"
  shows "settled K (s\<lparr>cpus := (cpus s)(c := f (cpus s c))\<rparr>) L"
proof -
  let ?s = "s\<lparr>cpus := (cpus s)(c := f (cpus s c))\<rparr>"
  have "layout K s L" using st by (simp add: settled_def)
  then have "layout K ?s L" by (rule layout_cong) (use assms(2) in auto)
  then show ?thesis using st assms(3,4) by (auto simp: settled_def locks_idle_def)
qed

text \<open>Whether the scheduler puts the task it takes the CPU from back on a queue.\<close>

abbreviation goes_on :: "'a sched_state_scheme \<Rightarrow> u64 \<Rightarrow> bool" where
  "goes_on s t \<equiv> t_state (tasks s t) = TASK_RUNNING \<and> t_priority (tasks s t) \<noteq> PRIO_IDLE"

lemma schedule_out_leads:
  assumes st: "settled K s L" "c \<in> K" "env_ok env" and t: "t \<noteq> 0" "goes_on s t \<Longrightarrow> t \<notin> listed K L"
    and i: "i = level_of (tasks s t)"
  shows "\<exists>s'. schedule_out env c t frame s = Inr s' \<and>
    leads K s s' (if goes_on s t then L(RunQ c i := L (RunQ c i) @ [t]) else L) {t} \<and>
    t_state (tasks s' t) = (if goes_on s t then TASK_READY else t_state (tasks s t)) \<and>
    t_priority (tasks s' t) = (if goes_on s t then t_base_priority (tasks s t) else t_priority (tasks s t))"
proof -
  let ?s1 = "s\<lparr>tasks := (tasks s)(t := (tasks s t)\<lparr>t_rsp := frame\<rparr>)\<rparr>"
  have l1: "leads K s ?s1 L {t}" by (rule upd_task_leads [OF st(1)]) simp_all
  let ?L = "if goes_on s t then L(RunQ c i := L (RunQ c i) @ [t]) else L"
  let ?mid = "if goes_on ?s1 t then bind_res (upd_task t (\<lambda>t. t\<lparr>t_state := TASK_READY\<rparr>) ?s1) (enqueue_task env c t) else Inr ?s1"
  have "\<exists>s2. ?mid = Inr s2 \<and> leads K s s2 ?L {t} \<and> t_state (tasks s2 t) = (if goes_on s t then TASK_READY else t_state (tasks s t)) \<and>
    t_priority (tasks s2 t) = (if goes_on s t then t_base_priority (tasks s t) else t_priority (tasks s t))"
  proof (cases "goes_on s t")
    case False
    then show ?thesis using l1 by auto
  next
    case True
    let ?s2 = "?s1\<lparr>tasks := (tasks ?s1)(t := (tasks ?s1 t)\<lparr>t_state := TASK_READY\<rparr>)\<rparr>"
    have l2: "leads K ?s1 ?s2 L {t}" by (rule upd_task_leads [OF leads_settled [OF l1]]) simp_all
    have lv: "level_of (tasks ?s2 t) = i" using i by (simp add: level_of_def)
    obtain s3 where s3: "enqueue_task env c t ?s2 = Inr s3" "leads K ?s2 s3 (L(RunQ c i := L (RunQ c i) @ [t])) {t}"
      "t_state (tasks s3 t) = t_state (tasks ?s2 t)" "t_priority (tasks s3 t) = t_base_priority (tasks ?s2 t)"
      using enqueue_leads [OF leads_settled [OF l2] st(2,3) t(2) [OF True] t(1) lv [symmetric]] by blast
    have "leads K s s3 (L(RunQ c i := L (RunQ c i) @ [t])) {t}"
      using leads_trans [OF leads_trans [OF l1 l2 subset_refl] s3(2), of "{t}"] by simp
    then show ?thesis using True s3(1,3,4) t(1) by (simp add: upd_task_def)
  qed
  then obtain s2 where s2: "?mid = Inr s2" "leads K s s2 ?L {t}"
    "t_state (tasks s2 t) = (if goes_on s t then TASK_READY else t_state (tasks s t))"
    "t_priority (tasks s2 t) = (if goes_on s t then t_base_priority (tasks s t) else t_priority (tasks s t))" by blast
  let ?s3 = "if t_tid (tasks s2 t) \<ge> 10 then s2\<lparr>tasks := (tasks s2)(t := (tasks s2 t)\<lparr>t_cpu_id := NO_CPU\<rparr>)\<rparr> else s2"
  have "leads K s2 (s2\<lparr>tasks := (tasks s2)(t := (tasks s2 t)\<lparr>t_cpu_id := NO_CPU\<rparr>)\<rparr>) ?L {t}"
    by (rule upd_task_leads [OF leads_settled [OF s2(2)]]) simp_all
  then have "leads K s ?s3 ?L {t}" using leads_trans [OF s2(2)] s2(2) by (cases "t_tid (tasks s2 t) \<ge> 10") auto
  moreover have "schedule_out env c t frame s = Inr ?s3"
    unfolding schedule_out_def using s2(1) t(1) by (simp add: upd_task_def)
  moreover have "t_state (tasks ?s3 t) = (if goes_on s t then TASK_READY else t_state (tasks s t))"
    "t_priority (tasks ?s3 t) = (if goes_on s t then t_base_priority (tasks s t) else t_priority (tasks s t))" using s2(3,4) by simp_all
  ultimately show ?thesis by blast
qed

abbreviation cpu_ids :: "u64 list" where "cpu_ids \<equiv> map of_nat [0..<32]"

lemma schedule_pick_leads:
  assumes st: "settled K s L" "on_cpu K env s c" "cpus_known K s"
  shows "\<exists>t s' L'. schedule_pick env c s = Inr (t, s') \<and> leads K s s' L' {} \<and>
    (t = c_idle_task (cpus s c) \<and> L' = L \<and> (\<forall>p<3. L (RunQ c p) = []) \<and> none_to_steal cpu_ids c s L \<or> pulled K L t L')"
proof -
  have c: "c \<in> K" "c \<noteq> 0" "env_ok env" using st by (auto simp: on_cpu_def settled_def env_ok_def)
  have lay: "layout K s L" using st(1) by (simp add: settled_def)
  obtain t s1 L1 where d: "dequeue_task env c s = Inr (t, s1)" "leads K s s1 L1 {}"
    "(\<forall>p<3. L (RunQ c p) = []) \<and> t = 0 \<and> L1 = L \<or> (\<exists>p<3. \<exists>ts. L (RunQ c p) = t # ts \<and> L1 = L(RunQ c p := ts))"
    using dequeue_leads [OF st(1) c(1,3)] by blast
  show ?thesis
  proof (cases "t = 0")
    case False
    then obtain p ts where p: "p < 3" "L (RunQ c p) = [] @ t # ts" "L1 = L(RunQ c p := [] @ ts)" using d(3) by auto
    moreover have "p < 4" using p(1) by simp
    ultimately have "pulled K L t L1" using c(1) unfolding pulled_def by blast
    then show ?thesis using False d(1,2) by (auto simp: schedule_pick_def)
  next
    case True
    have e: "(\<forall>p<3. L (RunQ c p) = []) \<and> L1 = L"
    proof -
      have "0 \<notin> set (L (RunQ c p))" if "p < 3" for p
        using layout_notnull [OF lay] listedI [of "RunQ c p" K 0 L] that c(1) by auto
      then show ?thesis using d(3) True by (metis list.set_intros(1))
    qed
    have kp: "keeps s s1" using d(2) by (simp add: leads_def)
    have st1: "settled K s1 L" "on_cpu K env s1 c" "cpus_known K s1"
      using d(2) e on_cpu_keeps [OF st(2) kp] st(3) kp by (simp_all add: leads_def cpus_known_def keeps_def)
    obtain u s2 L2 where u: "steal_from env c cpu_ids s1 = Inr (u, s2)" "leads K s1 s2 L2 {}"
      "u = 0 \<and> L2 = L \<and> none_to_steal cpu_ids c s1 L \<or> pulled K L u L2"
      using steal_from_leads [OF st1] by blast
    have kp2: "keeps s1 s2" using u(2) by (simp add: leads_def)
    have ld: "leads K s s2 L2 {}" using leads_trans [OF d(2) u(2)] by simp
    show ?thesis
    proof (cases "u = 0")
      case u0: True
      then have "L2 = L" "none_to_steal cpu_ids c s L"
        using u(3) pulled_listed(4) [OF _ lay] none_to_steal_keeps [OF kp] by blast+
      moreover have "schedule_pick env c s = Inr (c_idle_task (cpus s2 c), s2)"
        using True u0 d(1) u(1) c(2) by (simp add: schedule_pick_def cpu_at_def)
      moreover have "c_idle_task (cpus s2 c) = c_idle_task (cpus s c)" using kp kp2 by (simp add: keeps_def)
      ultimately show ?thesis using e ld by auto
    next
      case False
      then have "schedule_pick env c s = Inr (u, s2)" using True d(1) u(1) by (simp add: schedule_pick_def)
      then show ?thesis using False u(3) ld by blast
    qed
  qed
qed

section \<open>A whole turn of the scheduler\<close>

text \<open>The tasks on run queues, and layouts that agree outside of them.\<close>

definition runnable :: "u64 set \<Rightarrow> (place \<Rightarrow> u64 list) \<Rightarrow> u64 set" where
  "runnable K L = (\<Union>c \<in> K. \<Union>p<4. set (L (RunQ c p)))"

definition same_waits :: "(place \<Rightarrow> u64 list) \<Rightarrow> (place \<Rightarrow> u64 list) \<Rightarrow> bool" where
  "same_waits L L' \<longleftrightarrow> (\<forall>c. L' (SleepQ c) = L (SleepQ c)) \<and> L' BlockQ = L BlockQ \<and> L' DeadQ = L DeadQ"

lemma listed_runnable:
  "listed K L = runnable K L \<union> (\<Union>c \<in> K. set (L (SleepQ c))) \<union> set (L BlockQ) \<union> set (L DeadQ)"
  by (auto simp: listed_def places_def runnable_def)

lemma runnableI: "c \<in> K \<Longrightarrow> p < 4 \<Longrightarrow> x \<in> set (L (RunQ c p)) \<Longrightarrow> x \<in> runnable K L"
  unfolding runnable_def by blast

lemma runnable_append:
  assumes "c \<in> K" "p < 4"
  shows "runnable K (L(RunQ c p := L (RunQ c p) @ [t])) = insert t (runnable K L)"
proof (intro set_eqI iffI)
  fix x assume "x \<in> runnable K (L(RunQ c p := L (RunQ c p) @ [t]))"
  then show "x \<in> insert t (runnable K L)" by (auto simp: runnable_def split: if_splits)
next
  fix x assume "x \<in> insert t (runnable K L)"
  then consider "x = t" | d q where "d \<in> K" "q < 4" "x \<in> set (L (RunQ d q))" by (auto simp: runnable_def)
  then show "x \<in> runnable K (L(RunQ c p := L (RunQ c p) @ [t]))"
  proof cases
    case 1
    then show ?thesis using assms by (intro runnableI [of c K p]) simp_all
  next
    case 2
    then show ?thesis by (intro runnableI [of d K q]) auto
  qed
qed

lemma runnable_lift:
  assumes "c \<in> K" "p < 3"
  shows "runnable K (lift_level c p L) = runnable K L"
proof (intro set_eqI iffI)
  fix x assume "x \<in> runnable K (lift_level c p L)"
  then obtain d q where d: "d \<in> K" "q < 4" "x \<in> set (lift_level c p L (RunQ d q))" by (auto simp: runnable_def)
  have "x \<in> set (L (RunQ d q)) \<or> x \<in> set (L (RunQ c (Suc p)))" using d(3) by (auto simp: lift_level_def split: if_splits)
  moreover have "Suc p < 4" using assms(2) by simp
  ultimately show "x \<in> runnable K L" using d(1,2) assms(1) unfolding runnable_def by blast
next
  fix x assume "x \<in> runnable K L"
  then obtain d q where d: "d \<in> K" "q < 4" "x \<in> set (L (RunQ d q))" by (auto simp: runnable_def)
  have "x \<in> set (lift_level c p L (RunQ d q)) \<or> x \<in> set (lift_level c p L (RunQ c p))"
    using d(3) by (auto simp: lift_level_def)
  moreover have "p < 4" using assms(2) by simp
  ultimately show "x \<in> runnable K (lift_level c p L)" using d(1,2) assms(1) unfolding runnable_def by blast
qed

lemma same_waits_lift: "same_waits L (lift_level c p L)"
  by (simp add: same_waits_def lift_level_def)

lemma same_waits_trans: "same_waits L M \<Longrightarrow> same_waits M N \<Longrightarrow> same_waits L N"
  by (simp add: same_waits_def)

lemma pulled_runnable:
  assumes "pulled K L t L'" and lay: "layout K s L"
  shows "t \<in> runnable K L" and "runnable K L' = runnable K L - {t}" and "same_waits L L'"
proof -
  obtain c p pre post where t: "c \<in> K" "p < 4" "L (RunQ c p) = pre @ t # post" "L' = L(RunQ c p := pre @ post)"
    using assms(1) unfolding pulled_def by blast
  have "t \<in> set (L (RunQ c p))" using t(3) by simp
  then show "t \<in> runnable K L" using t(1,2) unfolding runnable_def by blast
  show "same_waits L L'" using t(4) by (simp add: same_waits_def)
  have "t \<notin> set (L' (RunQ d q))" if "d \<in> K" "q < 4" for d q
  proof (cases "RunQ d q = RunQ c p")
    case True
    then show ?thesis using t layout_distinct [OF lay, of "RunQ c p"] by simp
  next
    case False
    then show ?thesis using apartD [OF layout_apart [OF lay], of "RunQ c p" "RunQ d q" t] t that by auto
  qed
  then have no: "t \<notin> runnable K L'" by (auto simp: runnable_def)
  have eq: "x \<in> set (L (RunQ d q)) \<longleftrightarrow> x \<in> set (L' (RunQ d q))" if "x \<noteq> t" for x d q using t(3,4) that by auto
  have "x \<in> runnable K L' \<longleftrightarrow> x \<in> runnable K L" if "x \<noteq> t" for x unfolding runnable_def using eq [OF that] by blast
  then have "x \<in> runnable K L' \<longleftrightarrow> x \<in> runnable K L - {t}" for x using no by (cases "x = t") auto
  then show "runnable K L' = runnable K L - {t}" by blast
qed

text \<open>The CPU \<open>c\<close> now runs \<open>t\<close>.\<close>

definition switched :: "'a sched_state_scheme \<Rightarrow> 'a sched_state_scheme \<Rightarrow> u64 \<Rightarrow> u64 \<Rightarrow> bool" where
  "switched s s' c t \<longleftrightarrow> sched_state.more s' = sched_state.more s \<and> cpu_table s' = cpu_table s \<and> msrs s' = msrs s \<and> system_uptime_ms s' = system_uptime_ms s \<and>
     (\<forall>d. c_current_task (cpus s' d) = (if d = c then t else c_current_task (cpus s d)) \<and> c_idle_task (cpus s' d) = c_idle_task (cpus s d) \<and>
        c_cpu_id (cpus s' d) = c_cpu_id (cpus s d)) \<and>
     (\<forall>x. t_base_priority (tasks s' x) = t_base_priority (tasks s x) \<and> t_tid (tasks s' x) = t_tid (tasks s x))"

lemma schedule_in_leads:
  assumes st: "settled K s L" "c \<noteq> 0" and t: "t \<noteq> 0"
  shows "\<exists>s'. schedule_in env c t s = Inr (t_rsp (tasks s t), s') \<and> settled K s' L \<and> switched s s' c t \<and> touches s s' {t} \<and>
    t_state (tasks s' t) = TASK_RUNNING \<and> t_priority (tasks s' t) = t_priority (tasks s t)"
proof -
  let ?s1 = "s\<lparr>tasks := (tasks s)(t := (tasks s t)\<lparr>t_state := TASK_RUNNING, t_cpu_id := c_cpu_id (cpus s c)\<rparr>)\<rparr>"
  let ?r = "t_stack_base (tasks s t) + t_stack_size (tasks s t)"
  let ?f = "\<lambda>c. c\<lparr>c_current_task := t, c_tss := (c_tss c)\<lparr>tss_rsp0 := ?r\<rparr>, c_kernel_stack := ?r\<rparr>"
  let ?s2 = "?s1\<lparr>cpus := (cpus ?s1)(c := ?f (cpus ?s1 c))\<rparr>"
  let ?s3 = "if t_cr3 (tasks s t) \<noteq> 0 \<and> t_cr3 (tasks s t) \<noteq> read_cr3 env ?s2 then write_cr3 env (t_cr3 (tasks s t)) ?s2 else ?s2"
  have l1: "leads K s ?s1 L {t}" by (rule upd_task_leads [OF st(1)]) simp_all
  have "settled K ?s2 L"
  proof (rule upd_cpu_leads [OF leads_settled [OF l1]])
    show "anchor ?s2 x = anchor ?s1 x" for x by (cases x) auto
  qed simp_all
  moreover have "settled K (write_cr3 env v u) L = settled K u L" for v and u :: "'a sched_state_scheme"
  proof -
    have a: "anchor (write_cr3 env v u) q = anchor u q" for q by (cases q) (auto simp: write_cr3_def)
    have b: "tasks (write_cr3 env v u) = tasks u" by (simp add: write_cr3_def)
    have "place_ok (write_cr3 env v u) q xs = place_ok u q xs" for q xs using a b by (intro place_ok_cong) auto
    then show ?thesis by (simp add: settled_def layout_def locks_idle_def) (simp add: write_cr3_def)
  qed
  ultimately have "settled K ?s3 L" by simp
  moreover have "schedule_in env c t s = Inr (t_rsp (tasks s t), ?s3)"
    using st(2) t by (simp add: schedule_in_def cpu_at_def upd_task_def upd_cpu_def task_at_def Let_def)
  moreover have "switched s ?s3 c t" "touches s ?s3 {t}" "t_state (tasks ?s3 t) = TASK_RUNNING" "t_priority (tasks ?s3 t) = t_priority (tasks s t)"
    by (simp_all add: switched_def touches_def write_cr3_def)
  ultimately show ?thesis by blast
qed

text \<open>There is no task the CPU \<open>c\<close> could run: its queues are empty and it cannot steal.\<close>

definition no_work :: "u64 \<Rightarrow> 'a sched_state_scheme \<Rightarrow> (place \<Rightarrow> u64 list) \<Rightarrow> bool" where
  "no_work c s L \<longleftrightarrow> (\<forall>p<3. L (RunQ c p) = []) \<and> none_to_steal cpu_ids c s L"

lemma no_work_append:
  assumes "no_work c s (L(RunQ c i := L (RunQ c i) @ [t]))"
  shows "no_work c s L"
  using assms unfolding no_work_def none_to_steal_def by (auto split: if_splits)

lemma no_work_lift:
  assumes "no_work c s (lift_level c 1 (lift_level c 0 L))"
  shows "no_work c s L"
proof -
  have e: "lift_level c 1 (lift_level c 0 L) (RunQ c p) = []" if "p < 3" for p using assms that unfolding no_work_def by blast
  have "L (RunQ c 0) = [] \<and> L (RunQ c 1) = [] \<and> L (RunQ c 2) = []"
    using e [of 0] e [of 1] by (simp add: lift_level_def numeral_2_eq_2)
  then have "L (RunQ c p) = []" if "p < 3" for p using that less_Suc_eq [of p 2] less_2_cases [of p] by auto
  moreover have "lift_level c 1 (lift_level c 0 L) (RunQ d p) = L (RunQ d p)" if "d \<noteq> c" for d p using that by (simp add: lift_level_def)
  ultimately show ?thesis using assms unfolding no_work_def none_to_steal_def by auto
qed

lemma boost_leads:
  fixes s :: "'a sched_state_scheme"
  assumes st: "settled K s L" "c \<in> K" "c \<noteq> 0"
  shows "\<exists>s' L'. (if b then bind_res (prio_boost c s) (upd_cpu c (\<lambda>c. c\<lparr>c_next_priority_boost := v\<rparr>)) else Inr s) = Inr s' \<and>
    leads K s s' L' {} \<and> runnable K L' = runnable K L \<and> same_waits L L' \<and> (\<forall>u. no_work c (u :: 'a sched_state_scheme) L' \<longrightarrow> no_work c u L)"
proof (cases b)
  case False
  then show ?thesis using st by (intro exI [of _ s] exI [of _ L]) (simp add: leads_def same_waits_def)
next
  case True
  let ?L = "lift_level c 1 (lift_level c 0 L)"
  obtain s1 where s1: "prio_boost c s = Inr s1" "leads K s s1 ?L {}" using prio_boost_leads [OF st(1,2)] by blast
  let ?s2 = "s1\<lparr>cpus := (cpus s1)(c := (cpus s1 c)\<lparr>c_next_priority_boost := v\<rparr>)\<rparr>"
  have "settled K ?s2 ?L"
  proof (rule upd_cpu_leads [OF leads_settled [OF s1(2)], of c "\<lambda>c. c\<lparr>c_next_priority_boost := v\<rparr>"])
    show "anchor ?s2 x = anchor s1 x" for x by (cases x) auto
  qed simp_all
  then have "leads K s ?s2 ?L {}" using s1(2) by (simp add: leads_def keeps_def touches_def)
  moreover have "runnable K ?L = runnable K L" using st(2) by (simp add: runnable_lift)
  moreover have "same_waits L ?L" using same_waits_lift same_waits_trans by blast
  ultimately show ?thesis using True s1(1) st(3) no_work_lift [of c _ L] by (intro exI [of _ ?s2] exI [of _ ?L]) (auto simp: upd_cpu_def)
qed

text \<open>
  \<^verbatim>\<open>schedule\<close>: the current task goes back to a queue if it can go on, and a runnable task, or the idle task if the queues are
  empty, is taken from its queue and runs.
\<close>

lemma schedule_leads:
  assumes st: "settled K s L" "on_cpu K env s c" "cpus_known K s"
    and cur: "c_current_task (cpus s c) = cur" "cur \<noteq> 0" "goes_on s cur \<longrightarrow> cur \<notin> listed K L"
    and idle: "c_idle_task (cpus s c) = idl" "idl \<noteq> 0"
    and R: "R = (if goes_on s cur then insert cur (runnable K L) else runnable K L)"
  shows "\<exists>rsp s' nxt L'. schedule env frame s = Inr (rsp, s') \<and> settled K s' L' \<and> switched s s' c nxt \<and> touches s s' {cur, nxt} \<and>
    (nxt = idl \<and> runnable K L' = R \<and> no_work c s L \<or> nxt \<in> R \<and> runnable K L' = R - {nxt}) \<and> same_waits L L' \<and>
    t_state (tasks s' nxt) = TASK_RUNNING \<and>
    (cur \<noteq> nxt \<longrightarrow> t_state (tasks s' cur) = (if goes_on s cur then TASK_READY else t_state (tasks s cur))) \<and>
    (\<forall>x. t_priority (tasks s' x) = (if x = cur \<and> goes_on s cur then t_base_priority (tasks s x) else t_priority (tasks s x)))"
proof -
  have c: "c \<in> K" "get_cpu env s = c" "c \<noteq> 0" "env_ok env" using st(1,2) on_cpu_env [OF st(2)] by (auto simp: on_cpu_def settled_def)
  let ?now = "get_uptime_ms s"
  obtain s1 L1 where b: "(if ?now \<ge> c_next_priority_boost (cpus s c)
      then bind_res (prio_boost c s) (upd_cpu c (\<lambda>c. c\<lparr>c_next_priority_boost := ?now + PRIORITY_BOOST\<rparr>)) else Inr s) = Inr s1"
    "leads K s s1 L1 {}" "runnable K L1 = runnable K L" "same_waits L L1" "no_work c s L1 \<longrightarrow> no_work c s L"
    using boost_leads [OF st(1) c(1,3)] by blast
  have k1: "keeps s s1" "touches s s1 {}" using b(2) by (simp_all add: leads_def)
  have same1: "t_state (tasks s1 x) = t_state (tasks s x)" "t_priority (tasks s1 x) = t_priority (tasks s x)"
    "t_base_priority (tasks s1 x) = t_base_priority (tasks s x)" for x
    using touches_state(1,2) [OF k1(2), of x] k1(1) by (simp_all add: keeps_def)
  have g1: "goes_on s1 cur = goes_on s cur" using same1 by simp
  have "listed K L1 = listed K L" using b(3,4) by (simp add: listed_runnable same_waits_def)
  then have nl: "goes_on s1 cur \<Longrightarrow> cur \<notin> listed K L1" using cur(3) g1 by simp
  let ?i = "level_of (tasks s1 cur)" let ?L2 = "if goes_on s cur then L1(RunQ c ?i := L1 (RunQ c ?i) @ [cur]) else L1"
  obtain s2 where o: "schedule_out env c cur frame s1 = Inr s2" "leads K s1 s2 ?L2 {cur}"
    "t_state (tasks s2 cur) = (if goes_on s cur then TASK_READY else t_state (tasks s cur))"
    "t_priority (tasks s2 cur) = (if goes_on s cur then t_base_priority (tasks s cur) else t_priority (tasks s cur))"
    using schedule_out_leads [OF leads_settled [OF b(2)] c(1,4) cur(2) nl refl, of frame] unfolding same1 by blast
  have l2: "leads K s s2 ?L2 {cur}" using leads_trans [OF b(2) o(2)] by simp
  have R2: "runnable K ?L2 = R" "same_waits L ?L2"
    using R b(3,4) runnable_append [OF c(1) level_of_less, of L1 "tasks s1 cur" cur] by (simp_all add: same_waits_def)
  have k2: "keeps s s2" using l2 by (simp add: leads_def)
  have on2: "on_cpu K env s2 c" "cpus_known K s2" using on_cpu_keeps [OF st(2) k2] st(3) k2 by (simp_all add: cpus_known_def keeps_def)
  have lay2: "layout K s2 ?L2" using leads_settled [OF l2] by (simp add: settled_def)
  obtain nxt s3 L3 where p: "schedule_pick env c s2 = Inr (nxt, s3)" "leads K s2 s3 L3 {}"
    "nxt = c_idle_task (cpus s2 c) \<and> L3 = ?L2 \<and> no_work c s2 ?L2 \<or> pulled K ?L2 nxt L3"
    using schedule_pick_leads [OF leads_settled [OF l2] on2] unfolding no_work_def by blast
  have l3: "leads K s s3 L3 {cur}" using leads_trans [OF l2 p(2)] by simp
  have idle_only: "no_work c s L" if "no_work c s2 ?L2"
  proof -
    have "no_work c s ?L2" using that none_to_steal_keeps [OF k2] unfolding no_work_def by blast
    then have "no_work c s L1" using no_work_append [of c s L1 ?i cur] by (cases "goes_on s cur") auto
    then show ?thesis using b(5) by blast
  qed
  have pick: "(nxt = idl \<and> runnable K L3 = R \<and> no_work c s L \<or> nxt \<in> R \<and> runnable K L3 = R - {nxt}) \<and> same_waits L L3 \<and> nxt \<noteq> 0"
  proof (cases "pulled K ?L2 nxt L3")
    case True
    then show ?thesis
      using pulled_runnable(1,2) [OF True lay2] same_waits_trans [OF R2(2) pulled_runnable(3) [OF True lay2]] pulled_listed(4) [OF True lay2]
      unfolding R2(1) by blast
  next
    case False
    then show ?thesis using p(3) R2 idle k2 idle_only by (simp add: keeps_def)
  qed
  obtain s' where s': "schedule_in env c nxt s3 = Inr (t_rsp (tasks s3 nxt), s')" "settled K s' L3" "switched s3 s' c nxt"
    "touches s3 s' {nxt}" "t_state (tasks s' nxt) = TASK_RUNNING" "t_priority (tasks s' nxt) = t_priority (tasks s3 nxt)"
    using schedule_in_leads [OF leads_settled [OF l3] c(3)] pick by blast
  have "schedule env frame s = Inr (t_rsp (tasks s3 nxt), s')"
    unfolding schedule_def c(2) Let_def using c(3) b(1) o(1) p(1) s'(1) cur(1) by (simp add: cpu_at_def)
  moreover have "switched s s' c nxt" using s'(3) l3 by (simp add: switched_def leads_def keeps_def)
  moreover have "touches s s' {cur, nxt}"
  proof (rule touches_trans [OF _ s'(4)])
    show "touches s s3 {cur}" using l3 by (simp add: leads_def)
  qed simp
  moreover have st3: "t_state (tasks s3 x) = t_state (tasks s2 x)" "t_priority (tasks s3 x) = t_priority (tasks s2 x)" for x
    using p(2) touches_state(1,2) [of s2 s3 "{}" x] by (simp_all add: leads_def)
  moreover have "t_state (tasks s' cur) = (if goes_on s cur then TASK_READY else t_state (tasks s cur))" if "cur \<noteq> nxt"
    using touches_state(1) [OF s'(4), of cur] that st3(1) o(3) by simp
  moreover have "t_priority (tasks s' x) = (if x = cur \<and> goes_on s cur then t_base_priority (tasks s x) else t_priority (tasks s x))" for x
  proof -
    have "t_priority (tasks s' x) = t_priority (tasks s3 x)" using touches_state(2) [OF s'(4), of x] s'(6) by (cases "x = nxt") auto
    then show ?thesis using st3(2) [of x] o(4) touches_state(2) [of s s2 "{cur}" x] l2 by (cases "x = cur") (auto simp: leads_def)
  qed
  ultimately show ?thesis using s'(2,5) pick by blast
qed

end
