(* ===== verification/Kernel_State.thy ===== *)
theory Kernel_State
  imports Sched
begin

text \<open>
  The state of the remaining components: keyboard, interrupt controllers, interrupt table, initial ram disk, file
  system nodes and the count of CPUs, on top of the scheduler's state.
\<close>

record kbd_dev =
  kbd_lock :: spinlock
  is_caps :: bool
  is_break :: bool
  is_shifted :: bool
  is_extended :: bool
  kbd_buffer :: "nat \<Rightarrow> u8"
  kbd_head :: nat
  kbd_tail :: nat

record idt_entry =
  isr_low :: u16
  idt_kernel_cs :: u16
  idt_ist :: u8
  idt_attributes :: u8
  isr_mid :: u16
  isr_high :: u32
  idt_reserved :: u32

record vfs_node =
  n_name :: string
  n_flags :: u32
  n_mask :: u32
  n_uid :: u32
  n_gid :: u32
  n_size :: u64
  n_inode_num :: u64
  n_lock :: mutex
  n_ops :: u64
  n_private_data :: u64
  n_ptr :: u64

record kernel_state = sched_state +
  kbd :: kbd_dev
  i8042_lock :: spinlock
  lapic_base :: u64
  global_ticks_per_ms :: u64
  ioapic_base :: u64
  idt :: "nat \<Rightarrow> idt_entry"
  idtr_base :: u64
  idtr_limit :: u16
  idt_initialized :: bool
  tar_base :: u64
  tar_limit :: u64
  vfs_nodes :: "u64 \<Rightarrow> vfs_node"
  vfs_root :: u64
  cpu_count :: u64

end
