(* ===== verification/Samples.thy ===== *)
theory Samples
  imports Kernel_State Runqueue
begin

text \<open>
  A blank kernel state and a small system on top of it, on which the properties of the later theories are exercised: one CPU
  whose per-CPU data is at \<open>0x1000\<close>.
\<close>

definition blank_kbd :: kbd_dev where
  "blank_kbd = \<lparr>kbd_lock = spinlock_init, is_caps = False, is_break = False, is_shifted = False, is_extended = False,
     kbd_buffer = (\<lambda>_. 0), kbd_head = 0, kbd_tail = 0\<rparr>"

definition blank_kernel :: kernel_state where
  "blank_kernel = \<lparr>bitmap_ptr = 0, bitmap_size = 0, bitmap = [], pmm_last_index = (\<lambda>_. 0), pmm_lock = spinlock_init,
     pt_mem = (\<lambda>_. 0), kernel_pml4 = 0, kernel_pml4_phys = 0, vmm_lock = spinlock_init, msr_pat = 0, msr_efer = 0,
     reg_cr0 = 0, reg_cr4 = 0, hw_log = [],
     kmalloc_caches = (\<lambda>_. \<lparr>obj_size = 0, partial_slabs = 0, full_slabs = 0, empty_slabs = 0, cache_lock = spinlock_init\<rparr>),
     heap_lock = spinlock_init, heap_start = 0,
     dev_in = (\<lambda>_ _. 0), dev_mmio = (\<lambda>_ _. 0), io_trace = [],
     kprint_lock = spinlock_init, log_buffer = (\<lambda>_. CHR 0x00), log_head = 0, log_tail = 0,
     cpus = (\<lambda>_. zero_cpu), cpu_table = (\<lambda>_. 0), msrs = (\<lambda>_ _. 0), cr3s = (\<lambda>_. 0),
     tasks = (\<lambda>_. zero_task), vmas = (\<lambda>_. zero_vma), root_task = 0, dead_task_list = 0, blocked_task_list = 0,
     sched_lock = spinlock_init, dead_lock = spinlock_init, blocked_lock = spinlock_init, system_uptime_ms = 0, next_tid = 10,
     kbd = blank_kbd, i8042_lock = spinlock_init, lapic_base = 0, global_ticks_per_ms = 0, ioapic_base = 0,
     idt = (\<lambda>_. \<lparr>isr_low = 0, idt_kernel_cs = 0, idt_ist = 0, idt_attributes = 0, isr_mid = 0, isr_high = 0, idt_reserved = 0\<rparr>),
     idtr_base = 0, idtr_limit = 0, idt_initialized = False, tar_base = 0, tar_limit = 0,
     vfs_nodes = (\<lambda>_. \<lparr>n_name = [], n_flags = 0, n_mask = 0, n_uid = 0, n_gid = 0, n_size = 0, n_inode_num = 0,
       n_lock = mutex_new, n_ops = 0, n_private_data = 0, n_ptr = 0\<rparr>),
     vfs_root = 0, cpu_count = 1\<rparr>"

definition env0 :: cpu_env where "env0 = \<lparr>g_lock_enabled = True, this_cpu = Some 0\<rparr>"

definition one_cpu :: kernel_state where
  "one_cpu = blank_kernel\<lparr>cpus := (\<lambda>_. zero_cpu)(0x1000 := zero_cpu\<lparr>c_self := 0x1000, c_rq_lock := spinlock_init,
     c_sleep_lock := spinlock_init\<rparr>), cpu_table := (\<lambda>_. 0)(0 := 0x1000), msrs := (\<lambda>_ _. 0)(0 := (\<lambda>_. 0)(MSR_GS_BASE := 0x1000))\<rparr>"

text \<open>Two queued tasks, one at the high and one at the normal level.\<close>

definition two_queued :: kernel_state where
  "two_queued = one_cpu\<lparr>
     cpus := (cpus one_cpu)(0x1000 := (cpus one_cpu 0x1000)\<lparr>
       c_rq_head := (\<lambda>_. 0)(0 := 0x2000, 1 := 0x3000), c_rq_tail := (\<lambda>_. 0)(0 := 0x2000, 1 := 0x3000),
       c_rq_count := (\<lambda>_. 0)(0 := 1, 1 := 1)\<rparr>),
     tasks := (\<lambda>_. zero_task)(0x3000 := zero_task\<lparr>t_base_priority := 1, t_priority := 1\<rparr>)\<rparr>"

definition two_queues :: "nat \<Rightarrow> u64 list" where
  "two_queues = (\<lambda>_. [])(0 := [0x2000], 1 := [0x3000])"

lemma env0_simps [simp]: "g_lock_enabled env0" "this_cpu env0 = Some 0" "env_ok env0" "core_of env0 = 0"
  by (simp_all add: env0_def env_ok_def core_of_def)

lemma lock_idle_init [simp]: "lock_idle spinlock_init"
  by (simp add: lock_idle_def spinlock_init_def)

lemma two_queued_ready: "rq_ready env0 0x1000 two_queued two_queues"
proof -
  have four: "p < 4 \<longleftrightarrow> p = 0 \<or> p = 1 \<or> p = 2 \<or> p = 3" for p :: nat by auto
  show ?thesis
    by (auto simp: rq_ready_def rq_ok_def rq_level_def four two_queues_def two_queued_def one_cpu_def blank_kernel_def
        zero_cpu_def zero_task_def)
qed

end
