(* ===== verification/Sched_Safety.thy ===== *)
theory Sched_Safety
  imports Sched_Switch Serial_Proofs Samples
begin

text \<open>
  The invariant of the scheduler: where each task is, what its state field says, and that the CPUs run different tasks; that
  every operation keeps it; and what it means for the tasks.
\<close>

section \<open>Ending a task\<close>

lemma kprint_puts_only: "for_each kprint_put cs s = Inr s' \<Longrightarrow> log_only s s'"
proof (induction cs arbitrary: s)
  case (Cons c cs)
  then obtain s1 where s1: "kprint_put c s = Inr s1" "for_each kprint_put cs s1 = Inr s'" by auto
  have "log_only s s1" using s1(1) unfolding kprint_put_def
    by (cases "c = newline") (auto dest!: log_only_putc intro: log_only_trans)
  then show ?case using Cons.IH [OF s1(2)] log_only_trans by blast
qed simp

lemma kprintf_frame:
  assumes "kprintf env fmt args s = Inr s'"
  shows "\<exists>l b h t. s' = s\<lparr>kprint_lock := l, log_buffer := b, log_head := h, log_tail := t\<rparr>"
proof -
  obtain cs l s1 where k: "for_each kprint_put cs (s\<lparr>kprint_lock := l\<rparr>) = Inr s1" "s' = s1\<lparr>kprint_lock := spin_unlock env (kprint_lock s1)\<rparr>"
    using assms by (auto simp: kprintf_def kprint_def)
  obtain b h t where "s1 = s\<lparr>kprint_lock := l, log_buffer := b, log_head := h, log_tail := t\<rparr>"
    using kprint_puts_only [OF k(1)] by (auto simp: log_only_def)
  then have "s' = s\<lparr>kprint_lock := spin_unlock env l, log_buffer := b, log_head := h, log_tail := t\<rparr>" using k(2) by simp
  then show ?thesis by blast
qed

lemma exit_leads:
  assumes st: "settled K s L" "on_cpu K env s c" and cur: "c_current_task (cpus s c) = t" "t \<noteq> 0" "t \<notin> listed K L"
    and ex: "task_exit env s = Inr s'"
  shows "leads K s s' (L(DeadQ := t # L DeadQ)) {t} \<and> t_state (tasks s' t) = TASK_ZOMBIE \<and> t_priority (tasks s' t) = t_priority (tasks s t)"
proof -
  have c: "c \<in> K" "get_cpu env s = c" "c \<noteq> 0" and lay: "layout K s L" using st by (auto simp: on_cpu_def settled_def)
  have free: "lock_free env (dead_lock s)" using st by (simp add: settled_def locks_idle_def lock_idle_free)
  let ?s0 = "s\<lparr>dead_lock := spin_locked env (dead_lock s)\<rparr>"
  obtain s1 where s1: "kprintf env zombie_fmt [VaInt (ucast (ucast (t_tid (tasks s t)) :: u32))] ?s0 = Inr s1"
    "s' = s1\<lparr>tasks := (tasks s1)(t := (tasks s1 t)\<lparr>t_state := TASK_ZOMBIE, t_cpu_id := NO_CPU, t_sched_next := dead_task_list s1\<rparr>),
       dead_task_list := t, dead_lock := spin_unlock env (dead_lock s1)\<rparr>"
    using ex cur c free by (auto simp: task_exit_def sched_get_current_def cpu_at_def spin_lock_free upd_task_def Let_def)
  obtain l b h tl where "s1 = ?s0\<lparr>kprint_lock := l, log_buffer := b, log_head := h, log_tail := tl\<rparr>"
    using kprintf_frame [OF s1(1)] by blast
  then have f: "tasks s' = (tasks s)(t := (tasks s t)\<lparr>t_state := TASK_ZOMBIE, t_cpu_id := NO_CPU, t_sched_next := dead_task_list s\<rparr>)"
    "sched_state.more s' = sched_state.more s" "cpus s' = cpus s" "dead_task_list s' = t" "dead_lock s' = spin_unlock env (spin_locked env (dead_lock s))" "blocked_lock s' = blocked_lock s"
    "blocked_task_list s' = blocked_task_list s" "cpu_table s' = cpu_table s" "msrs s' = msrs s" "system_uptime_ms s' = system_uptime_ms s"
    using s1(2) by simp_all
  have ch: "chain (snext s) (dead_task_list s) (L DeadQ)" using layout_place [OF lay, of DeadQ] by simp
  have sn: "snext s' = (snext s)(t := dead_task_list s)" unfolding f(1) by auto
  have "layout K s' (L(DeadQ := t # L DeadQ))"
  proof (rule layout_replace [OF lay, where t = t])
    show "anchor s' q = anchor s q" if "q \<noteq> DeadQ" for q using that f by (cases q) auto
    show "place_ok s' DeadQ (t # L DeadQ)"
      using chain_push [OF ch _ cur(2)] not_listed [OF cur(3), of DeadQ] f(4) unfolding place_ok.simps sn by simp
    show "t \<notin> set (L q)" if "q \<in> places K" for q using not_listed [OF cur(3) that] .
    show "snext s' x = snext s x" if "x \<noteq> t" for x using that by (simp add: f(1))
  qed auto
  then have "settled K s' (L(DeadQ := t # L DeadQ))" using st f by (simp add: settled_def locks_idle_def)
  moreover have "keeps s s'" "touches s s' {t}" using f by (auto simp: keeps_def touches_def)
  ultimately show ?thesis using f(1) unfolding leads_def by simp
qed

section \<open>The invariant\<close>

abbreviation cur_task :: "'a sched_state_scheme \<Rightarrow> u64 \<Rightarrow> u64" where "cur_task s c \<equiv> c_current_task (cpus s c)"
abbreviation idle_of :: "'a sched_state_scheme \<Rightarrow> u64 \<Rightarrow> u64" where "idle_of s c \<equiv> c_idle_task (cpus s c)"

text \<open>The state field says on which kind of list a task is.\<close>

fun state_at :: "place \<Rightarrow> task_state" where
  "state_at (RunQ c p) = TASK_READY"
| "state_at (SleepQ c) = TASK_SLEEPING"
| "state_at BlockQ = TASK_BLOCKED"
| "state_at DeadQ = TASK_ZOMBIE"

definition states_fit :: "u64 set \<Rightarrow> 'a sched_state_scheme \<Rightarrow> (place \<Rightarrow> u64 list) \<Rightarrow> bool" where
  "states_fit K s L \<longleftrightarrow> (\<forall>pl \<in> places K. \<forall>x \<in> set (L pl). t_state (tasks s x) = state_at pl)"

lemma states_fit_alt:
  "states_fit K s L \<longleftrightarrow>
     (\<forall>x \<in> runnable K L. t_state (tasks s x) = TASK_READY) \<and>
     (\<forall>c \<in> K. \<forall>x \<in> set (L (SleepQ c)). t_state (tasks s x) = TASK_SLEEPING) \<and>
     (\<forall>x \<in> set (L BlockQ). t_state (tasks s x) = TASK_BLOCKED) \<and>
     (\<forall>x \<in> set (L DeadQ). t_state (tasks s x) = TASK_ZOMBIE)"
  unfolding states_fit_def places_def runnable_def by (simp add: ball_Un) blast

text \<open>
  Each CPU runs a task of its own that is on no list; the CPUs in \<open>D\<close> are about to give up theirs, which is on a list
  already. The idle tasks are known by their priority.
\<close>

definition cpus_fit :: "u64 set \<Rightarrow> 'a sched_state_scheme \<Rightarrow> (place \<Rightarrow> u64 list) \<Rightarrow> u64 set \<Rightarrow> bool" where
  "cpus_fit K s L D \<longleftrightarrow>
     (\<forall>c \<in> K. cur_task s c \<noteq> 0 \<and> idle_of s c \<noteq> 0 \<and> t_priority (tasks s (idle_of s c)) = PRIO_IDLE \<and> idle_of s c \<notin> listed K L) \<and>
     (\<forall>c \<in> K - D. cur_task s c \<notin> listed K L \<and> t_state (tasks s (cur_task s c)) = TASK_RUNNING) \<and>
     (\<forall>c \<in> D. cur_task s c \<in> listed K L \<and> t_state (tasks s (cur_task s c)) \<noteq> TASK_RUNNING) \<and>
     inj_on (cur_task s) K \<and> inj_on (idle_of s) K \<and> (\<forall>c \<in> K. \<forall>d \<in> K. cur_task s c = idle_of s d \<longrightarrow> c = d)"

text \<open>\<open>P\<close> are the tasks other than the idle tasks.\<close>

definition people :: "u64 set \<Rightarrow> 'a sched_state_scheme \<Rightarrow> (place \<Rightarrow> u64 list) \<Rightarrow> u64 set" where
  "people K s L = (listed K L \<union> cur_task s ` K) - idle_of s ` K"

definition sched_inv :: "u64 set \<Rightarrow> 'a sched_state_scheme \<Rightarrow> (place \<Rightarrow> u64 list) \<Rightarrow> u64 set \<Rightarrow> u64 set \<Rightarrow> bool" where
  "sched_inv K s L P D \<longleftrightarrow> settled K s L \<and> cpus_known K s \<and> states_fit K s L \<and> cpus_fit K s L D \<and> people K s L = P \<and>
     (\<forall>x \<in> P. t_priority (tasks s x) \<noteq> PRIO_IDLE \<and> t_base_priority (tasks s x) \<noteq> PRIO_IDLE)"

lemma sched_invD:
  assumes "sched_inv K s L P D"
  shows "settled K s L" "cpus_known K s" "states_fit K s L" "cpus_fit K s L D" "people K s L = P" "layout K s L"
    "\<And>x. x \<in> P \<Longrightarrow> t_priority (tasks s x) \<noteq> PRIO_IDLE" "\<And>x. x \<in> P \<Longrightarrow> t_base_priority (tasks s x) \<noteq> PRIO_IDLE"
  using assms by (auto simp: sched_inv_def settled_def)

section \<open>The scheduler keeps the invariant\<close>

definition waits :: "u64 set \<Rightarrow> (place \<Rightarrow> u64 list) \<Rightarrow> u64 set" where
  "waits K L = (\<Union>c \<in> K. set (L (SleepQ c))) \<union> set (L BlockQ) \<union> set (L DeadQ)"

lemma listed_waits: "listed K L = runnable K L \<union> waits K L"
  by (auto simp: listed_runnable waits_def)

lemma runnable_waits_apart:
  assumes "layout K s L" and "x \<in> runnable K L"
  shows "x \<notin> waits K L"
proof -
  obtain c p where x: "c \<in> K" "p < 4" "x \<in> set (L (RunQ c p))" using assms(2) by (auto simp: runnable_def)
  note ap = apartD [OF layout_apart [OF assms(1)], of "RunQ c p" _ x]
  show ?thesis using ap [of BlockQ] ap [of DeadQ] ap [of "SleepQ _"] x by (auto simp: waits_def)
qed

lemma same_waits_waits: "same_waits L L' \<Longrightarrow> waits K L' = waits K L"
  by (simp add: same_waits_def waits_def)

text \<open>The parts of the invariant, for one CPU.\<close>

lemma cpus_fitD:
  assumes "cpus_fit K s L D"
  shows "c \<in> K \<Longrightarrow> cur_task s c \<noteq> 0" "c \<in> K \<Longrightarrow> idle_of s c \<noteq> 0" "c \<in> K \<Longrightarrow> t_priority (tasks s (idle_of s c)) = PRIO_IDLE"
    "c \<in> K \<Longrightarrow> idle_of s c \<notin> listed K L" "c \<in> K \<Longrightarrow> c \<notin> D \<Longrightarrow> cur_task s c \<notin> listed K L"
    "c \<in> K \<Longrightarrow> c \<notin> D \<Longrightarrow> t_state (tasks s (cur_task s c)) = TASK_RUNNING" "c \<in> D \<Longrightarrow> cur_task s c \<in> listed K L"
    "c \<in> D \<Longrightarrow> t_state (tasks s (cur_task s c)) \<noteq> TASK_RUNNING" "c \<in> K \<Longrightarrow> d \<in> K \<Longrightarrow> cur_task s c = cur_task s d \<Longrightarrow> c = d"
    "c \<in> K \<Longrightarrow> d \<in> K \<Longrightarrow> idle_of s c = idle_of s d \<Longrightarrow> c = d" "c \<in> K \<Longrightarrow> d \<in> K \<Longrightarrow> cur_task s c = idle_of s d \<Longrightarrow> c = d"
  using assms unfolding cpus_fit_def inj_on_def by blast+

lemma sched_inv_schedule:
  assumes inv: "sched_inv K s L P D" and D: "D \<subseteq> {c}" and on: "on_cpu K env s c"
  shows "\<exists>rsp s' L'. schedule env frame s = Inr (rsp, s') \<and> sched_inv K s' L' P {}"
proof -
  note I = sched_invD [OF inv] note F = cpus_fitD [OF I(4)]
  have c: "c \<in> K" using on by (simp add: on_cpu_def)
  define cur where "cur = cur_task s c"
  define idl where "idl = idle_of s c"
  define G where "G \<longleftrightarrow> goes_on s cur"
  define R where "R = (if G then insert cur (runnable K L) else runnable K L)"
  have GL: "cur \<notin> listed K L" if G using F(5,8) [of c] c that by (auto simp: G_def cur_def)
  have Gi: "cur \<noteq> idle_of s d" if G "d \<in> K" for d using F(3) that by (auto simp: G_def)
  have nz: "cur \<noteq> 0" "idl \<noteq> 0" using F(1,2) [OF c] by (simp_all add: cur_def idl_def)
  have GL': "goes_on s cur \<longrightarrow> cur \<notin> listed K L" and Rd: "R = (if goes_on s cur then insert cur (runnable K L) else runnable K L)"
    using GL by (simp_all add: G_def R_def)
  obtain rsp s' nxt L' where r: "schedule env frame s = Inr (rsp, s')" "settled K s' L'" "switched s s' c nxt" "touches s s' {cur, nxt}"
    "nxt = idl \<and> runnable K L' = R \<and> no_work c s L \<or> nxt \<in> R \<and> runnable K L' = R - {nxt}" "same_waits L L'" "t_state (tasks s' nxt) = TASK_RUNNING"
    "cur \<noteq> nxt \<longrightarrow> t_state (tasks s' cur) = (if G then TASK_READY else t_state (tasks s cur))"
    "\<forall>x. t_priority (tasks s' x) = (if x = cur \<and> G then t_base_priority (tasks s x) else t_priority (tasks s x))"
    using schedule_leads [OF I(1) on I(2) cur_def [symmetric] nz(1) GL' idl_def [symmetric] nz(2) Rd, of frame]
    unfolding G_def [symmetric] by (elim exE conjE) (rule that)
  have wt: "waits K L' = waits K L" using same_waits_waits [OF r(6)] .
  have sw: "cur_task s' d = (if d = c then nxt else cur_task s d)" "idle_of s' d = idle_of s d"
    "t_base_priority (tasks s' x) = t_base_priority (tasks s x)" for d x using r(3) by (simp_all add: switched_def)
  have nxt: "nxt = idl \<or> nxt \<in> runnable K L \<or> G \<and> nxt = cur" using r(5) by (auto simp: R_def split: if_splits)
  have ni: "idl \<notin> listed K L" using F(4) [OF c] by (simp add: idl_def)
  have nw: "nxt \<notin> waits K L"
    using nxt
  proof (elim disjE conjE)
    show "nxt \<notin> waits K L" if "nxt = idl" using that ni by (simp add: listed_waits)
    show "nxt \<notin> waits K L" if "nxt \<in> runnable K L" by (rule runnable_waits_apart [OF I(6) that])
    show "nxt \<notin> waits K L" if G "nxt = cur" using GL that by (simp add: listed_waits)
  qed
  have iR: "idl \<notin> R" using ni Gi [OF _ c] by (auto simp: listed_waits R_def idl_def)
  have nR: "nxt \<notin> runnable K L'" using r(5) iR by auto
  have ls: "listed K L' = runnable K L' \<union> waits K L" by (simp add: listed_waits wt)
  have nl: "nxt \<notin> listed K L'" using nw nR ls by simp
  have run: "x \<in> runnable K L \<or> G \<and> x = cur" if "x \<in> runnable K L'" for x
  proof -
    have "x \<in> R" using that r(5) by auto
    then show ?thesis by (auto simp: R_def split: if_splits)
  qed
  have in_old: "x \<in> listed K L \<or> G \<and> x = cur" if "x \<in> listed K L'" for x
    using that run [of x] wt unfolding listed_waits by blast
  have oth: "cur_task s d \<noteq> nxt" "cur_task s d \<noteq> cur" "d \<notin> D" "cur_task s d \<notin> listed K L" if "d \<in> K" "d \<noteq> c" for d
  proof -
    show dD: "d \<notin> D" using that(2) D by auto
    show nc: "cur_task s d \<noteq> cur" using F(9) [OF that(1) c] that(2) by (auto simp: cur_def)
    show nl: "cur_task s d \<notin> listed K L" using F(5) [OF that(1) dD] .
    show "cur_task s d \<noteq> nxt" using nxt nc nl F(11) [OF that(1) c] that(2) by (auto simp: listed_waits idl_def)
  qed
  have st: "t_state (tasks s' x) = (if x = cur \<and> G then TASK_READY else t_state (tasks s x))" if "x \<noteq> nxt" for x
    using r(8) touches_state(1) [OF r(4), of x] that by (cases "x = cur") auto
  have pr: "t_priority (tasks s' (idle_of s d)) = PRIO_IDLE" if "d \<in> K" for d
    using spec [OF r(9), of "idle_of s d"] Gi [OF _ that] F(3) [OF that] by (auto split: if_splits)
  have "states_fit K s' L'"
    unfolding states_fit_alt
  proof (intro conjI ballI)
    fix x assume x: "x \<in> runnable K L'"
    have "x \<noteq> nxt" using x nR by auto
    then show "t_state (tasks s' x) = TASK_READY" using st [of x] run [OF x] I(3) by (auto simp: states_fit_alt)
  next
    have wst: "t_state (tasks s' x) = t_state (tasks s x)" if "x \<in> waits K L" for x
    proof -
      have "x \<noteq> nxt" "\<not> (x = cur \<and> G)" using nw GL that by (auto simp: listed_waits)
      then show ?thesis using st [of x] by auto
    qed
    show "t_state (tasks s' x) = TASK_SLEEPING" if "d \<in> K" "x \<in> set (L' (SleepQ d))" for d x
      using wst [of x] that r(6) I(3) by (auto simp: waits_def same_waits_def states_fit_alt)
    show "t_state (tasks s' x) = TASK_BLOCKED" if "x \<in> set (L' BlockQ)" for x
      using wst [of x] that r(6) I(3) by (auto simp: waits_def same_waits_def states_fit_alt)
    show "t_state (tasks s' x) = TASK_ZOMBIE" if "x \<in> set (L' DeadQ)" for x
      using wst [of x] that r(6) I(3) by (auto simp: waits_def same_waits_def states_fit_alt)
  qed
  moreover have "cpus_fit K s' L' {}"
    unfolding cpus_fit_def inj_on_def
  proof (intro conjI ballI impI)
    fix d assume d: "d \<in> K"
    show "cur_task s' d \<noteq> 0" using nxt nz F(1) [OF d] layout_notnull [OF I(6)] by (auto simp: sw listed_waits)
    show "idle_of s' d \<noteq> 0" "t_priority (tasks s' (idle_of s' d)) = PRIO_IDLE" using F(2) [OF d] pr [OF d] by (simp_all add: sw)
    show "idle_of s' d \<notin> listed K L'" using in_old [of "idle_of s d"] F(4) [OF d] Gi [OF _ d] by (auto simp: sw)
  next
    fix d assume "d \<in> K - {}"
    then have d: "d \<in> K" by simp
    show "cur_task s' d \<notin> listed K L'" using nl in_old [of "cur_task s d"] oth [OF d] by (auto simp: sw)
    show "t_state (tasks s' (cur_task s' d)) = TASK_RUNNING"
      using r(7) st [of "cur_task s d"] oth [OF d] F(6) [OF d] by (auto simp: sw)
  next
    fix d e assume de: "d \<in> K" "e \<in> K"
    show "d = e" if "cur_task s' d = cur_task s' e"
      using that oth(1) [OF de(1)] oth(1) [OF de(2)] F(9) [OF de] by (auto simp: sw split: if_splits)
    show "d = e" if "idle_of s' d = idle_of s' e" using that F(10) [OF de] by (simp add: sw)
    show "d = e" if "cur_task s' d = idle_of s' e"
    proof (cases "d = c")
      case False
      then show ?thesis using that F(11) [OF de] by (simp add: sw)
    next
      case True
      then have "nxt = idle_of s e" using that by (simp add: sw)
      then have "nxt = idl" using nxt F(4) [OF de(2)] Gi [OF _ de(2)] by (auto simp: listed_waits)
      then show ?thesis using \<open>nxt = idle_of s e\<close> True F(10) [OF c de(2)] by (simp add: idl_def)
    qed
  qed simp_all
  moreover have "people K s' L' = P"
  proof -
    have in1: "idl \<in> idle_of s ` K" using c by (simp add: idl_def)
    have c': "cur_task s' ` K = insert nxt (cur_task s ` (K - {c}))" using c by (auto simp: sw)
    have cu: "cur_task s ` K = insert cur (cur_task s ` (K - {c}))" using c by (auto simp: cur_def)
    have lR: "insert nxt (listed K L') - idle_of s ` K = (R \<union> waits K L) - idle_of s ` K"
      using r(5) in1 unfolding ls by auto
    have "cur \<in> listed K L \<union> idle_of s ` K" if "\<not> G"
    proof (rule ccontr)
      assume n: "cur \<notin> listed K L \<union> idle_of s ` K"
      then have "c \<notin> D" using F(7) [of c] by (auto simp: cur_def)
      then have "t_state (tasks s cur) = TASK_RUNNING" using F(6) [OF c] by (simp add: cur_def)
      moreover have "cur \<in> P" using n c I(5) by (auto simp: people_def cur_def)
      ultimately show False using that I(7) by (simp add: G_def)
    qed
    then have "(R \<union> waits K L) - idle_of s ` K = insert cur (listed K L) - idle_of s ` K"
      by (cases G) (auto simp: R_def listed_waits)
    then have "people K s' L' = people K s L" using lR unfolding people_def sw(2) c' cu by blast
    then show ?thesis using I(5) by simp
  qed
  moreover have "t_priority (tasks s' x) \<noteq> PRIO_IDLE \<and> t_base_priority (tasks s' x) \<noteq> PRIO_IDLE" if "x \<in> P" for x
    using r(9) sw(3) I(7,8) [OF that] by auto
  moreover have "cpus_known K s'" using I(2) r(3) by (simp add: cpus_known_def switched_def)
  ultimately show ?thesis using r(1,2) unfolding sched_inv_def by blast
qed

section \<open>The other operations keep the invariant\<close>

text \<open>The current task of a CPU joins a list of waiting tasks.\<close>

lemma sched_inv_wait:
  assumes inv: "sched_inv K s L P {}" and c: "c \<in> K" "cur_task s c = t" "t \<noteq> idle_of s c"
    and ld: "leads K s s' (L(pl := xs)) {t}" and pl: "pl \<in> places K" "state_at pl \<noteq> TASK_READY" "set xs = insert t (set (L pl))"
    and t: "t_state (tasks s' t) = state_at pl" "t_priority (tasks s' t) = t_priority (tasks s t)"
  shows "sched_inv K s' (L(pl := xs)) P {c}"
proof -
  note I = sched_invD [OF inv] note F = cpus_fitD [OF I(4)]
  have k: "keeps s s'" "touches s s' {t}" using ld by (simp_all add: leads_def)
  have sw: "cur_task s' d = cur_task s d" "idle_of s' d = idle_of s d" "t_base_priority (tasks s' x) = t_base_priority (tasks s x)" for d x
    using k(1) by (simp_all add: keeps_def)
  have ls: "listed K (L(pl := xs)) = insert t (listed K L)" by (rule listed_new) (rule pl(1,3))+
  have tl: "t \<notin> listed K L" using F(5) [OF c(1)] c(2) by simp
  have ti: "idle_of s d \<noteq> t" if "d \<in> K" for d using F(11) [OF c(1) that] c(2,3) by auto
  have tc: "cur_task s d \<noteq> t" if "d \<in> K" "d \<noteq> c" for d using F(9) [OF that(1) c(1)] that(2) c(2) by auto
  have pr: "t_priority (tasks s' x) = t_priority (tasks s x)" for x using touches_state(2) [OF k(2), of x] t(2) by (cases "x = t") auto
  have nr: "state_at pl \<noteq> TASK_RUNNING" by (cases pl) auto
  have "states_fit K s' (L(pl := xs))"
    unfolding states_fit_def
  proof (intro ballI)
    fix q x assume q: "q \<in> places K" "x \<in> set ((L(pl := xs)) q)"
    show "t_state (tasks s' x) = state_at q"
    proof (cases "x = t")
      case False
      then have "x \<in> set (L q)" using q(2) pl(3) by (auto split: if_splits)
      then show ?thesis using touches_state(1) [OF k(2), of x] False I(3) q(1) by (auto simp: states_fit_def)
    next
      case True
      then have "q = pl" using q not_listed [OF tl q(1)] by (auto split: if_splits)
      then show ?thesis using t(1) True by simp
    qed
  qed
  moreover have "cpus_fit K s' (L(pl := xs)) {c}"
    unfolding cpus_fit_def inj_on_def sw pr ls
  proof (intro conjI ballI impI)
    fix d assume "d \<in> K - {c}"
    then have d: "d \<in> K" "d \<noteq> c" by auto
    show "cur_task s d \<notin> insert t (listed K L)" using F(5) [OF d(1)] tc [OF d] by simp
    show "t_state (tasks s' (cur_task s d)) = TASK_RUNNING" using touches_state(1) [OF k(2)] tc [OF d] F(6) [OF d(1)] by simp
  qed (use F c ti t nr in auto)
  moreover have "people K s' (L(pl := xs)) = P" using I(5) c unfolding people_def sw ls by auto
  moreover have "cpus_known K s'" using I(2) k(1) by (simp add: cpus_known_def keeps_def)
  ultimately show ?thesis using I(7,8) pr sw(3) ld unfolding sched_inv_def leads_def by metis
qed

text \<open>Tasks other than the current ones change lists, or new ones, \<open>A\<close>, come to be.\<close>

lemma states_fit_running: "states_fit K s L \<Longrightarrow> x \<in> listed K L \<Longrightarrow> t_state (tasks s x) \<noteq> TASK_RUNNING"
proof -
  assume "states_fit K s L" "x \<in> listed K L"
  then obtain pl where "t_state (tasks s x) = state_at pl" by (auto simp: states_fit_def listed_def)
  then show ?thesis by (cases pl) auto
qed

lemma sched_inv_move:
  assumes inv: "sched_inv K s L P D" and ld: "leads K s s' L' T" and fit: "states_fit K s' L'"
    and ls: "listed K L' = listed K L \<union> A" "A \<inter> (cur_task s ` K \<union> idle_of s ` K) = {}" "T \<subseteq> listed K L'"
    and pr: "\<And>x. x \<in> T \<Longrightarrow> t_priority (tasks s' x) = t_base_priority (tasks s x)"
    and A: "\<And>x. x \<in> A \<Longrightarrow> t_base_priority (tasks s x) \<noteq> PRIO_IDLE" "A \<subseteq> T"
  shows "sched_inv K s' L' (P \<union> A) D"
proof -
  note I = sched_invD [OF inv] note F = cpus_fitD [OF I(4)]
  have k: "keeps s s'" "touches s s' T" using ld by (simp_all add: leads_def)
  have sw: "cur_task s' d = cur_task s d" "idle_of s' d = idle_of s d" "t_base_priority (tasks s' x) = t_base_priority (tasks s x)" for d x
    using k(1) by (simp_all add: keeps_def)
  have cl: "cur_task s d \<notin> listed K L'" if "d \<in> K" "d \<notin> D" for d using ls F(5) [OF that] that by auto
  then have ct: "cur_task s d \<notin> T" if "d \<in> K" "d \<notin> D" for d using ls(3) that by blast
  have il: "idle_of s d \<notin> listed K L'" if "d \<in> K" for d using ls F(4) [OF that] that by auto
  then have it: "idle_of s d \<notin> T" if "d \<in> K" for d using ls(3) that by blast
  have "cpus_fit K s' L' D"
    unfolding cpus_fit_def inj_on_def sw
  proof (intro conjI ballI impI)
    fix d assume d: "d \<in> K"
    show "t_priority (tasks s' (idle_of s d)) = PRIO_IDLE" using touches_state(2) [OF k(2) it [OF d]] F(3) [OF d] by simp
  next
    fix d assume d: "d \<in> K - D"
    show "t_state (tasks s' (cur_task s d)) = TASK_RUNNING" using touches_state(1) [OF k(2) ct, of d] F(6) [of d] d by simp
  next
    fix d assume d: "d \<in> D"
    then show l: "cur_task s d \<in> listed K L'" using F(7) ls(1) by simp
    show "t_state (tasks s' (cur_task s d)) \<noteq> TASK_RUNNING" by (rule states_fit_running [OF fit l])
  qed (use F cl il in auto)
  moreover have "people K s' L' = P \<union> A" using I(5) ls(1,2) unfolding people_def sw by auto
  moreover have "cpus_known K s'" using I(2) k(1) by (simp add: cpus_known_def keeps_def)
  moreover have "t_priority (tasks s' x) \<noteq> PRIO_IDLE \<and> t_base_priority (tasks s' x) \<noteq> PRIO_IDLE" if x: "x \<in> P \<union> A" for x
  proof -
    have b: "t_base_priority (tasks s x) \<noteq> PRIO_IDLE" using x I(8) A(1) by auto
    show ?thesis
    proof (cases "x \<in> T")
      case True
      then show ?thesis using pr b sw by simp
    next
      case False
      then have "x \<in> P" using x A(2) by auto
      then show ?thesis using touches_state(2) [OF k(2) False] b I(7) sw by simp
    qed
  qed
  ultimately show ?thesis using fit ld unfolding sched_inv_def leads_def by blast
qed

lemma sched_inv_wake:
  assumes inv: "sched_inv K s L P D" and pl: "pl \<in> places K" "set (L pl) = set zs \<union> set ys" "set zs \<inter> set ys = {}"
    and tg: "\<And>x. x \<in> set zs \<Longrightarrow> tgt x \<in> K" "\<And>x. lvl x < 4"
    and ld: "leads K s s' (deliver tgt lvl zs (L(pl := ys))) (set zs)"
    and zs: "\<And>x. x \<in> set zs \<Longrightarrow> t_state (tasks s' x) = TASK_READY \<and> t_priority (tasks s' x) = t_base_priority (tasks s x)"
  shows "sched_inv K s' (deliver tgt lvl zs (L(pl := ys))) P D"
proof -
  note I = sched_invD [OF inv]
  let ?L = "deliver tgt lvl zs (L(pl := ys))"
  have "listed K (L(pl := ys)) = listed K L - (set (L pl) - set ys)"
    using listed_shrink [OF layout_apart [OF I(6)] pl(1), of ys] pl(2) by simp
  moreover have "set zs \<subseteq> listed K L" using listedI [OF pl(1), of _ L] pl(2) by auto
  ultimately have ls: "listed K ?L = listed K L" using listed_deliver [of zs tgt K lvl "L(pl := ys)", OF tg] pl(2,3) by auto
  have "states_fit K s' ?L"
    unfolding states_fit_def
  proof (intro ballI)
    fix q x assume q: "q \<in> places K" "x \<in> set (?L q)"
    show "t_state (tasks s' x) = state_at q"
    proof (cases "x \<in> set zs")
      case True
      then have xp: "x \<in> set (L pl)" "x \<notin> set ys" using pl(2,3) by auto
      have "\<exists>c p. q = RunQ c p"
      proof (rule ccontr)
        assume n: "\<nexists>c p. q = RunQ c p"
        then have "x \<in> set ((L(pl := ys)) q)" using q(2) by (cases q) (auto simp: deliver_def)
        then show False using xp apartD [OF layout_apart [OF I(6)] pl(1) q(1) _ xp(1)] by (auto split: if_splits)
      qed
      then show ?thesis using zs [OF True] by auto
    next
      case False
      then have "x \<in> set ((L(pl := ys)) q)" using q(2) by (cases q) (auto simp: deliver_def)
      then have "x \<in> set (L q)" using pl(2) by (auto split: if_splits)
      moreover have "touches s s' (set zs)" using ld by (simp add: leads_def)
      ultimately show ?thesis using touches_state(1) [of s s' "set zs" x] False I(3) q(1) by (auto simp: states_fit_def)
    qed
  qed
  then have "sched_inv K s' ?L (P \<union> {}) D"
    using ls zs listedI [OF pl(1), of _ L] pl(2) by (intro sched_inv_move [OF inv ld]) auto
  then show ?thesis by simp
qed

lemma sched_inv_sleepers:
  assumes inv: "sched_inv K s L P D" and on: "on_cpu K env s c"
  shows "\<exists>s' L'. sched_update_sleepers env s = Inr s' \<and> sched_inv K s' L' P D \<and> keeps s s'"
proof -
  note I = sched_invD [OF inv]
  let ?now = "system_uptime_ms s" let ?xs = "L (SleepQ c)" let ?zs = "rev (takeWhile (expired s ?now) ?xs)"
  have pl: "SleepQ c \<in> places K" and c: "c \<in> K" using on by (simp_all add: on_cpu_def)
  obtain s' where s': "sched_update_sleepers env s = Inr s'"
    "leads K s s' (deliver (\<lambda>_. c) (\<lambda>x. level_of (tasks s x)) ?zs (L(SleepQ c := dropWhile (expired s ?now) ?xs))) (set (takeWhile (expired s ?now) ?xs))"
    "\<forall>x \<in> set (takeWhile (expired s ?now) ?xs). t_state (tasks s' x) = TASK_READY \<and> t_priority (tasks s' x) = t_base_priority (tasks s x)"
    using update_sleepers_leads [OF I(1) on refl refl] by blast
  have d: "distinct (takeWhile (expired s ?now) ?xs @ dropWhile (expired s ?now) ?xs)" using layout_distinct [OF I(6) pl] by simp
  then have dj: "set ?zs \<inter> set (dropWhile (expired s ?now) ?xs) = {}" unfolding distinct_append set_rev by blast
  have "set ?xs = set (takeWhile (expired s ?now) ?xs @ dropWhile (expired s ?now) ?xs)" by simp
  then have "set ?xs = set ?zs \<union> set (dropWhile (expired s ?now) ?xs)" unfolding set_append set_rev .
  then have "sched_inv K s' (deliver (\<lambda>_. c) (\<lambda>x. level_of (tasks s x)) ?zs (L(SleepQ c := dropWhile (expired s ?now) ?xs))) P D"
    using s'(2,3) c level_of_less by (intro sched_inv_wake [OF inv pl _ dj]) auto
  then show ?thesis using s'(1,2) unfolding leads_def by blast
qed

lemma sched_inv_wakeup:
  assumes inv: "sched_inv K s L P {}" and on: "on_cpu K env s c"
  shows "\<exists>s' L'. sched_wakeup env reason s = Inr s' \<and> sched_inv K s' L' P {}"
proof -
  note I = sched_invD [OF inv]
  let ?W = "filter (awaits s reason) (L BlockQ)" let ?ys = "filter (\<lambda>x. \<not> awaits s reason x) (L BlockQ)"
  obtain s' where s': "sched_wakeup env reason s = Inr s'"
    "leads K s s' (deliver (wake_cpu env s) (\<lambda>x. level_of (tasks s x)) (rev ?W) (L(BlockQ := ?ys))) (set ?W)"
    "\<forall>x \<in> set ?W. t_state (tasks s' x) = TASK_READY \<and> t_priority (tasks s' x) = t_base_priority (tasks s x)"
    using wakeup_leads [OF I(1) on I(2) refl, of reason] by blast
  have "wake_cpu env s x \<in> K" for x unfolding wake_cpu_def by (rule wakeup_target_K [OF I(2) on])
  then have "sched_inv K s' (deliver (wake_cpu env s) (\<lambda>x. level_of (tasks s x)) (rev ?W) (L(BlockQ := ?ys))) P {}"
    using s'(2,3) level_of_less by (intro sched_inv_wake [OF inv]) auto
  then show ?thesis using s'(1) by blast
qed

lemma sched_inv_sleep:
  assumes inv: "sched_inv K s L P {}" and on: "on_cpu K env s c" and busy: "cur_task s c \<noteq> idle_of s c"
  shows "\<exists>s' L'. sched_make_task_sleep env ms s = Inr s' \<and> sched_inv K s' L' P {c} \<and> keeps s s'"
proof -
  note I = sched_invD [OF inv] note F = cpus_fitD [OF I(4)]
  let ?u = "system_uptime_ms s + ms" let ?xs = "due s ?u (L (SleepQ c)) @ cur_task s c # later s ?u (L (SleepQ c))"
  have c: "c \<in> K" using on by (simp add: on_cpu_def)
  obtain s' where s': "sched_make_task_sleep env ms s = Inr s'" "leads K s s' (L(SleepQ c := ?xs)) {cur_task s c}"
    "t_state (tasks s' (cur_task s c)) = TASK_SLEEPING" "t_priority (tasks s' (cur_task s c)) = t_priority (tasks s (cur_task s c))"
    using make_sleep_leads [OF I(1) on refl F(1) [OF c] F(5) [OF c] refl] by auto
  have "set ?xs = insert (cur_task s c) (set (L (SleepQ c)))" using set_due_later [of s ?u "L (SleepQ c)"] by auto
  then have "sched_inv K s' (L(SleepQ c := ?xs)) P {c}" using c s' busy by (intro sched_inv_wait [OF inv c refl]) simp_all
  then show ?thesis using s'(1,2) unfolding leads_def by blast
qed

lemma sched_inv_block:
  assumes inv: "sched_inv K s L P {}" and on: "on_cpu K env s c" and busy: "cur_task s c \<noteq> idle_of s c"
  shows "\<exists>s' L'. sched_block_current env reason s = Inr s' \<and> sched_inv K s' L' P {c} \<and> keeps s s'"
proof -
  note I = sched_invD [OF inv] note F = cpus_fitD [OF I(4)]
  have c: "c \<in> K" using on by (simp add: on_cpu_def)
  obtain s' where s': "sched_block_current env reason s = Inr s'" "leads K s s' (L(BlockQ := cur_task s c # L BlockQ)) {cur_task s c}"
    "t_state (tasks s' (cur_task s c)) = TASK_BLOCKED" "t_priority (tasks s' (cur_task s c)) = t_priority (tasks s (cur_task s c))"
    using block_leads [OF I(1) on refl F(1) [OF c] F(5) [OF c], of reason] by auto
  then have "sched_inv K s' (L(BlockQ := cur_task s c # L BlockQ)) P {c}" using c busy by (intro sched_inv_wait [OF inv c refl]) simp_all
  then show ?thesis using s'(1,2) unfolding leads_def by blast
qed

lemma sched_inv_exit:
  assumes inv: "sched_inv K s L P {}" and on: "on_cpu K env s c" and busy: "cur_task s c \<noteq> idle_of s c"
    and ex: "task_exit env s = Inr s'"
  shows "\<exists>L'. sched_inv K s' L' P {c} \<and> keeps s s'"
proof -
  note I = sched_invD [OF inv] note F = cpus_fitD [OF I(4)]
  have c: "c \<in> K" using on by (simp add: on_cpu_def)
  have s': "leads K s s' (L(DeadQ := cur_task s c # L DeadQ)) {cur_task s c}"
    "t_state (tasks s' (cur_task s c)) = TASK_ZOMBIE" "t_priority (tasks s' (cur_task s c)) = t_priority (tasks s (cur_task s c))"
    using exit_leads [OF I(1) on refl F(1) [OF c] F(5) [OF c] ex] by auto
  then have "sched_inv K s' (L(DeadQ := cur_task s c # L DeadQ)) P {c}" using c busy by (intro sched_inv_wait [OF inv c refl]) simp_all
  then show ?thesis using s'(1) unfolding leads_def by blast
qed

lemma sched_inv_spawn:
  assumes inv: "sched_inv K s L P {}" and on: "on_cpu K env s c"
    and t: "t \<noteq> 0" "t \<notin> P" "t \<notin> idle_of s ` K" "t_state (tasks s t) = TASK_READY" "t_base_priority (tasks s t) \<noteq> PRIO_IDLE"
  shows "\<exists>s' L'. enqueue_task env c t s = Inr s' \<and> sched_inv K s' L' (insert t P) {}"
proof -
  note I = sched_invD [OF inv]
  have c: "c \<in> K" using on by (simp add: on_cpu_def)
  have tl: "t \<notin> listed K L" "t \<notin> cur_task s ` K" using t(2,3) I(5) by (auto simp: people_def)
  let ?i = "level_of (tasks s t)" let ?L = "L(RunQ c ?i := L (RunQ c ?i) @ [t])"
  obtain s' where s': "enqueue_task env c t s = Inr s'" "leads K s s' ?L {t}" "t_state (tasks s' t) = t_state (tasks s t)"
    "t_priority (tasks s' t) = t_base_priority (tasks s t)"
    using enqueue_leads [OF I(1) c on_cpu_env [OF on] tl(1) t(1) refl] by blast
  have pl: "RunQ c ?i \<in> places K" using c level_of_less by simp
  have ls: "listed K ?L = listed K L \<union> {t}" using listed_new [OF pl, of "L (RunQ c ?i) @ [t]" t L] by simp
  have "states_fit K s' ?L"
    unfolding states_fit_def
  proof (intro ballI)
    fix q x assume q: "q \<in> places K" "x \<in> set (?L q)"
    show "t_state (tasks s' x) = state_at q"
    proof (cases "x = t")
      case True
      then have "q = RunQ c ?i" using q not_listed [OF tl(1) q(1)] by (auto split: if_splits)
      then show ?thesis using True s'(3) t(4) by simp
    next
      case False
      then have "x \<in> set (L q)" using q(2) by (auto split: if_splits)
      then show ?thesis using touches_state(1) [of s s' "{t}" x] False s'(2) I(3) q(1) by (auto simp: leads_def states_fit_def)
    qed
  qed
  then have "sched_inv K s' ?L (P \<union> {t}) {}"
    using ls s'(4) t tl by (intro sched_inv_move [OF inv s'(2)]) auto
  then show ?thesis using s'(1) by auto
qed

end
