(* ===== verification/Sched_Proofs.thy ===== *)
theory Sched_Proofs
  imports Samples
begin

text \<open>
  Properties of the scheduler: what the run queues, the sleeping list, the blocked list and the mutexes guarantee.
\<close>

section \<open>Run queues\<close>

text \<open>
  C24. The run queues of a CPU lose no task, serve none twice and are fair within a level: asked for a task as often as tasks
  wait in the three levels it looks at, \<^verbatim>\<open>dequeue_task\<close> returns each of them exactly once, those of one level in the
  order in which \<^verbatim>\<open>enqueue_task\<close> put them there, and leaves the levels empty.
\<close>

theorem dequeue_serves_all:
  assumes "rq_ready env cpu s Q"
  shows "\<exists>ts s'. serve (dequeue_task env cpu) (waiting Q) s = Inr (ts, s') \<and> mset ts = (\<Sum>p<3. mset (Q p)) \<and>
    (\<forall>p<3. filter (\<lambda>t. t \<in> set (Q p)) ts = Q p) \<and> (\<exists>Q'. rq_ready env cpu s' Q' \<and> (\<forall>p<3. Q' p = []))"
  using rq.serve_all [OF assms refl] .

lemma lessThan_3: "{..<3 :: nat} = {0, 1, 2}"
  by auto

theorem dequeue_serves_all_witness:
  "\<exists>ts s'. serve (dequeue_task env0 0x1000) 2 two_queued = Inr (ts, s') \<and> mset ts = {#0x2000, 0x3000#}"
proof -
  have "waiting two_queues = 2" by (simp add: waiting_def lessThan_3 two_queues_def)
  moreover have "(\<Sum>p<3. mset (two_queues p)) = {#0x2000, 0x3000#}" by (simp add: lessThan_3 two_queues_def)
  ultimately show ?thesis using dequeue_serves_all [OF two_queued_ready] by auto
qed

text \<open>A task that is picked and, its time over, put back.\<close>

definition turn :: "cpu_env \<Rightarrow> u64 \<Rightarrow> 'a sched_state_scheme \<Rightarrow> (u64 \<times> 'a sched_state_scheme) res" where
  "turn env cpu s =
     bind_res (dequeue_task env cpu s) (\<lambda>(t, s1). bind_res (enqueue_task env cpu t s1) (\<lambda>s2. Inr (t, s2)))"

text \<open>The quantum of the high level is not used up and only high tasks are queued there.\<close>

definition high_fresh :: "cpu_env \<Rightarrow> u64 \<Rightarrow> 'a sched_state_scheme \<Rightarrow> (nat \<Rightarrow> u64 list) \<Rightarrow> bool" where
  "high_fresh env cpu s Q \<longleftrightarrow> rq_ready env cpu s Q \<and> Q 0 \<noteq> [] \<and> (\<forall>t \<in> set (Q 0). t_base_priority (tasks s t) = PRIO_HIGH) \<and>
     c_current_quanta (cpus s cpu) 0 < 10"

lemma enq_tasks_base: "t_base_priority (enq_tasks c task ts x) = t_base_priority (ts x)"
  by (simp add: enq_tasks_def Let_def enq_task_def)

lemma turn_high:
  assumes "high_fresh env cpu s Q"
  shows "\<exists>t s' Q'. turn env cpu s = Inr (t, s') \<and> t \<in> set (Q 0) \<and> high_fresh env cpu s' Q' \<and> set (Q' 0) = set (Q 0)"
proof -
  have rdy: "rq_ready env cpu s Q" and ne: "Q 0 \<noteq> []" and q: "\<not> 10 \<le> c_current_quanta (cpus s cpu) 0"
    and hi: "\<forall>t \<in> set (Q 0). t_base_priority (tasks s t) = PRIO_HIGH" and cpu: "cpu \<noteq> 0"
    using assms by (auto simp: high_fresh_def rq_ready_def)
  obtain t s1 c1 where deq: "dequeue_task env cpu s = Inr (t, s1)" "s1 = s\<lparr>cpus := (cpus s)(cpu := c1)\<rparr>"
    and res: "(\<forall>p<3. Q p = []) \<and> t = 0 \<and> rq_ready env cpu s1 Q \<or>
     (\<exists>p<3. \<exists>ts. Q p = t # ts \<and> rq_ready env cpu s1 (Q(p := ts)) \<and>
        (\<forall>r<p. Q r \<noteq> [] \<longrightarrow> priority_quanta ! r \<le> c_current_quanta (cpus s cpu) r))"
    using dequeue_task_spec [OF rdy] by blast
  obtain p ts where p: "p < 3" "Q p = t # ts" "rq_ready env cpu s1 (Q(p := ts))"
    "\<forall>r<p. Q r \<noteq> [] \<longrightarrow> priority_quanta ! r \<le> c_current_quanta (cpus s cpu) r"
    using res ne zero_less_numeral [of num.One] by fastforce
  have "p = 0" using spec [OF p(4), of 0] ne q by (cases p) (simp_all add: priority_quanta_def)
  then have Q0: "Q 0 = t # ts" and r1: "rq_ready env cpu s1 (Q(0 := ts))" using p by simp_all
  have lv: "rq_level s cpu 0 (Q 0)" using rdy by (simp add: rq_ready_def rq_ok_def)
  have "set (Q 0) \<inter> set (Q r) = {}" if "r < 4" "r \<noteq> 0" for r using rdy that by (simp add: rq_ready_def rq_ok_def)
  then have "t \<notin> set (Q r)" if "r < 4" "r \<noteq> 0" for r using that Q0 by fastforce
  then have new: "t \<notin> queued (Q(0 := ts))" "t \<noteq> 0"
    using rq_level_distinct [OF lv] rq_level_notnull [OF lv] Q0 by (auto simp: queued_def)
  have lvl: "level_of (tasks s1 t) = 0" using hi Q0 deq(2) by (simp add: level_of_def prio_index_def)
  obtain s2 where enq: "enqueue_task env cpu t s1 = Inr s2" "rq_ready env cpu s2 (Q(0 := ts @ [t]))"
    and s2: "s2 = s1\<lparr>tasks := enq_tasks (cpus s1 cpu) t (tasks s1), cpus := (cpus s1)(cpu := rq_cycle env (enq_cpu t 0 (cpus s1 cpu)))\<rparr>"
    using enqueue_task_spec [OF r1 new] lvl by (auto simp del: One_nat_def)
  have "high_fresh env cpu s2 (Q(0 := ts @ [t]))"
    using enq(2) hi Q0 deq(2) s2 by (auto simp: high_fresh_def enq_cpu_def enq_tasks_base)
  moreover have "turn env cpu s = Inr (t, s2)" using deq(1) enq(1) by (simp add: turn_def)
  ultimately show ?thesis using Q0 by (intro exI [of _ t] exI [of _ s2] exI [of _ "Q(0 := ts @ [t])"]) auto
qed


lemma turns_high:
  "high_fresh env cpu s Q \<Longrightarrow>
     \<exists>ts s'. serve (turn env cpu) n s = Inr (ts, s') \<and> length ts = n \<and> set ts \<subseteq> set (Q 0)"
proof (induction n arbitrary: s Q)
  case (Suc n)
  obtain t s1 Q1 where t: "turn env cpu s = Inr (t, s1)" "t \<in> set (Q 0)" "high_fresh env cpu s1 Q1" "set (Q1 0) = set (Q 0)"
    using turn_high [OF Suc.prems] by blast
  from Suc.IH [OF t(3)] obtain ts s2 where "serve (turn env cpu) n s1 = Inr (ts, s2)" "length ts = n" "set ts \<subseteq> set (Q 0)"
    using t(4) by auto
  with t show ?case by auto
qed simp



end
