(* ===== verification/Apic.thy ===== *)
theory Apic
  imports Kernel_State
begin

text \<open>
  Interrupt controllers and the timer hardware: \<^verbatim>\<open>kernel/arch/x86_64/drivers/pit.c\<close>,
  \<^verbatim>\<open>kernel/cpu/apic/apic.c\<close>, \<^verbatim>\<open>kernel/cpu/apic/ioapic.c\<close>, and \<^verbatim>\<open>kernel/arch/x86_64/panic.c\<close>. Registers are
  accessed through the port and memory-mapped I/O of \<^verbatim>\<open>Ports\<close>.
\<close>

section \<open>PIT\<close>

abbreviation PIT_CHANNEL0_PORT :: u16 where "PIT_CHANNEL0_PORT \<equiv> 0x40"
abbreviation PIT_COMMAND_PORT :: u16 where "PIT_COMMAND_PORT \<equiv> 0x43"

definition pit_prepare_sleep :: "u16 \<Rightarrow> 'a io_state_scheme \<Rightarrow> 'a io_state_scheme" where
  "pit_prepare_sleep ticks s =
     outb PIT_CHANNEL0_PORT (ucast (drop_bit 8 ticks AND 0xFF))
       (outb PIT_CHANNEL0_PORT (ucast (ticks AND 0xFF)) (outb PIT_COMMAND_PORT 0x30 s))"

partial_function (option) pit_wait :: "'a io_state_scheme \<Rightarrow> 'a io_state_scheme option" where
  "pit_wait s =
     (let (status, s1) = inb PIT_CHANNEL0_PORT (outb PIT_COMMAND_PORT 0xE2 s)
      in if status AND 0x80 \<noteq> 0 then Some s1 else pit_wait s1)"

definition pit_wait_calibration :: "'a io_state_scheme \<Rightarrow> 'a io_state_scheme res" where
  "pit_wait_calibration s = (case pit_wait s of None \<Rightarrow> Inl Diverges | Some s1 \<Rightarrow> Inr s1)"

section \<open>Local APIC\<close>

abbreviation LAPIC_ID :: u32 where "LAPIC_ID \<equiv> 0x0020"
abbreviation LAPIC_TPR :: u32 where "LAPIC_TPR \<equiv> 0x0080"
abbreviation LAPIC_EOI :: u32 where "LAPIC_EOI \<equiv> 0x00B0"
abbreviation LAPIC_SVR :: u32 where "LAPIC_SVR \<equiv> 0x00F0"
abbreviation LAPIC_ESR :: u32 where "LAPIC_ESR \<equiv> 0x0280"
abbreviation LAPIC_ICR_LOW :: u32 where "LAPIC_ICR_LOW \<equiv> 0x0300"
abbreviation LAPIC_ICR_HIGH :: u32 where "LAPIC_ICR_HIGH \<equiv> 0x0310"
abbreviation LAPIC_LVT_TIMER :: u32 where "LAPIC_LVT_TIMER \<equiv> 0x0320"
abbreviation LAPIC_LVT_LINT0 :: u32 where "LAPIC_LVT_LINT0 \<equiv> 0x0350"
abbreviation LAPIC_LVT_LINT1 :: u32 where "LAPIC_LVT_LINT1 \<equiv> 0x0360"
abbreviation LAPIC_LVT_ERROR :: u32 where "LAPIC_LVT_ERROR \<equiv> 0x0370"
abbreviation LAPIC_TICR :: u32 where "LAPIC_TICR \<equiv> 0x0380"
abbreviation LAPIC_TCCR :: u32 where "LAPIC_TCCR \<equiv> 0x0390"
abbreviation LAPIC_TDCR :: u32 where "LAPIC_TDCR \<equiv> 0x03E0"
abbreviation LAPIC_SVR_ENABLE :: u32 where "LAPIC_SVR_ENABLE \<equiv> 0x100"
abbreviation ICR_FIXED :: u32 where "ICR_FIXED \<equiv> 0x000"
abbreviation ICR_SEND_PENDING :: u32 where "ICR_SEND_PENDING \<equiv> 0x1000"
abbreviation ICR_ASSERT :: u32 where "ICR_ASSERT \<equiv> 0x4000"
abbreviation ICR_EDGE :: u32 where "ICR_EDGE \<equiv> 0x0000"
abbreviation ICR_SHORTHAND_OTHERS :: u32 where "ICR_SHORTHAND_OTHERS \<equiv> 0xC0000"
abbreviation IPI_VECTOR_TEST :: u8 where "IPI_VECTOR_TEST \<equiv> 0xFD"
abbreviation IPI_VECTOR_HALT :: u8 where "IPI_VECTOR_HALT \<equiv> 0xFE"

definition lapic_write :: "u32 \<Rightarrow> u32 \<Rightarrow> 'a kernel_state_scheme \<Rightarrow> 'a kernel_state_scheme res" where
  "lapic_write reg data s =
     (if lapic_base s = 0 then Inl NullDeref else Inr (mmio_write (lapic_base s + ucast reg) data s))"

definition lapic_read :: "u32 \<Rightarrow> 'a kernel_state_scheme \<Rightarrow> (u32 \<times> 'a kernel_state_scheme) res" where
  "lapic_read reg s =
     (if lapic_base s = 0 then Inl NullDeref else Inr (mmio_read (lapic_base s + ucast reg) s))"

definition lapic_writes :: "(u32 \<times> u32) list \<Rightarrow> 'a kernel_state_scheme \<Rightarrow> 'a kernel_state_scheme res" where
  "lapic_writes ws s = for_each (\<lambda>(reg, data). lapic_write reg data) ws s"

definition lapic_init :: "u64 \<Rightarrow> 'a kernel_state_scheme \<Rightarrow> 'a kernel_state_scheme res" where
  "lapic_init virt_addr s =
     bind_res (lapic_writes [(LAPIC_ESR, 0), (LAPIC_ESR, 0)] (s\<lparr>lapic_base := virt_addr\<rparr>)) (\<lambda>s1.
     bind_res (lapic_read LAPIC_SVR s1) (\<lambda>(svr, s2).
     lapic_writes [(LAPIC_SVR, svr OR LAPIC_SVR_ENABLE OR 0xFF), (LAPIC_LVT_LINT0, 0x10000),
       (LAPIC_LVT_LINT1, 0x10000), (LAPIC_LVT_ERROR, 34), (LAPIC_TPR, 0), (LAPIC_EOI, 0)] s2))"

definition lapic_init_ap :: "'a kernel_state_scheme \<Rightarrow> 'a kernel_state_scheme res" where
  "lapic_init_ap s =
     bind_res (lapic_read LAPIC_SVR s) (\<lambda>(svr, s1).
     lapic_writes [(LAPIC_SVR, svr OR 0x1FF), (LAPIC_TPR, 0), (LAPIC_ESR, 0), (LAPIC_ESR, 0)] s1)"

definition lapic_send_eoi :: "'a kernel_state_scheme \<Rightarrow> 'a kernel_state_scheme res" where
  "lapic_send_eoi s = lapic_write LAPIC_EOI 0 s"

definition get_current_cpu_id :: "'a kernel_state_scheme \<Rightarrow> (u32 \<times> 'a kernel_state_scheme) res" where
  "get_current_cpu_id s = bind_res (lapic_read LAPIC_ID s) (\<lambda>(v, s1). Inr (drop_bit 24 v, s1))"

text \<open>
  The bootstrap processor measures; any other CPU waits until the measurement is there, for ever if it is not.
\<close>

abbreviation calibration_window_ms :: u32 where "calibration_window_ms \<equiv> 5"

definition calibrate_bsp :: "'a kernel_state_scheme \<Rightarrow> 'a kernel_state_scheme res" where
  "calibrate_bsp s =
     bind_res (lapic_writes [(LAPIC_TDCR, 0x03), (LAPIC_TICR, 0xFFFFFFFF)] s) (\<lambda>s1.
     bind_res (pit_wait_calibration (pit_prepare_sleep (ucast (calibration_window_ms * 1193)) s1)) (\<lambda>s2.
     bind_res (lapic_read LAPIC_TCCR s2) (\<lambda>(current_ticks, s3).
     Inr (s3\<lparr>global_ticks_per_ms := ucast ((0xFFFFFFFF - current_ticks) div calibration_window_ms)\<rparr>))))"

definition lapic_timer_calibrate :: "cpu_env \<Rightarrow> 'a kernel_state_scheme \<Rightarrow> (u64 \<times> 'a kernel_state_scheme) res" where
  "lapic_timer_calibrate env s =
     (let cpu = get_cpu env s
      in bind_res (cpu_at s cpu) (\<lambda>c.
         bind_res (if c_cpu_id c = 0 then calibrate_bsp s
                   else if global_ticks_per_ms s = 0 then Inl Diverges else Inr s) (\<lambda>s1.
         bind_res (upd_cpu cpu (\<lambda>c. c\<lparr>c_lapic_ticks_per_ms := ucast (global_ticks_per_ms s1)\<rparr>) s1) (\<lambda>s2.
         bind_res (lapic_write LAPIC_TICR 0 s2) (\<lambda>s3.
         Inr (cpu, s3))))))"

definition lapic_timer_init :: "cpu_env \<Rightarrow> u32 \<Rightarrow> u8 \<Rightarrow> 'a kernel_state_scheme \<Rightarrow> 'a kernel_state_scheme res" where
  "lapic_timer_init env ms_interval vector s =
     bind_res (lapic_timer_calibrate env s) (\<lambda>(cpu, s1).
     bind_res (cpu_at s1 cpu) (\<lambda>c.
     lapic_writes [(LAPIC_LVT_TIMER, ucast vector OR push_bit 17 1), (LAPIC_TDCR, 0x03),
       (LAPIC_TICR, c_lapic_ticks_per_ms c * ms_interval)] s1))"

text \<open>
  The wait for the previous interrupt to be delivered: the count of polls is decremented, below zero if need be, and looked
  at only after the loop.
\<close>

partial_function (option) delivery_loop ::
  "u64 \<Rightarrow> 'a kernel_state_scheme \<Rightarrow> (u64 \<times> 'a kernel_state_scheme) res option" where
  "delivery_loop timeout s =
     (case lapic_read LAPIC_ICR_LOW s of
        Inl e \<Rightarrow> Some (Inl e)
      | Inr (v, s1) \<Rightarrow>
          if v AND ICR_SEND_PENDING \<noteq> 0 then delivery_loop (timeout - 1) s1 else Some (Inr (timeout, s1)))"

definition ipi_stuck_msg :: string where "ipi_stuck_msg = ''FATAL: LAPIC IPI delivery stuck!'' @ [newline]"

definition lapic_wait_for_delivery :: "'a kernel_state_scheme \<Rightarrow> 'a kernel_state_scheme res" where
  "lapic_wait_for_delivery s =
     bind_res (converge (delivery_loop 1000000 s)) (\<lambda>(timeout, s1).
     if timeout = 0 then Inl (KPanic ipi_stuck_msg) else Inr s1)"

definition lapic_send_ipi :: "u8 \<Rightarrow> u8 \<Rightarrow> 'a kernel_state_scheme \<Rightarrow> 'a kernel_state_scheme res" where
  "lapic_send_ipi target_lapic_id vector s =
     bind_res (lapic_wait_for_delivery s) (\<lambda>s1.
     lapic_writes [(LAPIC_ICR_HIGH, push_bit 24 (ucast target_lapic_id)),
       (LAPIC_ICR_LOW, ICR_ASSERT OR ICR_EDGE OR ICR_FIXED OR ucast vector)] s1)"

definition lapic_broadcast_ipi :: "u8 \<Rightarrow> 'a kernel_state_scheme \<Rightarrow> 'a kernel_state_scheme res" where
  "lapic_broadcast_ipi vector s =
     bind_res (lapic_wait_for_delivery s) (\<lambda>s1.
     lapic_write LAPIC_ICR_LOW (ICR_SHORTHAND_OTHERS OR ICR_ASSERT OR ICR_EDGE OR ICR_FIXED OR ucast vector) s1)"

section \<open>I/O APIC\<close>

text \<open>The register window is an array of 32-bit words: \<^verbatim>\<open>IOREGSEL\<close> at index 0, \<^verbatim>\<open>IOWIN\<close> at index 4.\<close>

definition ioapic_write :: "u8 \<Rightarrow> u32 \<Rightarrow> 'a kernel_state_scheme \<Rightarrow> 'a kernel_state_scheme res" where
  "ioapic_write reg data s =
     (if ioapic_base s = 0 then Inl NullDeref
      else Inr (mmio_write (ioapic_base s + 16) data (mmio_write (ioapic_base s) (ucast reg) s)))"

definition ioapic_read :: "u8 \<Rightarrow> 'a kernel_state_scheme \<Rightarrow> (u32 \<times> 'a kernel_state_scheme) res" where
  "ioapic_read reg s =
     (if ioapic_base s = 0 then Inl NullDeref
      else Inr (mmio_read (ioapic_base s + 16) (mmio_write (ioapic_base s) (ucast reg) s)))"

definition ioapic_set_irq :: "u8 \<Rightarrow> u8 \<Rightarrow> u8 \<Rightarrow> 'a kernel_state_scheme \<Rightarrow> 'a kernel_state_scheme res" where
  "ioapic_set_irq pin apic_id vector s =
     (let low_index = 0x10 + (ucast pin :: u32) * 2;
          high_index = 0x11 + (ucast pin :: u32) * 2
      in bind_res (ioapic_write (ucast low_index) (ucast vector AND NOT (push_bit 16 1)) s)
           (ioapic_write (ucast high_index) (push_bit 24 (ucast apic_id))))"

definition PTE_PCD :: u64 where "PTE_PCD = push_bit 4 1"

definition ioapic_mask :: "u32 \<Rightarrow> 'a kernel_state_scheme \<Rightarrow> 'a kernel_state_scheme res" where
  "ioapic_mask i s =
     bind_res (ioapic_write (ucast (0x10 + i * 2)) 0x00010000 s) (ioapic_write (ucast (0x10 + i * 2 + 1)) 0)"

definition ioapic_init :: "cpu_env \<Rightarrow> u64 \<Rightarrow> 'a kernel_state_scheme \<Rightarrow> 'a kernel_state_scheme res" where
  "ioapic_init env phys_addr s =
     (let virt_addr = phys_to_virt phys_addr;
          s1 = s\<lparr>ioapic_base := virt_addr\<rparr>
      in bind_res (vmm_map env (kernel_pml4 s1) virt_addr phys_addr
                     (PTE_PRESENT OR PTE_WRITABLE OR PTE_NX OR PTE_PCD) s1) (\<lambda>s2.
         bind_res (ioapic_read 0x01 s2) (\<lambda>(ver_reg, s3).
         let max_entries = (drop_bit 16 ver_reg AND 0xFF) + 1
         in for_each ioapic_mask (map of_nat [0 ..< unat max_entries]) s3)))"

section \<open>Panic\<close>

definition smp_halt_others :: "'a kernel_state_scheme \<Rightarrow> 'a kernel_state_scheme res" where
  "smp_halt_others s = lapic_broadcast_ipi IPI_VECTOR_HALT s"

text \<open>
  \<^verbatim>\<open>panic\<close> and \<^verbatim>\<open>kpanic\<close> as what they do before they halt the CPU for ever.
\<close>

definition panic :: "cpu_env \<Rightarrow> string \<Rightarrow> 'a kernel_state_scheme \<Rightarrow> 'a kernel_state_scheme res" where
  "panic env message s =
     bind_res (smp_halt_others s) (\<lambda>s1.
     bind_res (kprint_raw (Some ([newline, newline] @ replicate 40 CHR ''#'' @ [newline])) s1) (\<lambda>s2.
     bind_res (kprint_raw (Some (''###           KERNEL PANIC           ###'' @ [newline])) s2) (\<lambda>s3.
     bind_res (kprint_raw (Some (replicate 40 CHR ''#'' @ [newline])) s3) (\<lambda>s4.
     bind_res (kprint_raw (Some ''CPU ID: '') s4) (\<lambda>s5.
     bind_res (cpu_at s5 (get_cpu env s5)) (\<lambda>c.
     bind_res (kprint_hex_raw (c_cpu_id c) s5) (\<lambda>s6.
     bind_res (kprint_raw (Some ([newline] @ ''REASON: '')) s6) (\<lambda>s7.
     bind_res (kprint_raw (Some message) s7) (\<lambda>s8.
     bind_res (kprint_raw (Some ([newline, newline] @ ''System halted permanently.'' @ [newline])) s8) (\<lambda>s9.
     bind_res (kprint_raw (Some ''GS_BASE: '') s9) (\<lambda>s10.
     bind_res (kprint_hex_raw (read_msr (core_of env) MSR_GS_BASE s10) s10) (\<lambda>s11.
     bind_res (kprint_raw (Some ''KERNEL_GS_BASE: '') s11) (\<lambda>s12.
     kprint_hex_raw (read_msr (core_of env) MSR_KERNEL_GS_BASE s12) s12)))))))))))))"

definition kpanic :: "cpu_env \<Rightarrow> string \<Rightarrow> 'a kernel_state_scheme \<Rightarrow> 'a kernel_state_scheme res" where
  "kpanic env message s =
     bind_res (kprint env (Some ([newline] @ ''!!! KERNEL PANIC !!!'' @ [newline])) s) (\<lambda>s1.
     bind_res (kprint env (Some message) s1) (\<lambda>s2.
     kprint env (Some ([newline] @ ''System halted.'')) s2))"

end
