(* ===== verification/Kbd.thy ===== *)
theory Kbd
  imports Kernel_State
begin

text \<open>
  The keyboard driver: \<^verbatim>\<open>kernel/arch/x86_64/drivers/ps2/ps2_kbd.c\<close> with its scancode tables, and the controller
  \<^verbatim>\<open>i8042.c\<close>. The flags are C integers that only hold 0 and 1.
\<close>

section \<open>Scancodes\<close>

definition scancode_set2_lower :: "u8 list" where
  "scancode_set2_lower = [
    0, 0x89, 0, 0x8A, 0x8B, 0x8C, 0x8D, 0x96, 0, 0x97, 0x98, 0x99, 0x9A, 0x09, 0x60, 0,
    0, 0x88, 0x85, 0, 0x87, 0x71, 0x31, 0, 0, 0, 0x7A, 0x73, 0x61, 0x77, 0x32, 0,
    0, 0x63, 0x78, 0x64, 0x65, 0x34, 0x33, 0, 0, 0x20, 0x76, 0x66, 0x74, 0x72, 0x35, 0,
    0, 0x6E, 0x62, 0x68, 0x67, 0x79, 0x36, 0, 0, 0, 0x6D, 0x6A, 0x75, 0x37, 0x38, 0,
    0, 0x2C, 0x6B, 0x69, 0x6F, 0x30, 0x39, 0, 0, 0x2E, 0x2F, 0x6C, 0x3B, 0x70, 0x2D, 0,
    0, 0, 0x27, 0, 0x5B, 0x3D, 0, 0, 0x84, 0x86, 0x0A, 0x5D, 0, 0x5C, 0, 0,
    0, 0, 0, 0, 0, 0, 0x08, 0, 0, 0x31, 0, 0x34, 0x37, 0, 0, 0,
    0x30, 0x2E, 0x32, 0x35, 0x36, 0x38, 0x1B, 0, 0x9B, 0x2B, 0x33, 0x2D, 0x2A, 0x39, 0, 0]"

definition scancode_set2_upper :: "u8 list" where
  "scancode_set2_upper = [
    0, 0, 0, 0, 0, 0, 0, 0, 0, 0, 0, 0, 0, 0x09, 0x7E, 0,
    0, 0, 0, 0, 0, 0x51, 0x21, 0, 0, 0, 0x5A, 0x53, 0x41, 0x57, 0x40, 0,
    0, 0x43, 0x58, 0x44, 0x45, 0x24, 0x23, 0, 0, 0x20, 0x56, 0x46, 0x54, 0x52, 0x25, 0,
    0, 0x4E, 0x42, 0x48, 0x47, 0x59, 0x5E, 0, 0, 0, 0x4D, 0x4A, 0x55, 0x26, 0x2A, 0,
    0, 0x3C, 0x4B, 0x49, 0x4F, 0x29, 0x28, 0, 0, 0x3E, 0x3F, 0x4C, 0x3A, 0x50, 0x5F, 0,
    0, 0, 0x22, 0, 0x7B, 0x2B, 0, 0, 0, 0, 0x0A, 0x7D, 0, 0x7C, 0, 0,
    0, 0, 0, 0, 0, 0, 0x08, 0, 0, 0x31, 0, 0x34, 0x37, 0, 0, 0,
    0x30, 0x2E, 0x32, 0x35, 0x36, 0x38, 0x1B, 0, 0, 0x3D, 0x33, 0x2D, 0x2A, 0x39, 0, 0]"

section \<open>The circular buffer\<close>

abbreviation KBD_BUF_SIZE :: nat where "KBD_BUF_SIZE \<equiv> 256"
abbreviation PS2_DATA_PORT :: u16 where "PS2_DATA_PORT \<equiv> 0x60"
abbreviation PS2_STATUS_REG :: u16 where "PS2_STATUS_REG \<equiv> 0x64"
abbreviation PS2_COMMAND_REG :: u16 where "PS2_COMMAND_REG \<equiv> 0x64"

definition kbd_push_char :: "u8 \<Rightarrow> kbd_dev \<Rightarrow> kbd_dev" where
  "kbd_push_char c k =
     (let nxt = (kbd_head k + 1) mod KBD_BUF_SIZE
      in if nxt \<noteq> kbd_tail k then k\<lparr>kbd_buffer := (kbd_buffer k)(kbd_head k := c), kbd_head := nxt\<rparr> else k)"

text \<open>The part of \<^verbatim>\<open>kbd_pop_char\<close> under the lock: \<open>None\<close> when the buffer is empty.\<close>

definition kbd_take :: "kbd_dev \<Rightarrow> (u8 \<times> kbd_dev) option" where
  "kbd_take k =
     (if kbd_head k = kbd_tail k then None
      else Some (kbd_buffer k (kbd_tail k), k\<lparr>kbd_tail := (kbd_tail k + 1) mod KBD_BUF_SIZE\<rparr>))"

definition kbd_pop_char :: "cpu_env \<Rightarrow> 'a kernel_state_scheme \<Rightarrow> (u8 option \<times> 'a kernel_state_scheme) res" where
  "kbd_pop_char env s =
     bind_res (spin_lock env (kbd_lock (kbd s))) (\<lambda>l.
     let k = (kbd s)\<lparr>kbd_lock := l\<rparr>
     in (case kbd_take k of
           None \<Rightarrow> Inr (None, s\<lparr>kbd := k\<lparr>kbd_lock := spin_unlock env (kbd_lock k)\<rparr>\<rparr>)
         | Some (c, k1) \<Rightarrow> Inr (Some c, s\<lparr>kbd := k1\<lparr>kbd_lock := spin_unlock env (kbd_lock k1)\<rparr>\<rparr>)))"

text \<open>What a scancode does to the modifier flags, and the character it produces, if any.\<close>

definition kbd_decode :: "u8 \<Rightarrow> kbd_dev \<Rightarrow> u8 option \<times> kbd_dev" where
  "kbd_decode scancode k =
     (if scancode = 0xE0 then (None, k\<lparr>is_extended := True\<rparr>)
      else if scancode = 0xF0 then (None, k\<lparr>is_break := True\<rparr>)
      else if is_break k then
        (let k1 = k\<lparr>is_break := False, is_extended := False\<rparr>
         in (None, if scancode = 0x12 \<or> scancode = 0x59 then k1\<lparr>is_shifted := False\<rparr> else k1))
      else if scancode = 0x12 \<or> scancode = 0x59 then (None, k\<lparr>is_shifted := True\<rparr>)
      else if scancode = 0x58 then (None, k\<lparr>is_caps := \<not> is_caps k\<rparr>)
      else if scancode < 0x80 then
        (let use_upper = (is_shifted k \<noteq> is_caps k);
             ascii = (if use_upper then scancode_set2_upper else scancode_set2_lower) ! unat scancode
         in (if ascii \<noteq> 0 then Some ascii else None, k\<lparr>is_extended := False\<rparr>))
      else (None, k\<lparr>is_extended := False\<rparr>))"

text \<open>
  The flag \<^verbatim>\<open>is_extended\<close> is cleared after the character has been handled, which nothing in between looks at.
\<close>

definition ps2_keyboard_handler :: "cpu_env \<Rightarrow> 'a kernel_state_scheme \<Rightarrow> 'a kernel_state_scheme res" where
  "ps2_keyboard_handler env s =
     bind_res (spin_lock env (kbd_lock (kbd s))) (\<lambda>l.
     let (scancode, s1) = inb PS2_DATA_PORT (s\<lparr>kbd := (kbd s)\<lparr>kbd_lock := l\<rparr>\<rparr>);
         (out, k) = kbd_decode scancode (kbd s1)
     in bind_res
          (case out of
             None \<Rightarrow> Inr (s1\<lparr>kbd := k\<rparr>)
           | Some ascii \<Rightarrow> sched_wakeup env REASON_KEYBOARD (s1\<lparr>kbd := kbd_push_char ascii k\<rparr>)) (\<lambda>s2.
        Inr (s2\<lparr>kbd := (kbd s2)\<lparr>kbd_lock := spin_unlock env (kbd_lock (kbd s2))\<rparr>\<rparr>)))"

section \<open>The controller\<close>

text \<open>Both waits give up after 100000 polls.\<close>

fun i8042_poll :: "(u8 \<Rightarrow> bool) \<Rightarrow> nat \<Rightarrow> 'a io_state_scheme \<Rightarrow> 'a io_state_scheme" where
  "i8042_poll ready 0 s = s"
| "i8042_poll ready (Suc n) s =
     (let (v, s1) = inb PS2_STATUS_REG s in if ready v then s1 else i8042_poll ready n s1)"

definition i8042_wait_write :: "'a io_state_scheme \<Rightarrow> 'a io_state_scheme" where
  "i8042_wait_write s = i8042_poll (\<lambda>v. v AND 0x02 = 0) 100000 s"

definition i8042_wait_read :: "'a io_state_scheme \<Rightarrow> 'a io_state_scheme" where
  "i8042_wait_read s = i8042_poll (\<lambda>v. v AND 0x01 \<noteq> 0) 100000 s"

definition i8042_locked ::
  "cpu_env \<Rightarrow> ('a kernel_state_scheme \<Rightarrow> 'b \<times> 'a kernel_state_scheme) \<Rightarrow> 'a kernel_state_scheme \<Rightarrow>
     ('b \<times> 'a kernel_state_scheme) res" where
  "i8042_locked env body s =
     bind_res (spin_lock env (i8042_lock s)) (\<lambda>l.
     let (v, s1) = body (s\<lparr>i8042_lock := l\<rparr>)
     in Inr (v, s1\<lparr>i8042_lock := spin_unlock env (i8042_lock s1)\<rparr>))"

definition i8042_write_command :: "cpu_env \<Rightarrow> u8 \<Rightarrow> 'a kernel_state_scheme \<Rightarrow> 'a kernel_state_scheme res" where
  "i8042_write_command env cmd s =
     bind_res (i8042_locked env (\<lambda>t. ((), outb PS2_COMMAND_REG cmd (i8042_wait_write t))) s) (\<lambda>(_, s1). Inr s1)"

definition i8042_write_data :: "cpu_env \<Rightarrow> u8 \<Rightarrow> 'a kernel_state_scheme \<Rightarrow> 'a kernel_state_scheme res" where
  "i8042_write_data env data s =
     bind_res (i8042_locked env (\<lambda>t. ((), outb PS2_DATA_PORT data (i8042_wait_write t))) s) (\<lambda>(_, s1). Inr s1)"

definition i8042_read_data :: "cpu_env \<Rightarrow> 'a kernel_state_scheme \<Rightarrow> (u8 \<times> 'a kernel_state_scheme) res" where
  "i8042_read_data env s = i8042_locked env (\<lambda>t. inb PS2_DATA_PORT (i8042_wait_read t)) s"

text \<open>Flushing the output buffer may never end.\<close>

partial_function (option) i8042_flush :: "'a io_state_scheme \<Rightarrow> 'a io_state_scheme option" where
  "i8042_flush s =
     (let (v, s1) = inb PS2_STATUS_REG s
      in if v AND 0x01 \<noteq> 0 then i8042_flush (snd (inb PS2_DATA_PORT s1)) else Some s1)"

definition i8042_flushed :: "'a io_state_scheme \<Rightarrow> 'a io_state_scheme res" where
  "i8042_flushed s = (case i8042_flush s of None \<Rightarrow> Inl Diverges | Some s1 \<Rightarrow> Inr s1)"

definition i8042_init :: "cpu_env \<Rightarrow> 'a kernel_state_scheme \<Rightarrow> 'a kernel_state_scheme res" where
  "i8042_init env s =
     bind_res (i8042_write_command env 0xAD s) (\<lambda>s1.
     bind_res (i8042_write_command env 0xA7 s1) (\<lambda>s2.
     bind_res (i8042_flushed s2) (\<lambda>s3.
     bind_res (i8042_write_command env 0xAA s3) (\<lambda>s4.
     bind_res (i8042_read_data env s4) (\<lambda>(res, s5).
     if res \<noteq> 0x55 then Inr s5
     else
       bind_res (i8042_write_command env 0x20 s5) (\<lambda>s6.
       bind_res (i8042_read_data env s6) (\<lambda>(config, s7).
       let config1 = ((config OR push_bit 0 1) AND NOT (push_bit 1 1)) AND NOT (push_bit 6 1)
       in bind_res (i8042_write_command env 0x60 s7) (\<lambda>s8.
          bind_res (i8042_write_data env config1 s8) (\<lambda>s9.
          bind_res (i8042_write_command env 0xAE s9) (\<lambda>s10.
          i8042_flushed (outb PS2_DATA_PORT 0xF4 (i8042_wait_write s10))))))))))))"

end
