(* ===== verification/Idt.thy ===== *)
theory Idt
  imports Apic Kbd
begin

text \<open>
  Interrupts: the descriptor table and the dispatcher of \<^verbatim>\<open>kernel/arch/x86_64/idt.c\<close>, and \<^verbatim>\<open>msleep\<close> of
  \<^verbatim>\<open>kernel/arch/x86_64/timer.c\<close>. The frame the stubs push is in the memory of the interrupted stack; \<open>fr\<close> is its address.
\<close>

section \<open>The descriptor table\<close>

definition idt_set_descriptor :: "u8 \<Rightarrow> u64 \<Rightarrow> u8 \<Rightarrow> 'a kernel_state_scheme \<Rightarrow> 'a kernel_state_scheme" where
  "idt_set_descriptor vector isr flags s =
     s\<lparr>idt := (idt s)(unat vector :=
         \<lparr>isr_low = ucast (isr AND 0xFFFF), idt_kernel_cs = 0x08, idt_ist = 0, idt_attributes = flags,
          isr_mid = ucast (drop_bit 16 isr AND 0xFFFF), isr_high = ucast (drop_bit 32 isr AND 0xFFFFFFFF),
          idt_reserved = 0\<rparr>)\<rparr>"

text \<open>
  \<^verbatim>\<open>isr_stub_table\<close> and the address of the table are arguments; \<^verbatim>\<open>lidt\<close> loads what \<open>idtr_base\<close> and \<open>idtr_limit\<close> hold.
\<close>

fun idt_fill :: "(nat \<Rightarrow> u64) \<Rightarrow> nat \<Rightarrow> 'a kernel_state_scheme \<Rightarrow> 'a kernel_state_scheme" where
  "idt_fill stubs 0 s = s"
| "idt_fill stubs (Suc n) s = idt_set_descriptor (of_nat n) (stubs n) 0x8E (idt_fill stubs n s)"

definition idt_init :: "(nat \<Rightarrow> u64) \<Rightarrow> u64 \<Rightarrow> 'a kernel_state_scheme \<Rightarrow> 'a kernel_state_scheme" where
  "idt_init isr_stub_table idt_addr s =
     (if \<not> idt_initialized s then
        (idt_fill isr_stub_table 256 s)\<lparr>idtr_base := idt_addr, idtr_limit := 256 * 16 - 1, idt_initialized := True\<rparr>
      else s)"

section \<open>Dispatch\<close>

definition bangs :: string where "bangs = replicate 38 CHR ''!'' @ [newline]"

definition exception_msg :: string where "exception_msg = ''Unhandled CPU Exception''"

abbreviation F_RBX :: u64 where "F_RBX \<equiv> 88"

text \<open>The report of an exception, up to the halt; \<open>cr2\<close> is the fault address the processor holds.\<close>

definition exception_handler :: "cpu_env \<Rightarrow> u64 \<Rightarrow> u64 \<Rightarrow> 'a kernel_state_scheme \<Rightarrow> 'a kernel_state_scheme res" where
  "exception_handler env cr2 fr s =
     bind_res (kprintf env ([newline] @ bangs) [] s) (\<lambda>s1.
     bind_res (kprintf env (''!!!          CPU EXCEPTION         !!!'' @ [newline]) [] s1) (\<lambda>s2.
     bind_res (kprintf env bangs [] s2) (\<lambda>s3.
     bind_res (load64 s3 fr F_VECTOR) (\<lambda>vec.
     bind_res (load64 s3 fr F_ERROR) (\<lambda>err.
     bind_res (kprintf env (''Vector: %p | Error Code: %p'' @ [newline]) [VaInt vec, VaInt err] s3) (\<lambda>s4.
     bind_res (load64 s4 fr F_RIP) (\<lambda>rip.
     bind_res (kprintf env (''RIP:    %p'' @ [newline]) [VaInt rip] s4) (\<lambda>s5.
     bind_res (kprintf env (''CR2 (Fault Address): %p'' @ [newline]) [VaInt cr2] s5) (\<lambda>s6.
     bind_res (load64 s6 fr F_RAX) (\<lambda>rax.
     bind_res (load64 s6 fr F_RBX) (\<lambda>rbx.
     bind_res (kprintf env (''RAX:    %p | RBX: %p'' @ [newline]) [VaInt rax, VaInt rbx] s6) (\<lambda>s7.
     bind_res (load64 s7 fr F_RSP) (\<lambda>rsp.
     bind_res (kprintf env (''Stack at: %p'' @ [newline]) [VaInt rsp] s7) (\<lambda>s8.
     bind_res (kprintf env bangs [] s8) (\<lambda>s9.
     panic env exception_msg s9)))))))))))))))"

text \<open>Vector 32, the timer, which \<^verbatim>\<open>sched_yield\<close> raises as well.\<close>

definition timer_interrupt :: "cpu_env \<Rightarrow> u64 \<Rightarrow> 'a kernel_state_scheme \<Rightarrow> (u64 \<times> 'a kernel_state_scheme) res" where
  "timer_interrupt env fr s =
     bind_res (cpu_at s (get_cpu env s)) (\<lambda>c.
     let s1 = (if c_cpu_id c = 0 then s\<lparr>system_uptime_ms := system_uptime_ms s + 5\<rparr> else s)
     in bind_res (sched_update_sleepers env s1) (\<lambda>s2.
        bind_res (lapic_send_eoi s2) (\<lambda>s3.
        schedule env fr s3)))"

definition sched_yield :: "cpu_env \<Rightarrow> u64 \<Rightarrow> 'a kernel_state_scheme \<Rightarrow> (u64 \<times> 'a kernel_state_scheme) res" where
  "sched_yield env fr s = timer_interrupt env fr s"

text \<open>
  The dispatcher returns the stack pointer to go on with. An exception ends in the panic, the halt vector in a halted CPU.
\<close>

definition halted_msg :: string where "halted_msg = ''halted''"

definition interrupt_dispatch :: "cpu_env \<Rightarrow> u64 \<Rightarrow> u64 \<Rightarrow> 'a kernel_state_scheme \<Rightarrow> (u64 \<times> 'a kernel_state_scheme) res" where
  "interrupt_dispatch env cr2 fr s =
     bind_res (load64 s fr F_VECTOR) (\<lambda>vec.
       if vec < 32 then bind_res (exception_handler env cr2 fr s) (\<lambda>_. Inl (KPanic exception_msg))
       else if vec = 32 then timer_interrupt env fr s
       else if vec = 33 then
         bind_res (ps2_keyboard_handler env s) (\<lambda>s1. bind_res (lapic_send_eoi s1) (\<lambda>s2. Inr (fr, s2)))
       else if vec = ucast IPI_VECTOR_TEST then
         bind_res (lapic_send_eoi (cpu_flush_tlb env s)) (\<lambda>s1. Inr (fr, s1))
       else if vec = ucast IPI_VECTOR_HALT then Inl (KPanic halted_msg)
       else bind_res (lapic_send_eoi s) (\<lambda>s1. Inr (fr, s1)))"

section \<open>Sleeping\<close>

text \<open>
  Before the scheduler runs, \<^verbatim>\<open>msleep\<close> polls the clock, which only the timer interrupt moves: the values the polls see are
  an argument. Afterwards the task goes to sleep and yields; the result is the stack pointer the CPU goes on with,
  \<open>None\<close> when it just returns.
\<close>

fun busy_wait :: "u64 \<Rightarrow> u64 \<Rightarrow> u64 list \<Rightarrow> u64 option" where
  "busy_wait start ms [] = None"
| "busy_wait start ms (now # later) = (if now - start < ms then busy_wait start ms later else Some now)"

definition msleep ::
  "cpu_env \<Rightarrow> u64 \<Rightarrow> u64 list \<Rightarrow> u64 \<Rightarrow> 'a kernel_state_scheme \<Rightarrow> (u64 option \<times> 'a kernel_state_scheme) res" where
  "msleep env fr clock ms s =
     bind_res (cpu_at s (get_cpu env s)) (\<lambda>c.
       if c_current_task c = 0 \<or> \<not> g_lock_enabled env then
         (case busy_wait (get_uptime_ms s) ms clock of
            None \<Rightarrow> Inl Diverges
          | Some now \<Rightarrow> Inr (None, s\<lparr>system_uptime_ms := now\<rparr>))
       else
         bind_res (sched_make_task_sleep env ms s) (\<lambda>s1.
         bind_res (sched_yield env fr s1) (\<lambda>(rsp, s2). Inr (Some rsp, s2))))"

end
