(* ===== verification/Sched_Runs.thy ===== *)
theory Sched_Runs
  imports Sched_Safety Sched_Proofs Idt
begin

text \<open>
  The scheduler in the running kernel: the steps by which CPUs hand tasks around, as the interrupt handlers and the calls
  that give up a CPU perform them, and what holds after any number of steps.
\<close>

section \<open>What the invariant looks at\<close>

lemma sched_inv_same:
  fixes s s' :: "'a sched_state_scheme"
  assumes "tasks s' = tasks s" "cpus s' = cpus s" "cpu_table s' = cpu_table s" "blocked_task_list s' = blocked_task_list s"
    "dead_task_list s' = dead_task_list s" "blocked_lock s' = blocked_lock s" "dead_lock s' = dead_lock s"
  shows "sched_inv K s' L P D = sched_inv K s L P D"
proof -
  have "anchor s' q = anchor s q" for q using assms by (cases q) auto
  then have "place_ok s' q xs = place_ok s q xs" for q xs using assms(1) by (intro place_ok_cong) auto
  then have "layout K s' L = layout K s L" by (simp add: layout_def)
  then show ?thesis using assms
    by (simp add: sched_inv_def settled_def locks_idle_def cpus_known_def states_fit_def cpus_fit_def people_def)
qed

lemma on_cpu_same: "msrs s' = msrs s \<Longrightarrow> on_cpu K env s' c = on_cpu K env s c"
  by (simp add: on_cpu_def get_cpu_def split: option.split)

lemma more_lapic_base: "sched_state.more s' = sched_state.more s \<Longrightarrow> lapic_base s' = lapic_base s"
  by (cases s, cases s') simp

section \<open>Interrupt handlers\<close>

lemma lapic_send_eoi_inv:
  assumes "sched_inv K s L P D" "lapic_send_eoi s = Inr s'"
  shows "sched_inv K s' L P D" "msrs s' = msrs s"
proof -
  have "s' = mmio_write (lapic_base s + ucast LAPIC_EOI) 0 s" using assms(2) by (auto simp: lapic_send_eoi_def lapic_write_def split: if_splits)
  then have f: "tasks s' = tasks s" "cpus s' = cpus s" "cpu_table s' = cpu_table s" "blocked_task_list s' = blocked_task_list s"
    "dead_task_list s' = dead_task_list s" "blocked_lock s' = blocked_lock s" "dead_lock s' = dead_lock s" "msrs s' = msrs s"
    by (simp_all add: mmio_write_def)
  show "sched_inv K s' L P D" using assms(1) sched_inv_same [OF f(1-7)] by simp
  show "msrs s' = msrs s" by (rule f(8))
qed

text \<open>The timer interrupt; \<^verbatim>\<open>sched_yield\<close> raises it for a task that has just put itself on a list.\<close>

lemma timer_interrupt_inv:
  assumes inv: "sched_inv K s L P D" and D: "D \<subseteq> {c}" and on: "on_cpu K env s c"
  shows "if lapic_base s = 0 then timer_interrupt env fr s = Inl NullDeref
    else \<exists>rsp s' L'. timer_interrupt env fr s = Inr (rsp, s') \<and> sched_inv K s' L' P {}"
proof -
  have c: "get_cpu env s = c" "c \<noteq> 0" using on sched_invD(1) [OF inv] by (auto simp: on_cpu_def settled_def)
  define s1 where "s1 = (if c_cpu_id (cpus s c) = 0 then s\<lparr>system_uptime_ms := system_uptime_ms s + 5\<rparr> else s)"
  have i1: "sched_inv K s1 L P D" "on_cpu K env s1 c" "lapic_base s1 = lapic_base s"
    using inv on sched_inv_same [of s1 s K L P D] on_cpu_same [of s1 s K env c] by (simp_all add: s1_def)
  obtain s2 L2 where s2: "sched_update_sleepers env s1 = Inr s2" "sched_inv K s2 L2 P D" "keeps s1 s2"
    using sched_inv_sleepers [OF i1(1,2)] by blast
  have lb: "lapic_base s2 = lapic_base s" and on2: "on_cpu K env s2 c"
    using s2(3) i1(3) more_lapic_base [of s2 s1] on_cpu_keeps [OF i1(2) s2(3)] by (simp_all add: keeps_def)
  have eq: "timer_interrupt env fr s = bind_res (lapic_send_eoi s2) (schedule env fr)"
    using s2(1) c by (simp add: timer_interrupt_def cpu_at_def s1_def Let_def)
  show ?thesis
  proof (cases "lapic_base s = 0")
    case True
    then show ?thesis using eq lb by (simp add: lapic_send_eoi_def lapic_write_def)
  next
    case False
    then obtain s3 where s3: "lapic_send_eoi s2 = Inr s3" using lb by (simp add: lapic_send_eoi_def lapic_write_def)
    note i3 = lapic_send_eoi_inv [OF s2(2) s3]
    have "on_cpu K env s3 c" using on2 on_cpu_same [OF i3(2)] by simp
    from sched_inv_schedule [OF i3(1) D this, of fr] show ?thesis using eq s3 False by simp
  qed
qed

lemma keyboard_inv:
  assumes inv: "sched_inv K s L P {}" and on: "on_cpu K env s c" and r: "ps2_keyboard_handler env s = Inr s'"
  shows "\<exists>L'. sched_inv K s' L' P {}"
proof -
  obtain l where l: "spin_lock env (kbd_lock (kbd s)) = Inr l" using r by (auto simp: ps2_keyboard_handler_def)
  define s1 where "s1 = snd (inb PS2_DATA_PORT (s\<lparr>kbd := (kbd s)\<lparr>kbd_lock := l\<rparr>\<rparr>))"
  define d where "d = kbd_decode (fst (inb PS2_DATA_PORT (s\<lparr>kbd := (kbd s)\<lparr>kbd_lock := l\<rparr>\<rparr>))) (kbd s1)"
  have eq: "ps2_keyboard_handler env s = bind_res (case fst d of None \<Rightarrow> Inr (s1\<lparr>kbd := snd d\<rparr>)
      | Some a \<Rightarrow> sched_wakeup env REASON_KEYBOARD (s1\<lparr>kbd := kbd_push_char a (snd d)\<rparr>))
      (\<lambda>s2. Inr (s2\<lparr>kbd := (kbd s2)\<lparr>kbd_lock := spin_unlock env (kbd_lock (kbd s2))\<rparr>\<rparr>))"
    unfolding ps2_keyboard_handler_def l bind_res.simps Let_def case_prod_beta s1_def d_def by (rule refl)
  obtain s2 where s2: "(case fst d of None \<Rightarrow> Inr (s1\<lparr>kbd := snd d\<rparr>)
      | Some a \<Rightarrow> sched_wakeup env REASON_KEYBOARD (s1\<lparr>kbd := kbd_push_char a (snd d)\<rparr>)) = Inr s2"
    "s' = s2\<lparr>kbd := (kbd s2)\<lparr>kbd_lock := spin_unlock env (kbd_lock (kbd s2))\<rparr>\<rparr>"
    using r unfolding eq bind_res_Inr_iff by blast
  have i1: "sched_inv K (s1\<lparr>kbd := k\<rparr>) L P {}" "on_cpu K env (s1\<lparr>kbd := k\<rparr>) c" for k
    using inv on sched_inv_same [of "s1\<lparr>kbd := k\<rparr>" s K L P "{}"] on_cpu_same [of "s1\<lparr>kbd := k\<rparr>" s K env c]
    by (simp_all add: s1_def inb_def)
  have "\<exists>L'. sched_inv K s2 L' P {}"
  proof (cases "fst d")
    case None
    then show ?thesis using s2(1) i1(1) by auto
  next
    case (Some a)
    then have "sched_wakeup env REASON_KEYBOARD (s1\<lparr>kbd := kbd_push_char a (snd d)\<rparr>) = Inr s2" using s2(1) by simp
    with sched_inv_wakeup [OF i1 [of "kbd_push_char a (snd d)"], of REASON_KEYBOARD] show ?thesis by auto
  qed
  then show ?thesis using sched_inv_same [of s' s2 K _ P "{}"] s2(2) by simp
qed

section \<open>Runs\<close>

text \<open>
  One step of the running system, on the kernel state and the set of tasks: the timer interrupts a CPU; the task a CPU runs,
  which is not its idle task, goes to sleep, blocks or ends, and yields; the keyboard interrupts a CPU; a CPU puts a new task
  on its queue. A step is made by one CPU at a time.
\<close>

inductive sched_step :: "u64 set \<Rightarrow> kernel_state \<times> u64 set \<Rightarrow> kernel_state \<times> u64 set \<Rightarrow> bool" for K where
  tick: "on_cpu K env s c \<Longrightarrow> timer_interrupt env fr s = Inr (rsp, s') \<Longrightarrow> sched_step K (s, P) (s', P)"
| sleep: "on_cpu K env s c \<Longrightarrow> cur_task s c \<noteq> idle_of s c \<Longrightarrow> sched_make_task_sleep env ms s = Inr s1 \<Longrightarrow>
    sched_yield env fr s1 = Inr (rsp, s') \<Longrightarrow> sched_step K (s, P) (s', P)"
| block: "on_cpu K env s c \<Longrightarrow> cur_task s c \<noteq> idle_of s c \<Longrightarrow> sched_block_current env reason s = Inr s1 \<Longrightarrow>
    sched_yield env fr s1 = Inr (rsp, s') \<Longrightarrow> sched_step K (s, P) (s', P)"
| finish: "on_cpu K env s c \<Longrightarrow> cur_task s c \<noteq> idle_of s c \<Longrightarrow> task_exit env s = Inr s1 \<Longrightarrow>
    sched_yield env fr s1 = Inr (rsp, s') \<Longrightarrow> sched_step K (s, P) (s', P)"
| key: "on_cpu K env s c \<Longrightarrow> ps2_keyboard_handler env s = Inr s' \<Longrightarrow> sched_step K (s, P) (s', P)"
| spawn: "on_cpu K env s c \<Longrightarrow> t \<noteq> 0 \<Longrightarrow> t \<notin> P \<Longrightarrow> t \<notin> idle_of s ` K \<Longrightarrow> t_state (tasks s t) = TASK_READY \<Longrightarrow>
    t_base_priority (tasks s t) \<noteq> PRIO_IDLE \<Longrightarrow> enqueue_task env c t s = Inr s' \<Longrightarrow> sched_step K (s, P) (s', insert t P)"

lemma yield_inv:
  assumes "sched_inv K s L P {c}" "on_cpu K env s c" "sched_yield env fr s = Inr (rsp, s')"
  shows "\<exists>L'. sched_inv K s' L' P {}"
  using timer_interrupt_inv [OF assms(1) subset_refl assms(2), of fr] assms(3) by (auto simp: sched_yield_def split: if_splits)

lemma sched_step_inv:
  assumes "sched_step K (s, P) (s', P')" "sched_inv K s L P {}"
  shows "\<exists>L'. sched_inv K s' L' P' {}"
  using assms(1)
proof cases
  case (tick env c fr rsp)
  then show ?thesis using timer_interrupt_inv [OF assms(2) _ tick(2), of fr] by (auto split: if_splits)
next
  case (sleep env c ms s1 fr rsp)
  obtain L1 where "sched_inv K s1 L1 P {c}" "keeps s s1" using sched_inv_sleep [OF assms(2) sleep(2,3), of ms] sleep(4) by auto
  then show ?thesis using yield_inv [OF _ on_cpu_keeps [OF sleep(2)] sleep(5)] sleep(1) by blast
next
  case (block env c reason s1 fr rsp)
  obtain L1 where "sched_inv K s1 L1 P {c}" "keeps s s1" using sched_inv_block [OF assms(2) block(2,3), of reason] block(4) by auto
  then show ?thesis using yield_inv [OF _ on_cpu_keeps [OF block(2)] block(5)] block(1) by blast
next
  case (finish env c s1 fr rsp)
  obtain L1 where "sched_inv K s1 L1 P {c}" "keeps s s1" using sched_inv_exit [OF assms(2) finish(2,3,4)] by auto
  then show ?thesis using yield_inv [OF _ on_cpu_keeps [OF finish(2)] finish(5)] finish(1) by blast
next
  case (key env c)
  then show ?thesis using keyboard_inv [OF assms(2)] by blast
next
  case (spawn env c t)
  then show ?thesis using sched_inv_spawn [OF assms(2) spawn(2,3,4,5,6,7)] by auto
qed

text \<open>A task is on the list at a place; the invariant lets it be on one only.\<close>

definition waits_at :: "'a sched_state_scheme \<Rightarrow> place \<Rightarrow> u64 \<Rightarrow> bool" where
  "waits_at s pl x \<longleftrightarrow> (\<exists>xs. place_ok s pl xs \<and> x \<in> set xs)"

lemma waits_at_layout:
  assumes "layout K s L" "pl \<in> places K"
  shows "waits_at s pl x \<longleftrightarrow> x \<in> set (L pl)"
  using layout_place [OF assms] chain_unique [OF place_ok_chain place_ok_chain] by (metis waits_at_def)

lemma sched_inv_one_place:
  assumes inv: "sched_inv K s L P {}" and x: "x \<in> P"
  shows "(\<exists>!c. c \<in> K \<and> cur_task s c = x) \<and> t_state (tasks s x) = TASK_RUNNING \<and> (\<forall>pl \<in> places K. \<not> waits_at s pl x) \<or>
    (\<forall>c \<in> K. cur_task s c \<noteq> x) \<and> (\<exists>!pl. pl \<in> places K \<and> waits_at s pl x) \<and>
    (\<forall>pl \<in> places K. waits_at s pl x \<longrightarrow> t_state (tasks s x) = state_at pl)"
proof -
  note I = sched_invD [OF inv] note F = cpus_fitD [OF I(4)]
  note w = waits_at_layout [OF I(6), of _ x]
  have "x \<in> listed K L \<or> (\<exists>c \<in> K. cur_task s c = x)" using x I(5) by (auto simp: people_def)
  then show ?thesis
  proof
    assume l: "x \<in> listed K L"
    then obtain pl where pl: "pl \<in> places K" "x \<in> set (L pl)" by (auto simp: listed_def)
    have "q = pl" if "q \<in> places K" "x \<in> set (L q)" for q
      using apartD [OF layout_apart [OF I(6)] pl(1) that(1) _ pl(2)] that(2) by blast
    moreover have "\<forall>c \<in> K. cur_task s c \<noteq> x" using F(5) l by auto
    ultimately show ?thesis using pl w I(3) unfolding states_fit_def by metis
  next
    assume "\<exists>c \<in> K. cur_task s c = x"
    then obtain c where c: "c \<in> K" "cur_task s c = x" by blast
    have "d = c" if "d \<in> K" "cur_task s d = x" for d using F(9) [OF that(1) c(1)] that(2) c(2) by simp
    moreover have "\<forall>pl \<in> places K. \<not> waits_at s pl x" using F(5) [OF c(1)] c(2) w not_listed by blast
    ultimately show ?thesis using c F(6) [OF c(1)] by blast
  qed
qed

lemma sched_runs_inv:
  assumes "(sched_step K)\<^sup>*\<^sup>* (s0, P0) (s, P)" "sched_inv K s0 L0 P0 {}"
  shows "\<exists>L. sched_inv K s L P {}"
  using assms
proof (induction "(s, P)" arbitrary: s P rule: rtranclp_induct)
  case base
  then show ?case by blast
next
  case (step y)
  obtain s1 P1 where y: "y = (s1, P1)" by (cases y)
  obtain L1 where "sched_inv K s1 L1 P1 {}" using step.hyps(3) [OF y step.prems] by blast
  then show ?case using sched_step_inv [of K s1 P1 s P] step.hyps(2) y by blast
qed


section \<open>Two CPUs\<close>

text \<open>
  Two CPUs, with their data at \<open>0x1000\<close> and \<open>0x1800\<close> and their idle tasks at \<open>0x2000\<close> and \<open>0x2800\<close>; the second runs the
  task at \<open>0x3000\<close> and the first is idle.
\<close>

definition duo_cpu :: "u64 \<Rightarrow> u64 \<Rightarrow> u64 \<Rightarrow> u64 \<Rightarrow> cpu_context" where
  "duo_cpu self i idl cur = zero_cpu\<lparr>c_self := self, c_cpu_id := i, c_rq_lock := spinlock_init, c_sleep_lock := spinlock_init,
     c_idle_task := idl, c_current_task := cur\<rparr>"

definition duo :: kernel_state where
  "duo = blank_kernel\<lparr>lapic_base := 0xFEE00000,
     cpus := (\<lambda>_. zero_cpu)(0x1000 := duo_cpu 0x1000 0 0x2000 0x2000, 0x1800 := duo_cpu 0x1800 1 0x2800 0x3000),
     cpu_table := (\<lambda>_. 0)(0 := 0x1000, 1 := 0x1800),
     msrs := (\<lambda>_ _. 0)(0 := (\<lambda>_. 0)(MSR_GS_BASE := 0x1000), 1 := (\<lambda>_. 0)(MSR_GS_BASE := 0x1800)),
     tasks := (\<lambda>_. zero_task)(
       0x2000 := zero_task\<lparr>t_tid := 1, t_state := TASK_RUNNING, t_priority := PRIO_IDLE\<rparr>,
       0x2800 := zero_task\<lparr>t_tid := 1, t_state := TASK_RUNNING, t_priority := PRIO_IDLE, t_cpu_id := 1\<rparr>,
       0x3000 := zero_task\<lparr>t_tid := 10, t_state := TASK_RUNNING, t_priority := PRIO_NORMAL, t_base_priority := PRIO_NORMAL, t_cpu_id := 1\<rparr>)\<rparr>"

definition env1 :: cpu_env where "env1 = \<lparr>g_lock_enabled = True, this_cpu = Some 1\<rparr>"

lemma env1_simps [simp]: "g_lock_enabled env1" "this_cpu env1 = Some 1" "env_ok env1" "core_of env1 = 1"
  by (simp_all add: env1_def env_ok_def core_of_def)

lemmas duo_defs = duo_def duo_cpu_def blank_kernel_def zero_cpu_def zero_task_def

lemma duo_on: "on_cpu {0x1000, 0x1800} env0 duo 0x1000" "on_cpu {0x1000, 0x1800} env1 duo 0x1800"
  by (simp_all add: on_cpu_def get_cpu_def duo_def)

lemma duo_inv: "sched_inv {0x1000, 0x1800} duo (\<lambda>_. []) {0x3000} {}"
proof -
  have "rq_level duo c p []" if "c \<in> {0x1000, 0x1800}" for c p using that by (auto simp: rq_level_def duo_defs)
  moreover have "c_sleeping_list (cpus duo c) = 0" if "c \<in> {0x1000, 0x1800}" for c using that by (auto simp: duo_defs)
  ultimately have "place_ok duo pl []" if "pl \<in> places {0x1000, 0x1800}" for pl using that by (cases pl) (auto simp: duo_def blank_kernel_def)
  then have "layout {0x1000, 0x1800} duo (\<lambda>_. [])" by (simp add: layout_def apart_def)
  moreover have "locks_idle {0x1000, 0x1800} duo" by (simp add: locks_idle_def duo_defs)
  moreover have "cpus_known {0x1000, 0x1800} duo" by (simp add: cpus_known_def duo_def)
  moreover have "cpus_fit {0x1000, 0x1800} duo (\<lambda>_. []) {}" by (simp add: cpus_fit_def listed_def duo_defs)
  moreover have "people {0x1000, 0x1800} duo (\<lambda>_. []) = {0x3000}" by (auto simp: people_def listed_def duo_defs)
  ultimately show ?thesis by (simp add: sched_inv_def settled_def states_fit_def) (simp add: duo_defs)
qed


section \<open>The operations end\<close>

lemma yield_ends:
  assumes "sched_inv K s L P {c}" "on_cpu K env s c" "lapic_base s \<noteq> 0"
  shows "\<exists>rsp s'. sched_yield env fr s = Inr (rsp, s')"
  using timer_interrupt_inv [OF assms(1) subset_refl assms(2), of fr] assms(3) by (auto simp: sched_yield_def)

lemma keyboard_ends:
  assumes inv: "sched_inv K s L P {}" and on: "on_cpu K env s c" and l: "lock_idle (kbd_lock (kbd s))"
  shows "\<exists>s'. ps2_keyboard_handler env s = Inr s'"
proof -
  have f: "spin_lock env (kbd_lock (kbd s)) = Inr (spin_locked env (kbd_lock (kbd s)))"
    using lock_idle_free [OF l on_cpu_env [OF on]] by (rule spin_lock_free)
  have w: "\<exists>s'. sched_wakeup env REASON_KEYBOARD (s\<lparr>io_trace := tr, kbd := k\<rparr>) = Inr s'" for tr k
    using sched_inv_wakeup [of K "s\<lparr>io_trace := tr, kbd := k\<rparr>" L P env c REASON_KEYBOARD] inv on
      sched_inv_same [of "s\<lparr>io_trace := tr, kbd := k\<rparr>" s K L P "{}"] on_cpu_same [of "s\<lparr>io_trace := tr, kbd := k\<rparr>" s K env c] by auto
  show ?thesis
    using w by (auto simp: ps2_keyboard_handler_def f inb_def Let_def split: prod.split option.split)
qed



section \<open>Work conservation\<close>



section \<open>A race between blocking and waking\<close>

lemma duo_K: "cur_task duo 0x1800 = 0x3000" "cur_task duo 0x1000 = 0x2000" "idle_of duo 0x1000 = 0x2000"
  by (simp_all add: duo_defs)

lemma duo_second: "keeps duo s \<Longrightarrow> get_cpu_by_id 1 s = 0x1800"
  by (simp add: keeps_def get_cpu_by_id_def word_le_nat_alt) (simp add: duo_def)

lemma duo_blocked:
  "\<exists>s1. sched_block_current env1 REASON_KEYBOARD duo = Inr s1 \<and> leads {0x1000, 0x1800} duo s1 ((\<lambda>_. [])(BlockQ := [0x3000])) {0x3000} \<and>
    t_wait_reason (tasks s1 0x3000) = REASON_KEYBOARD"
  using block_leads [OF sched_invD(1) [OF duo_inv] duo_on(2) duo_K(1), of REASON_KEYBOARD] by (auto simp: listed_def)

lemma duo_woken:
  "\<exists>s1 s2 L2. sched_block_current env1 REASON_KEYBOARD duo = Inr s1 \<and> sched_wakeup env0 REASON_KEYBOARD s1 = Inr s2 \<and>
    leads {0x1000, 0x1800} duo s2 L2 {0x3000} \<and> runnable {0x1000, 0x1800} L2 = {0x3000} \<and> L2 (RunQ 0x1800 1) = [0x3000]"
proof -
  let ?K = "{0x1000, 0x1800} :: u64 set" let ?L1 = "(\<lambda>_. [])(BlockQ := [0x3000]) :: place \<Rightarrow> u64 list"
  obtain s1 where s1: "sched_block_current env1 REASON_KEYBOARD duo = Inr s1" "leads ?K duo s1 ?L1 {0x3000}"
    "t_wait_reason (tasks s1 0x3000) = REASON_KEYBOARD" using duo_blocked by blast
  have k: "keeps duo s1" using s1(2) by (simp add: leads_def)
  have on: "on_cpu ?K env0 s1 0x1000" "cpus_known ?K s1"
    using on_cpu_keeps [OF duo_on(1) k] k by (simp_all add: cpus_known_def keeps_def duo_def)
  have W: "[0x3000] = filter (awaits s1 REASON_KEYBOARD) (?L1 BlockQ)" using s1(3) by simp
  define L2 where "L2 = deliver (wake_cpu env0 s1) (\<lambda>x. level_of (tasks s1 x)) (rev [0x3000]) (?L1(BlockQ := filter (\<lambda>x. \<not> awaits s1 REASON_KEYBOARD x) (?L1 BlockQ)))"
  obtain s2 where s2: "sched_wakeup env0 REASON_KEYBOARD s1 = Inr s2" "leads ?K s1 s2 L2 {0x3000}"
    using wakeup_leads [OF leads_settled [OF s1(2)] on W] unfolding L2_def [symmetric] list.set by blast
  have cid: "t_cpu_id (tasks s1 0x3000) = 1"
    using s1(1) by (auto simp: sched_block_current_def sched_get_current_def get_cpu_def cpu_at_def upd_task_def Let_def duo_defs)
  have "wake_cpu env0 s1 0x3000 = 0x1800" using duo_second [OF k] cid by (simp add: wake_cpu_def wakeup_target_def Let_def)
  moreover have "level_of (tasks s1 0x3000) = 1" using keeps_level [OF k, of "0x3000"] by (simp add: duo_def level_of_def prio_index_def)
  ultimately have L2: "L2 = (\<lambda>_. [])(RunQ 0x1800 1 := [0x3000])"
    using s1(3) unfolding L2_def by (auto simp: deliver_def fun_eq_iff split: place.split)
  have "leads ?K duo s2 L2 {0x3000}" using leads_trans [OF s1(2) s2(2)] by simp
  moreover have "runnable ?K L2 = {0x3000}" unfolding L2 by (auto simp: runnable_def split: if_splits)
  ultimately show ?thesis using s1(1) s2(1) L2 by auto
qed

text \<open>
  C32. Blocking and yielding are two calls, and between them a task is on the list of blocked tasks while its CPU still runs
  it. A task that waits for the keyboard on one CPU, an interrupt that wakes it on the other and the scheduler that runs there
  next lead to both CPUs running the same task: the waking CPU puts the task on the queue of the first CPU, finds itself idle
  and steals it.
\<close>

theorem blocked_task_runs_twice:
  "\<exists>s1 s2 rsp s3. sched_block_current env1 REASON_KEYBOARD duo = Inr s1 \<and> sched_wakeup env0 REASON_KEYBOARD s1 = Inr s2 \<and>
    schedule env0 0 s2 = Inr (rsp, s3) \<and> cur_task s3 0x1000 = 0x3000 \<and> cur_task s3 0x1800 = 0x3000"
proof -
  let ?K = "{0x1000, 0x1800} :: u64 set"
  obtain s1 s2 L2 where s: "sched_block_current env1 REASON_KEYBOARD duo = Inr s1" "sched_wakeup env0 REASON_KEYBOARD s1 = Inr s2"
    "leads ?K duo s2 L2 {0x3000}" "runnable ?K L2 = {0x3000}" "L2 (RunQ 0x1800 1) = [0x3000]" using duo_woken by blast
  have k: "keeps duo s2" and tc: "touches duo s2 {0x3000}" using s(3) by (simp_all add: leads_def)
  have on: "on_cpu ?K env0 s2 0x1000" "cpus_known ?K s2"
    using on_cpu_keeps [OF duo_on(1) k] k by (simp_all add: cpus_known_def keeps_def duo_def)
  have cu: "cur_task s2 0x1000 = 0x2000" "cur_task s2 0x1800 = 0x3000" "idle_of s2 0x1000 = 0x2000" using k by (simp_all add: keeps_def duo_K)
  have ng: "\<not> goes_on s2 0x2000" using touches_state(2) [OF tc, of "0x2000"] by (simp add: duo_def)
  have nw: "\<not> no_work 0x1000 s2 L2"
  proof
    assume "no_work 0x1000 s2 L2"
    then have ns: "\<forall>i \<in> set cpu_ids. get_cpu_by_id i s2 \<noteq> 0 \<and> get_cpu_by_id i s2 \<noteq> 0x1000 \<longrightarrow>
        (\<forall>p<3. \<forall>x \<in> set (L2 (RunQ (get_cpu_by_id i s2) p)). t_tid (tasks s2 x) < 10)"
      unfolding no_work_def none_to_steal_def by blast
    have one: "(1 :: u64) \<in> set cpu_ids" unfolding set_map by (rule image_eqI [of _ _ 1]) simp_all
    have "\<forall>p<3. \<forall>x \<in> set (L2 (RunQ 0x1800 p)). t_tid (tasks s2 x) < 10" using bspec [OF ns one] duo_second [OF k] by simp
    then have "t_tid (tasks s2 0x3000) < 10" using s(5) by (auto dest: spec [of _ 1])
    moreover have "t_tid (tasks s2 0x3000) = 10" using k by (simp add: keeps_def duo_def)
    ultimately show False by simp
  qed
  have ng': "goes_on s2 0x2000 \<longrightarrow> 0x2000 \<notin> listed ?K L2" using ng by blast
  have nz: "(0x2000 :: u64) \<noteq> 0" by simp
  obtain rsp s3 nxt L3 where r: "schedule env0 0 s2 = Inr (rsp, s3)" "switched s2 s3 0x1000 nxt"
    "nxt = 0x2000 \<and> runnable ?K L3 = {0x3000} \<and> no_work 0x1000 s2 L2 \<or> nxt \<in> {0x3000} \<and> runnable ?K L3 = {0x3000} - {nxt}"
    using schedule_leads [OF leads_settled [OF s(3)] on cu(1) nz ng' cu(3) nz refl, of 0] unfolding if_not_P [OF ng] s(4)
    by (elim exE conjE) (rule that)
  have "nxt = 0x3000" using r(3) nw by blast
  then have "cur_task s3 0x1000 = 0x3000" "cur_task s3 0x1800 = 0x3000" using r(2) cu(2) by (simp_all add: switched_def)
  then show ?thesis using s(1,2) r(1) by blast
qed

end
