(* ===== verification/Sched_Wake.thy ===== *)
theory Sched_Wake
  imports Sched_Runs
begin

text \<open>
  Sleeping and waking: the sleeping list is ordered by the time at which tasks are due, the timer wakes exactly the tasks that
  are due, and an event wakes exactly the tasks that wait for it.
\<close>

section \<open>The order of the sleeping list\<close>

definition sleep_order :: "'a sched_state_scheme \<Rightarrow> u64 list \<Rightarrow> bool" where
  "sleep_order s xs \<longleftrightarrow> sorted (map (\<lambda>x. t_sleep_until (tasks s x)) xs)"

lemma sleep_order_cong:
  "(\<And>x. x \<in> set xs \<Longrightarrow> t_sleep_until (tasks s' x) = t_sleep_until (tasks s x)) \<Longrightarrow> sleep_order s' xs = sleep_order s xs"
  by (simp add: sleep_order_def cong: map_cong)

lemma sleep_order_append:
  "sleep_order s (xs @ ys) \<longleftrightarrow> sleep_order s xs \<and> sleep_order s ys \<and>
     (\<forall>x \<in> set xs. \<forall>y \<in> set ys. t_sleep_until (tasks s x) \<le> t_sleep_until (tasks s y))"
  by (auto simp: sleep_order_def sorted_append)

lemma dropWhile_stops: "x \<in> set (dropWhile Q xs) \<Longrightarrow> \<exists>y ys. dropWhile Q xs = y # ys \<and> \<not> Q y"
  by (induction xs) (auto split: if_splits)

lemma sleep_order_later:
  assumes "sleep_order s xs" "x \<in> set (later s until xs)"
  shows "until \<le> t_sleep_until (tasks s x)"
proof -
  obtain y ys where l: "later s until xs = y # ys" "\<not> t_sleep_until (tasks s y) < until"
    using dropWhile_stops [OF assms(2) [unfolded later_def]] unfolding later_def by blast
  have "sleep_order s (y # ys)" using assms(1) due_later [of s until xs] sleep_order_append [of s "due s until xs" "later s until xs"] l by simp
  then show ?thesis using assms(2) l by (auto simp: sleep_order_def)
qed

lemma sleep_order_insert:
  assumes "sleep_order s xs" "t_sleep_until (tasks s t) = until"
  shows "sleep_order s (due s until xs @ t # later s until xs)"
proof -
  have "sleep_order s (due s until xs @ later s until xs)" using assms(1) by simp
  moreover have "\<forall>x \<in> set (due s until xs). t_sleep_until (tasks s x) < until" by (auto simp: due_def dest: set_takeWhileD)
  ultimately show ?thesis using sleep_order_later [OF assms(1), of _ until] assms(2)
    unfolding sleep_order_append by (auto simp: sleep_order_def)
qed

text \<open>
  C22. A task that goes to sleep is put into the sleeping list of its CPU so that the list stays ordered by the time at which
  its tasks are due, and nothing else moves; the time is the uptime plus the requested number of milliseconds, modulo
  \<open>2 ^ 64\<close>.
\<close>

theorem sleep_keeps_order:
  assumes st: "settled K s L" "on_cpu K env s c" and cur: "cur_task s c = t" "t \<noteq> 0" "t \<notin> listed K L"
    and ord: "sleep_order s (L (SleepQ c))"
  shows "\<exists>s' xs. sched_make_task_sleep env ms s = Inr s' \<and> settled K s' (L(SleepQ c := xs)) \<and> sleep_order s' xs \<and>
    mset xs = add_mset t (mset (L (SleepQ c))) \<and> t_state (tasks s' t) = TASK_SLEEPING \<and>
    t_sleep_until (tasks s' t) = system_uptime_ms s + ms \<and> (\<forall>x. x \<noteq> t \<longrightarrow> t_sleep_until (tasks s' x) = t_sleep_until (tasks s x))"
proof -
  let ?u = "system_uptime_ms s + ms" let ?xs = "due s ?u (L (SleepQ c)) @ t # later s ?u (L (SleepQ c))"
  obtain s' where s': "sched_make_task_sleep env ms s = Inr s'" "leads K s s' (L(SleepQ c := ?xs)) {t}"
    "t_state (tasks s' t) = TASK_SLEEPING" "t_sleep_until (tasks s' t) = ?u"
    using make_sleep_leads [OF st cur refl] by blast
  have same: "t_sleep_until (tasks s' x) = t_sleep_until (tasks s x)" if "x \<noteq> t" for x
    using s'(2) touches_state(4) [of s s' "{t}" x] that by (simp add: leads_def)
  have "t \<notin> set (L (SleepQ c))" using not_listed [OF cur(3), of "SleepQ c"] st(2) by (simp add: on_cpu_def)
  then have "t_sleep_until (tasks s' x) = t_sleep_until (tasks s x)" if "x \<in> set (L (SleepQ c))" for x using same that by metis
  then have "due s ?u (L (SleepQ c)) = due s' ?u (L (SleepQ c))" "later s ?u (L (SleepQ c)) = later s' ?u (L (SleepQ c))"
    "sleep_order s' (L (SleepQ c))"
    using ord sleep_order_cong [of "L (SleepQ c)" s' s] by (auto simp: due_def later_def intro!: takeWhile_cong dropWhile_cong)
  then have "sleep_order s' ?xs" using sleep_order_insert [of s' "L (SleepQ c)" t ?u] s'(4) by simp
  moreover have "mset ?xs = add_mset t (mset (L (SleepQ c)))"
    by (metis due_later mset_append mset.simps(2) union_mset_add_mset_right)
  ultimately show ?thesis using s' same leads_settled [OF s'(2)] by blast
qed

theorem sleep_keeps_order_witness:
  "\<exists>s' xs. sched_make_task_sleep env1 20 duo = Inr s' \<and> settled {0x1000, 0x1800} s' ((\<lambda>_. [])(SleepQ 0x1800 := xs)) \<and>
    t_sleep_until (tasks s' 0x3000) = 20"
proof -
  have "system_uptime_ms duo = 0" by (simp add: duo_defs)
  then show ?thesis
    using sleep_keeps_order [OF sched_invD(1) [OF duo_inv] duo_on(2) duo_K(1), of 20] by (auto simp: listed_def sleep_order_def)
qed

section \<open>The timer\<close>

lemma expired_filter:
  assumes "sleep_order s xs"
  shows "takeWhile (expired s now) xs = filter (expired s now) xs"
    and "dropWhile (expired s now) xs = filter (\<lambda>x. now < t_sleep_until (tasks s x)) xs"
proof -
  have "\<not> expired s now x" if m: "x \<in> set (dropWhile (expired s now) xs)" for x
  proof -
    obtain y ys where l: "dropWhile (expired s now) xs = y # ys" "\<not> expired s now y" using dropWhile_stops [OF m] by blast
    have "sleep_order s (y # ys)"
      using assms sleep_order_append [of s "takeWhile (expired s now) xs" "y # ys"] takeWhile_dropWhile_id [of "expired s now" xs] l(1) by metis
    then show ?thesis using that l by (auto simp: sleep_order_def)
  qed
  then show eq: "takeWhile (expired s now) xs = filter (expired s now) xs" by (rule takeWhile_eq_filter)
  show "dropWhile (expired s now) xs = filter (\<lambda>x. now < t_sleep_until (tasks s x)) xs"
    using assms by (induction xs) (auto simp: sleep_order_def not_le intro!: filter_True [symmetric])
qed

text \<open>
  C20. The timer wakes exactly the sleepers that are due. \<^verbatim>\<open>sched_update_sleepers\<close> takes from the sleeping list of its CPU the
  tasks whose time has come, makes them ready and puts them behind the tasks of their level, the latest first; those
  whose time has not come stay, in their order.
\<close>

theorem sleepers_woken_when_due:
  assumes st: "settled K s L" "on_cpu K env s c" and ord: "sleep_order s (L (SleepQ c))" and now: "now = system_uptime_ms s"
  shows "\<exists>s' L'. sched_update_sleepers env s = Inr s' \<and> settled K s' L' \<and>
    L' (SleepQ c) = filter (\<lambda>x. now < t_sleep_until (tasks s x)) (L (SleepQ c)) \<and>
    (\<forall>p. L' (RunQ c p) = L (RunQ c p) @ rev (filter (\<lambda>x. t_sleep_until (tasks s x) \<le> now \<and> level_of (tasks s x) = p) (L (SleepQ c)))) \<and>
    (\<forall>x \<in> set (L (SleepQ c)). t_sleep_until (tasks s x) \<le> now \<longrightarrow> t_state (tasks s' x) = TASK_READY)"
proof -
  let ?xs = "L (SleepQ c)" let ?W = "filter (expired s now) ?xs" let ?ys = "filter (\<lambda>x. now < t_sleep_until (tasks s x)) ?xs"
  let ?L = "deliver (\<lambda>_. c) (\<lambda>x. level_of (tasks s x)) (rev ?W) (L(SleepQ c := ?ys))"
  obtain s' where s': "sched_update_sleepers env s = Inr s'" "leads K s s' ?L (set ?W)" "\<forall>x \<in> set ?W. t_state (tasks s' x) = TASK_READY"
    using update_sleepers_leads [OF st refl now] unfolding expired_filter [OF ord] by blast
  have "?L (SleepQ c) = ?ys" by (simp add: deliver_def)
  moreover have "?L (RunQ c p) = L (RunQ c p) @ rev (filter (\<lambda>x. t_sleep_until (tasks s x) \<le> now \<and> level_of (tasks s x) = p) ?xs)" for p
    by (simp add: deliver_def rev_filter [symmetric] conj_commute)
  ultimately show ?thesis using s'(1,3) leads_settled [OF s'(2)] by auto
qed

theorem sleepers_woken_when_due_witness:
  "\<exists>s' L'. sched_update_sleepers env0 duo = Inr s' \<and> settled {0x1000, 0x1800} s' L' \<and> L' (SleepQ 0x1000) = []"
  using sleepers_woken_when_due [OF sched_invD(1) [OF duo_inv] duo_on(1) _ refl] by (auto simp: sleep_order_def)

section \<open>Events\<close>

text \<open>
  C21. An event wakes exactly the tasks that wait for it: \<^verbatim>\<open>sched_wakeup\<close> leaves on the list of blocked tasks those that wait
  for something else, in their order, and puts each of the others, made ready, on the queue of its level of the CPU it last
  ran on or, if there is none, of the waking CPU.
\<close>

theorem wakeup_wakes_waiting:
  assumes "settled K s L" "on_cpu K env s c" "cpus_known K s"
  shows "\<exists>s' L'. sched_wakeup env reason s = Inr s' \<and> settled K s' L' \<and>
    L' BlockQ = filter (\<lambda>x. t_wait_reason (tasks s x) \<noteq> reason) (L BlockQ) \<and>
    (\<forall>d p. L' (RunQ d p) = L (RunQ d p) @ rev (filter (\<lambda>x. t_wait_reason (tasks s x) = reason \<and>
       wakeup_target env (tasks s x) s = d \<and> level_of (tasks s x) = p) (L BlockQ))) \<and>
    (\<forall>x \<in> set (L BlockQ). t_wait_reason (tasks s x) = reason \<longrightarrow> t_state (tasks s' x) = TASK_READY)"
proof -
  let ?W = "filter (awaits s reason) (L BlockQ)" let ?ys = "filter (\<lambda>x. \<not> awaits s reason x) (L BlockQ)"
  let ?L = "deliver (wake_cpu env s) (\<lambda>x. level_of (tasks s x)) (rev ?W) (L(BlockQ := ?ys))"
  obtain s' where s': "sched_wakeup env reason s = Inr s'" "leads K s s' ?L (set ?W)" "\<forall>x \<in> set ?W. t_state (tasks s' x) = TASK_READY"
    using wakeup_leads [OF assms refl, of reason] by blast
  have "?L BlockQ = ?ys" by (simp add: deliver_def)
  moreover have "?L (RunQ d p) = L (RunQ d p) @ rev (filter (\<lambda>x. t_wait_reason (tasks s x) = reason \<and>
      wakeup_target env (tasks s x) s = d \<and> level_of (tasks s x) = p) (L BlockQ))" for d p
    by (simp add: deliver_def rev_filter [symmetric] wake_cpu_def conj_ac)
  ultimately show ?thesis using s'(1,3) leads_settled [OF s'(2)] by auto
qed

theorem wakeup_wakes_waiting_witness:
  "\<exists>s' L'. sched_wakeup env0 REASON_KEYBOARD duo = Inr s' \<and> settled {0x1000, 0x1800} s' L' \<and> L' BlockQ = []"
  using wakeup_wakes_waiting [OF sched_invD(1) [OF duo_inv] duo_on(1) sched_invD(2) [OF duo_inv], of REASON_KEYBOARD] by auto

end
