(* ===== verification/Std_Funcs.thy ===== *)
theory Std_Funcs
  imports Slab
begin

text \<open>
  The string and memory routines of \<^verbatim>\<open>common/std_funcs.c\<close>, on a memory of bytes. Routines that only read take what
  their pointers point at as functions from the index to the byte there, so that a string literal can be
  passed as well as a place in memory; routines that write take and return the memory. The last section says how
  the kernel's word memory is seen as bytes.
\<close>

type_synonym bytes = "u64 \<Rightarrow> u8"

text \<open>A pointer into memory and a string literal, as what can be read through them.\<close>

definition at_ptr :: "bytes \<Rightarrow> u64 \<Rightarrow> bytes" where
  "at_ptr m p = (\<lambda>i. m (p + i))"

definition literal :: "string \<Rightarrow> bytes" where
  "literal cs = (\<lambda>i. if unat i < length cs then of_char (cs ! unat i) else 0)"

section \<open>Memory blocks\<close>

function memcmp_from :: "u64 \<Rightarrow> bytes \<Rightarrow> bytes \<Rightarrow> u64 \<Rightarrow> int" where
  "memcmp_from i p1 p2 n =
     (if i < n then if p1 i \<noteq> p2 i then (if p1 i < p2 i then -1 else 1) else memcmp_from (i + 1) p1 p2 n else 0)"
  by pat_completeness auto
termination
  by (relation "measure (\<lambda>(i, p1, p2, n). unat (n - i))") (auto simp: unat_gt_0 measure_unat diff_diff_eq [symmetric])

definition memcmp :: "bytes \<Rightarrow> bytes \<Rightarrow> u64 \<Rightarrow> int" where
  "memcmp s1 s2 n = memcmp_from 0 s1 s2 n"

function memset :: "u64 \<Rightarrow> u8 \<Rightarrow> u64 \<Rightarrow> bytes \<Rightarrow> bytes" where
  "memset p ch count m = (if count = 0 then m else memset (p + 1) ch (count - 1) (m(p := ch)))"
  by pat_completeness auto
termination
  by (relation "measure (\<lambda>(p, ch, count, m). unat count)") (auto simp: measure_unat)

function memcpy :: "u64 \<Rightarrow> u64 \<Rightarrow> u64 \<Rightarrow> bytes \<Rightarrow> bytes" where
  "memcpy d s n m = (if n = 0 then m else memcpy (d + 1) (s + 1) (n - 1) (m(d := m s)))"
  by pat_completeness auto
termination
  by (relation "measure (\<lambda>(d, s, n, m). unat n)") (auto simp: measure_unat)

section \<open>Strings\<close>

text \<open>These loops end only at a terminator.\<close>

partial_function (option) strcpy :: "u64 \<Rightarrow> u64 \<Rightarrow> bytes \<Rightarrow> bytes option" where
  "strcpy d src m = (let m1 = m(d := m src) in if m src = 0 then Some m1 else strcpy (d + 1) (src + 1) m1)"

partial_function (option) strcmp_from :: "u64 \<Rightarrow> bytes \<Rightarrow> bytes \<Rightarrow> int option" where
  "strcmp_from i s1 s2 =
     (if s1 i \<noteq> 0 \<and> s1 i = s2 i then strcmp_from (i + 1) s1 s2 else Some (uint (s1 i) - uint (s2 i)))"

definition strcmp :: "bytes \<Rightarrow> bytes \<Rightarrow> int option" where
  "strcmp s1 s2 = strcmp_from 0 s1 s2"

partial_function (option) strlen_from :: "u64 \<Rightarrow> bytes \<Rightarrow> u64 option" where
  "strlen_from len s = (if s len \<noteq> 0 then strlen_from (len + 1) s else Some len)"

definition strlen :: "bytes \<Rightarrow> u64 option" where
  "strlen s = strlen_from 0 s"

function strncpy_pad :: "u64 \<Rightarrow> u64 \<Rightarrow> u64 \<Rightarrow> bytes \<Rightarrow> bytes" where
  "strncpy_pad i dest n m = (if i < n then strncpy_pad (i + 1) dest n (m(dest + i := 0)) else m)"
  by pat_completeness auto
termination
  by (relation "measure (\<lambda>(i, dest, n, m). unat (n - i))")
    (auto simp: unat_gt_0 measure_unat diff_diff_eq [symmetric])

function strncpy_from :: "u64 \<Rightarrow> u64 \<Rightarrow> u64 \<Rightarrow> u64 \<Rightarrow> bytes \<Rightarrow> bytes" where
  "strncpy_from i dest src n m =
     (if i < n \<and> m (src + i) \<noteq> 0 then strncpy_from (i + 1) dest src n (m(dest + i := m (src + i)))
      else strncpy_pad i dest n m)"
  by pat_completeness auto
termination
  by (relation "measure (\<lambda>(i, dest, src, n, m). unat (n - i))")
    (auto simp: unat_gt_0 measure_unat diff_diff_eq [symmetric])

definition strncpy :: "u64 \<Rightarrow> u64 \<Rightarrow> u64 \<Rightarrow> bytes \<Rightarrow> bytes" where
  "strncpy dest src n m = strncpy_from 0 dest src n m"

declare memcmp_from.simps [simp del] memset.simps [simp del] memcpy.simps [simp del]
  strncpy_pad.simps [simp del] strncpy_from.simps [simp del]

section \<open>The kernel's memory as bytes\<close>

text \<open>
  Physical memory is kept as the 64-bit words at the addresses that are multiples of 8; bytes are little-endian in
  their word. A kernel pointer \<open>p\<close> reaches the byte at \<open>ptr_phys s p\<close>.
\<close>

definition word_byte :: "u64 \<Rightarrow> u64 \<Rightarrow> u8" where
  "word_byte w k = ucast (drop_bit (8 * unat k) w)"

definition kbytes :: "'a vmm_state_scheme \<Rightarrow> bytes" where
  "kbytes s p = (let a = ptr_phys s p in word_byte (pt_mem s (a AND NOT 7)) (a AND 7))"

definition join_bytes :: "u8 list \<Rightarrow> u64" where
  "join_bytes bs = foldr (\<lambda>b w. ucast b OR push_bit 8 w) bs 0"

text \<open>The pointer that reaches a physical address.\<close>

definition phys_ptr :: "'a vmm_state_scheme \<Rightarrow> u64 \<Rightarrow> u64" where
  "phys_ptr s a = (if kernel_pml4 s = 0 then a else a + HHDM_OFFSET)"

definition upd_kbytes :: "(bytes \<Rightarrow> bytes) \<Rightarrow> 'a vmm_state_scheme \<Rightarrow> 'a vmm_state_scheme" where
  "upd_kbytes f s =
     (let m = f (kbytes s)
      in s\<lparr>pt_mem := (\<lambda>a. if a AND 7 = 0 then join_bytes (map (\<lambda>k. m (phys_ptr s (a + k))) [0, 1, 2, 3, 4, 5, 6, 7])
                         else pt_mem s a)\<rparr>)"

text \<open>Fields of packed structures, in little-endian order.\<close>

definition load_u8 :: "'a vmm_state_scheme \<Rightarrow> u64 \<Rightarrow> u64 \<Rightarrow> u8 res" where
  "load_u8 s p off = (if p = 0 then Inl NullDeref else Inr (kbytes s (p + off)))"

definition load_u16 :: "'a vmm_state_scheme \<Rightarrow> u64 \<Rightarrow> u64 \<Rightarrow> u16 res" where
  "load_u16 s p off =
     (if p = 0 then Inl NullDeref else Inr (ucast (join_bytes (map (\<lambda>k. kbytes s (p + off + k)) [0, 1]))))"

definition load_u32 :: "'a vmm_state_scheme \<Rightarrow> u64 \<Rightarrow> u64 \<Rightarrow> u32 res" where
  "load_u32 s p off =
     (if p = 0 then Inl NullDeref else Inr (ucast (join_bytes (map (\<lambda>k. kbytes s (p + off + k)) [0, 1, 2, 3]))))"

definition load_u64 :: "'a vmm_state_scheme \<Rightarrow> u64 \<Rightarrow> u64 \<Rightarrow> u64 res" where
  "load_u64 s p off =
     (if p = 0 then Inl NullDeref
      else Inr (join_bytes (map (\<lambda>k. kbytes s (p + off + k)) [0, 1, 2, 3, 4, 5, 6, 7])))"

end
