(* ===== verification/Std_Funcs_Proofs.thy ===== *)
theory Std_Funcs_Proofs
  imports Std_Funcs
begin

text \<open>
  What the routines of \<^verbatim>\<open>common/std_funcs.c\<close> compute, in closed form, and how they act on the kernel's memory.
\<close>

section \<open>Memory blocks\<close>

lemma pred_less_iff: "(x :: 'a::len word) \<noteq> 0 \<Longrightarrow> n \<noteq> 0 \<Longrightarrow> x - 1 < n - 1 \<longleftrightarrow> x < n"
  using unat_gt_0 [of x] unat_gt_0 [of n] by (simp add: word_less_nat_alt unat_minus_one) arith

lemma in_block_step: "n \<noteq> 0 \<Longrightarrow> a - p < (n :: u64) \<longleftrightarrow> a = p \<or> a - (p + 1) < n - 1 \<and> a \<noteq> p"
  using pred_less_iff [of "a - p" n] by (auto simp: diff_diff_eq word_gt_0)

lemma memset_eq: "memset p ch n m = (\<lambda>a. if a - p < n then ch else m a)"
proof (induction p ch n m rule: memset.induct)
  case (1 p ch count m)
  show ?case
  proof (cases "count = 0")
    case False
    show ?thesis
      by (rule ext, subst memset.simps) (simp add: False 1 in_block_step [OF False, of _ p])
  qed (simp add: memset.simps)
qed

text \<open>A copy upwards is right unless the destination starts inside the source.\<close>

definition copy_safe :: "u64 \<Rightarrow> u64 \<Rightarrow> u64 \<Rightarrow> bool" where
  "copy_safe d s n \<longleftrightarrow> d = s \<or> n \<le> d - s"

lemma memcpy_eq: "copy_safe d s n \<Longrightarrow> memcpy d s n m = (\<lambda>a. if a - d < n then m (s + (a - d)) else m a)"
proof (induction d s n m rule: memcpy.induct)
  case (1 d s n m)
  show ?case
  proof (cases "n = 0")
    case False
    have "n - 1 \<le> n" using False by (simp add: word_le_nat_alt unat_minus_one)
    then have safe: "copy_safe (d + 1) (s + 1) (n - 1)" using 1(2) by (auto simp: copy_safe_def)
    have src: "s + (a - d) \<noteq> d" if "a \<noteq> d" "a - d < n" for a
    proof
      assume "s + (a - d) = d"
      then have "d - s = a - d" by (simp add: algebra_simps)
      with 1(2) that show False by (auto simp: copy_safe_def)
    qed
    have shift: "s + 1 + (a - (d + 1)) = s + (a - d)" for a by simp
    show ?thesis
    proof
      fix a
      show "memcpy d s n m a = (if a - d < n then m (s + (a - d)) else m a)"
        using src [of a]
        by (subst memcpy.simps) (auto simp: False 1(1) [OF False safe] shift in_block_step [OF False, of a d])
    qed
  qed (simp add: memcpy.simps)
qed

lemma memcmp_from_eq: "memcmp_from i p1 p2 n = 0 \<longleftrightarrow> (\<forall>k. i \<le> k \<and> k < n \<longrightarrow> p1 k = p2 k)"
proof (induction i p1 p2 n rule: memcmp_from.induct)
  case (1 i p1 p2 n)
  have "i \<le> k \<longleftrightarrow> k = i \<or> i + 1 \<le> k" if "i < n" for k
    using word_step_Suc [OF that] by (auto simp: word_le_nat_alt word_eq_unat)
  then show ?case using 1 by (subst memcmp_from.simps) auto
qed

lemma memcmp_eq: "memcmp p1 p2 n = 0 \<longleftrightarrow> (\<forall>k < n. p1 k = p2 k)"
  by (simp add: memcmp_def memcmp_from_eq)

section \<open>Strings\<close>

text \<open>\<open>cstr f i bs\<close>: reading through \<open>f\<close> from index \<open>i\<close> gives the bytes \<open>bs\<close> and then a terminator.\<close>

primrec cstr :: "bytes \<Rightarrow> u64 \<Rightarrow> u8 list \<Rightarrow> bool" where
  "cstr f i [] \<longleftrightarrow> f i = 0"
| "cstr f i (b # bs) \<longleftrightarrow> f i = b \<and> b \<noteq> 0 \<and> cstr f (i + 1) bs"

lemma cstr_unique: "cstr f i xs \<Longrightarrow> cstr f i ys \<Longrightarrow> xs = ys"
proof (induction xs arbitrary: i ys)
  case Nil
  then show ?case by (cases ys) auto
next
  case (Cons x xs)
  then show ?case by (cases ys) auto
qed

lemma unat_of_char: "unat (of_char c :: u8) = of_char c"
  using nat_of_char_less_256 [of c] unat_of_nat [of "of_char c", where 'a = 8]
  by (simp add: of_nat_of_char)

lemma of_char_zero: "(of_char c :: u8) = 0 \<longleftrightarrow> c = CHR 0x00"
  using of_char_eq_iff [of c "CHR 0x00", where 'a = nat] by (simp add: word_eq_unat unat_of_char)

lemma cstr_literal:
  "n \<le> length cs \<Longrightarrow> CHR 0x00 \<notin> set cs \<Longrightarrow> length cs < 2 ^ 64 \<Longrightarrow>
     cstr (literal cs) (of_nat n) (map of_char (drop n cs))"
proof (induction "length cs - n" arbitrary: n)
  case 0
  then show ?case by (simp add: literal_def unat_of_nat)
next
  case (Suc d)
  then have n: "n < length cs" by simp
  have "(of_char (cs ! n) :: u8) \<noteq> 0"
    using nth_mem [OF n] Suc(4) by (auto simp: of_char_zero simp del: of_char_Char)
  moreover have "cstr (literal cs) (of_nat (Suc n)) (map of_char (drop (Suc n) cs))" using Suc n by (intro Suc(1)) auto
  moreover have "drop n cs = cs ! n # drop (Suc n) cs" using n by (simp add: Cons_nth_drop_Suc)
  moreover have "literal cs (of_nat n) = of_char (cs ! n)" using n Suc(5) by (simp add: literal_def unat_of_nat)
  ultimately show ?case by (simp add: add.commute)
qed

lemma strlen_from_eq: "cstr f i bs \<Longrightarrow> strlen_from i f = Some (i + of_nat (length bs))"
  by (induction bs arbitrary: i) (simp_all add: strlen_from.simps ac_simps)

lemma strlen_eq: "cstr f 0 bs \<Longrightarrow> strlen f = Some (of_nat (length bs))"
  using strlen_from_eq [of f 0 bs] by (simp add: strlen_def)

text \<open>The sign of \<^verbatim>\<open>strcmp\<close> is the order of the strings, a shorter one first.\<close>

abbreviation byte_order :: "(u8 \<times> u8) set" where "byte_order \<equiv> {(a, b). a < b}"

definition cmp_sign :: "u8 list \<Rightarrow> u8 list \<Rightarrow> int \<Rightarrow> bool" where
  "cmp_sign xs ys r \<longleftrightarrow> (r = 0 \<longleftrightarrow> xs = ys) \<and> (r < 0 \<longleftrightarrow> (xs, ys) \<in> lexord byte_order)"

lemma uint_pos: "(w :: u8) \<noteq> 0 \<Longrightarrow> 0 < uint w"
  using uint_ge_0 [of w] by (simp add: order_le_less uint_0_iff eq_commute [of "0 :: int"])

lemma strcmp_from_eq: "cstr f i xs \<Longrightarrow> cstr g i ys \<Longrightarrow> \<exists>r. strcmp_from i f g = Some r \<and> cmp_sign xs ys r"
proof (induction xs arbitrary: i ys)
  case Nil
  then show ?case
    by (cases ys) (auto simp: strcmp_from.simps [of i] cmp_sign_def word_less_def uint_0_iff uint_pos)
next
  case (Cons x xs)
  show ?case
  proof (cases ys)
    case Nil
    with Cons show ?thesis
      by (auto simp: strcmp_from.simps [of i] cmp_sign_def word_less_def uint_0_iff uint_pos)
  next
    case ys: (Cons y ys')
    show ?thesis
    proof (cases "x = y")
      case True
      obtain r where "strcmp_from (i + 1) f g = Some r" "cmp_sign xs ys' r"
        using Cons.IH [of "i + 1" ys'] Cons.prems ys by auto
      then show ?thesis using Cons.prems ys True by (auto simp: strcmp_from.simps [of i] cmp_sign_def)
    next
      case False
      then show ?thesis using Cons.prems ys
        by (auto simp: strcmp_from.simps [of i] cmp_sign_def word_less_def dest: word_uint_eqI)
    qed
  qed
qed

lemma strcmp_eq: "cstr f 0 xs \<Longrightarrow> cstr g 0 ys \<Longrightarrow> \<exists>r. strcmp f g = Some r \<and> cmp_sign xs ys r"
  unfolding strcmp_def by (rule strcmp_from_eq)

text \<open>\<^verbatim>\<open>strncpy\<close> copies at most \<open>n\<close> bytes and fills the rest with zeros; it writes no terminator if there is no room.\<close>

lemma strncpy_pad_eq:
  "i \<le> n \<Longrightarrow> strncpy_pad i dest n m = (\<lambda>a. if i \<le> a - dest \<and> a - dest < n then 0 else m a)"
proof (induction i dest n m rule: strncpy_pad.induct)
  case (1 i dest n m)
  show ?case
  proof (cases "i < n")
    case True
    have "i + 1 \<le> n" using word_step_Suc [OF True] True by (simp add: word_le_nat_alt word_less_nat_alt)
    then have rest: "strncpy_pad i dest n m = (\<lambda>a. if i + 1 \<le> a - dest \<and> a - dest < n then 0 else (m(dest + i := 0)) a)"
      by (subst strncpy_pad.simps) (simp only: 1(1) [OF True] True if_True)
    show ?thesis
    proof
      fix a
      have "i \<le> a - dest \<longleftrightarrow> a - dest = i \<or> i + 1 \<le> a - dest"
        using word_step_Suc [OF True] by (auto simp: word_le_nat_alt word_eq_unat)
      moreover have "a - dest = i \<longleftrightarrow> a = dest + i" by (auto simp: algebra_simps)
      ultimately show "strncpy_pad i dest n m a = (if i \<le> a - dest \<and> a - dest < n then 0 else m a)"
        using True by (auto simp: rest)
    qed
  next
    case False
    with 1(2) have "i = n" by simp
    then show ?thesis by (subst strncpy_pad.simps) (auto simp: fun_eq_iff dest: leD)
  qed
qed


section \<open>The kernel's memory as bytes\<close>

lemma bit_join_bytes:
  "bit (join_bytes bs) i \<longleftrightarrow> i < 64 \<and> i div 8 < length bs \<and> bit (bs ! (i div 8)) (i mod 8)"
proof (induction bs arbitrary: i)
  case (Cons b bs)
  show ?case
  proof (cases "i < 8")
    case True
    then show ?thesis by (simp add: join_bytes_def bit_or_iff bit_ucast_iff bit_push_bit_iff)
  next
    case False
    then obtain j where "i = j + 8" by (metis add.commute le_Suc_ex not_less)
    moreover have "(j + 8) div 8 = Suc (j div 8)" by simp
    ultimately show ?thesis using Cons [of j] bit_imp_le_length [of b "j + 8"]
      by (auto simp: join_bytes_def bit_or_iff bit_ucast_iff bit_push_bit_iff dest: bit_imp_le_length)
  qed
qed (simp add: join_bytes_def)

lemma bit_word_byte: "unat k < 8 \<Longrightarrow> bit (word_byte w k) i \<longleftrightarrow> i < 8 \<and> bit w (8 * unat k + i)"
  by (auto simp: word_byte_def bit_ucast_iff bit_drop_bit_eq ac_simps dest: bit_imp_le_length)

lemma word_byte_join:
  assumes "length bs = 8" and "unat k < 8"
  shows "word_byte (join_bytes bs) k = bs ! unat k"
proof (rule bit_word_eqI)
  fix i assume "i < LENGTH(8)"
  then have i: "i < 8" by simp
  have "(8 * unat k + i) div 8 = unat k" "(8 * unat k + i) mod 8 = i" using i by simp_all
  then show "bit (word_byte (join_bytes bs) k) i = bit (bs ! unat k) i"
    using assms i by (simp add: bit_word_byte bit_join_bytes)
qed

lemma and_7: "(a :: u64) AND 7 = take_bit 3 a"
  by (simp add: take_bit_eq_mask mask_eq_exp_minus_1)

lemma unat_and_7: "unat ((a :: u64) AND 7) = unat a mod 8"
  by (simp add: and_7 unat_take_bit_mod del: take_bit_eq_mod)

lemma and_7_less [simp]: "unat ((a :: u64) AND 7) < 8"
  by (simp add: unat_and_7)

lemma align8_split [simp]: "((a :: u64) AND - 8) + (a AND 7) = a"
  using and_not_eq_diff [of a 7] by simp

lemma align8_and_7 [simp]: "((a :: u64) AND - 8) AND 7 = 0"
  by (simp add: and.assoc)

lemma phys_ptr_phys [simp]: "phys_ptr s (ptr_phys s p) = p"
  by (simp add: phys_ptr_def ptr_phys_def)

lemma ptr_phys_ptr [simp]: "ptr_phys s (phys_ptr s a) = a"
  by (simp add: phys_ptr_def ptr_phys_def)

lemma nth_oct: "k < 8 \<Longrightarrow> [0, 1, 2, 3, 4, 5, 6, 7 :: u64] ! k = of_nat k"
  by (simp add: less_Suc_eq numeral_eq_Suc) (auto simp: numeral_eq_Suc)

lemma word_byte_map:
  assumes "unat k < 8"
  shows "word_byte (join_bytes (map g [0, 1, 2, 3, 4, 5, 6, 7])) k = g k"
proof -
  have "word_byte (join_bytes (map g [0, 1, 2, 3, 4, 5, 6, 7])) k = map g [0, 1, 2, 3, 4, 5, 6, 7] ! unat k"
    using assms by (intro word_byte_join) simp_all
  also have "\<dots> = g ([0, 1, 2, 3, 4, 5, 6, 7] ! unat k)" using assms by (intro nth_map) simp
  also have "\<dots> = g k" using assms by (simp add: nth_oct del: nth_Cons_numeral)
  finally show ?thesis .
qed

text \<open>Updating the memory through its bytes does what it says.\<close>

lemma kbytes_upd [simp]: "kbytes (upd_kbytes f s) = f (kbytes s)"
proof
  fix p
  let ?a = "ptr_phys s p" and ?m = "f (kbytes s)"
  have "kbytes (upd_kbytes f s) p =
      word_byte (join_bytes (map (\<lambda>k. ?m (phys_ptr s ((?a AND - 8) + k))) [0, 1, 2, 3, 4, 5, 6, 7])) (?a AND 7)"
    by (simp add: kbytes_def upd_kbytes_def ptr_phys_def Let_def)
  also have "\<dots> = ?m (phys_ptr s ((?a AND - 8) + (?a AND 7)))" by (rule word_byte_map) simp
  also have "\<dots> = ?m p" by simp
  finally show "kbytes (upd_kbytes f s) p = f (kbytes s) p" .
qed

text \<open>Offsets from a word-aligned pointer.\<close>

lemma aligned_mod_8: "(a :: u64) AND 7 = 0 \<longleftrightarrow> unat a mod 8 = 0"
  by (simp add: word_eq_unat unat_and_7)

lemma aligned_diff:
  assumes "(a :: u64) AND 7 = 0" and "b AND 7 = 0"
  shows "8 dvd unat (a - b)"
proof -
  have "8 dvd unat a" "8 dvd unat b" using assms by (simp_all add: aligned_mod_8 mod_0_imp_dvd)
  then show ?thesis by (auto simp: unat_sub_if_size word_size intro!: dvd_diff_nat dvd_add)
qed

lemma align8_offset:
  assumes "(p :: u64) AND 7 = 0"
  shows "unat ((a AND - 8) - p) mod 8 = 0" and "unat (a - p) = unat ((a AND - 8) - p) + unat (a AND 7)"
proof -
  let ?d = "(a AND - 8) - p"
  have "8 dvd unat ?d" using assms by (intro aligned_diff) simp_all
  then obtain j where j: "unat ?d = 8 * j" by (rule dvdE)
  then show "unat ?d mod 8 = 0" by simp
  have "unat ?d + unat (a AND 7) < 2 ^ 64" using unat_u64_less [of ?d] and_7_less [of a] unfolding j by (simp del: and_7_less)
  then have "unat (?d + (a AND 7)) = unat ?d + unat (a AND 7)" by (intro unat_add_no_overflow) simp
  moreover have "?d + (a AND 7) = a - p" using align8_split [of a] by (simp add: algebra_simps)
  ultimately show "unat (a - p) = unat ?d + unat (a AND 7)" by simp
qed

text \<open>
  The clearing of memory the allocators use, which works on whole words, is the byte loop \<^verbatim>\<open>memset\<close>.
\<close>

lemma memset_zero_kbytes:
  assumes "p \<noteq> 0" and "p AND 7 = 0"
  shows "\<exists>s'. memset_zero p n s = Inr s' \<and> kbytes s' = memset p 0 n (kbytes s)"
proof -
  obtain s' where s': "memset_zero p n s = Inr s'" using assms by (cases "n = 0") (auto simp: memset_zero_def)
  have mem: "pt_mem s' a = (let d = a - ptr_phys s p in if d < n then
      (if n - d \<ge> 8 then 0 else pt_mem s a AND NOT (mask (8 * unat (n - d)))) else pt_mem s a)" for a
    using s' assms(1) by (auto simp: memset_zero_def Let_def split: if_splits)
  have [simp]: "ptr_phys s' = ptr_phys s" using s' by (auto simp: memset_zero_def ptr_phys_def split: if_splits)
  have pp: "ptr_phys s p AND 7 = 0" using assms(2) aligned_diff [of p HHDM_OFFSET] by (simp add: ptr_phys_def aligned_mod_8)
  have "kbytes s' q = memset p 0 n (kbytes s) q" for q
  proof -
    let ?a = "ptr_phys s q"
    let ?d = "(?a AND - 8) - ptr_phys s p" and ?k = "?a AND 7"
    have off: "unat (q - p) = unat ?d + unat ?k" "unat ?d mod 8 = 0"
      using align8_offset [OF pp, of ?a] by (simp_all add: ptr_phys_def split: if_splits)
    have k: "unat ?k < 8" by simp
    show ?thesis
    proof (cases "?d < n")
      case False
      then have "\<not> q - p < n" using off by (simp add: word_less_nat_alt)
      then show ?thesis using False by (simp add: kbytes_def mem memset_eq Let_def)
    next
      case True
      then have nd: "unat (n - ?d) = unat n - unat ?d" by (simp add: unat_sub)
      have "q - p < n \<longleftrightarrow> unat ?k < unat (n - ?d)" using True off nd by (auto simp: word_less_nat_alt)
      moreover have "word_byte (pt_mem s' (?a AND - 8)) ?k = (if unat ?k < unat (n - ?d) then 0 else kbytes s q)"
        using k True by (intro bit_word_eqI)
          (auto simp: mem Let_def bit_word_byte bit_and_iff bit_not_iff bit_mask_iff kbytes_def word_le_nat_alt
            simp del: and_7_less dest: bit_imp_le_length)
      ultimately show ?thesis by (simp add: kbytes_def memset_eq Let_def)
    qed
  qed
  with s' show ?thesis by blast
qed

end
