(* ===== verification/Initrd.thy ===== *)
theory Initrd
  imports Kernel_State Std_Funcs
begin

text \<open>
  The initial ram disk (\<^verbatim>\<open>kernel/fs/initrd.c\<close>, a ustar archive in memory) and the ELF loader (\<^verbatim>\<open>kernel/fs/elf.c\<close>).
  Both read packed structures byte by byte from the kernel's memory; the offsets are those of
  \<^verbatim>\<open>tar_header_t\<close> (\<^verbatim>\<open>name\<close> 0, \<^verbatim>\<open>size\<close> 124, \<^verbatim>\<open>magic\<close> 257), \<^verbatim>\<open>Elf64_Ehdr\<close> and \<^verbatim>\<open>Elf64_Phdr\<close>.
\<close>

section \<open>The archive\<close>

definition tar_init :: "u64 \<Rightarrow> u64 \<Rightarrow> 'a kernel_state_scheme \<Rightarrow> 'a kernel_state_scheme" where
  "tar_init address len s = s\<lparr>tar_base := address, tar_limit := len\<rparr>"

abbreviation TAR_SIZE :: u64 where "TAR_SIZE \<equiv> 124"
abbreviation TAR_MAGIC :: u64 where "TAR_MAGIC \<equiv> 257"

fun octal_from :: "nat \<Rightarrow> u64 \<Rightarrow> bytes \<Rightarrow> u64 \<Rightarrow> u64" where
  "octal_from 0 i s res = res"
| "octal_from (Suc n) i s res =
     (if s i \<ge> 0x30 \<and> s i \<le> 0x37 then octal_from n (i + 1) s (res * 8 + ucast (s i - 0x30)) else res)"

definition octal_to_int :: "bytes \<Rightarrow> nat \<Rightarrow> u64" where
  "octal_to_int s len = octal_from len 0 s 0"

text \<open>
  The walk over the headers: \<open>None\<close> when it does not end, otherwise the data and size of the file, if it is there.
\<close>

partial_function (option) tar_walk :: "bytes \<Rightarrow> bytes \<Rightarrow> u64 \<Rightarrow> u64 \<Rightarrow> (u64 \<times> u64) option option" where
  "tar_walk m filename e header =
     (if header < e \<and> m header \<noteq> 0 then
        if memcmp (at_ptr m (header + TAR_MAGIC)) (literal ''ustar'') 5 = 0 then
          (let len = octal_to_int (at_ptr m (header + TAR_SIZE)) 12
           in case strcmp (at_ptr m header) filename of
                None \<Rightarrow> None
              | Some r \<Rightarrow>
                  if r = 0 then Some (Some (header + 512, len))
                  else tar_walk m filename e (header + (512 + ((len + 511) AND NOT 511))))
        else Some None
      else Some None)"

text \<open>The pointer and, when it is not null, the size stored through \<^verbatim>\<open>out_size\<close>.\<close>

definition tar_lookup :: "bytes \<Rightarrow> 'a kernel_state_scheme \<Rightarrow> (u64 \<times> u64 option) res" where
  "tar_lookup filename s =
     (case tar_walk (kbytes s) filename (tar_base s + tar_limit s) (tar_base s) of
        None \<Rightarrow> Inl Diverges
      | Some None \<Rightarrow> Inr (0, None)
      | Some (Some (p, len)) \<Rightarrow> Inr (p, Some len))"

section \<open>ELF images\<close>

abbreviation E_ENTRY :: u64 where "E_ENTRY \<equiv> 24"
abbreviation E_PHOFF :: u64 where "E_PHOFF \<equiv> 32"
abbreviation E_PHNUM :: u64 where "E_PHNUM \<equiv> 56"
abbreviation SIZEOF_PHDR :: u64 where "SIZEOF_PHDR \<equiv> 56"
abbreviation PT_LOAD :: u32 where "PT_LOAD \<equiv> 1"
abbreviation PF_X :: u32 where "PF_X \<equiv> 1"
abbreviation PF_W :: u32 where "PF_W \<equiv> 2"
abbreviation PF_R :: u32 where "PF_R \<equiv> 4"

record Elf64_Phdr =
  p_type :: u32
  p_flags :: u32
  p_offset :: u64
  p_vaddr :: u64
  p_paddr :: u64
  p_filesz :: u64
  p_memsz :: u64
  p_align :: u64

definition load_phdr :: "'a vmm_state_scheme \<Rightarrow> u64 \<Rightarrow> Elf64_Phdr res" where
  "load_phdr s p =
     bind_res (load_u32 s p 0) (\<lambda>ty.
     bind_res (load_u32 s p 4) (\<lambda>fl.
     bind_res (load_u64 s p 8) (\<lambda>off.
     bind_res (load_u64 s p 16) (\<lambda>va.
     bind_res (load_u64 s p 24) (\<lambda>pa.
     bind_res (load_u64 s p 32) (\<lambda>fsz.
     bind_res (load_u64 s p 40) (\<lambda>msz.
     bind_res (load_u64 s p 48) (\<lambda>al.
     Inr \<lparr>p_type = ty, p_flags = fl, p_offset = off, p_vaddr = va, p_paddr = pa, p_filesz = fsz, p_memsz = msz,
       p_align = al\<rparr>))))))))"

text \<open>
  The copy of a segment, page by page, through the frames the pages are mapped to; it stops silently at a page that is not
  mapped.
\<close>

definition chunk_size :: "u64 \<Rightarrow> u64 \<Rightarrow> u64" where
  "chunk_size offset left = (if PAGE_SIZE - offset > left then left else PAGE_SIZE - offset)"

lemma chunk_size_bounds:
  "0 < left \<Longrightarrow> 0 < chunk_size (a mod PAGE_SIZE) left \<and> chunk_size (a mod PAGE_SIZE) left \<le> left"
proof -
  assume left: "0 < left"
  have "a mod PAGE_SIZE < PAGE_SIZE" by (simp add: word_mod_less_divisor)
  then have "0 < PAGE_SIZE - a mod PAGE_SIZE"
    by (simp add: word_gt_0)
  with left show ?thesis by (auto simp: chunk_size_def not_less)
qed

function elf_copy_from :: "u64 \<Rightarrow> u64 \<Rightarrow> u64 \<Rightarrow> u64 \<Rightarrow> u64 \<Rightarrow> 'a vmm_state_scheme \<Rightarrow> 'a vmm_state_scheme res" where
  "elf_copy_from pml4 vaddr src filesz copied s =
     (if copied < filesz then
        let curr_vaddr = vaddr + copied;
            offset = curr_vaddr mod PAGE_SIZE;
            to_copy = chunk_size offset (filesz - copied)
        in bind_res (vmm_virtual_to_physical s pml4 curr_vaddr) (\<lambda>dest_phys.
             if dest_phys = 0 then Inr s
             else elf_copy_from pml4 vaddr src filesz (copied + to_copy)
                    (upd_kbytes (memcpy (phys_to_virt dest_phys + offset) (src + copied) to_copy) s))
      else Inr s)"
  by pat_completeness auto
termination
proof (relation "measure (\<lambda>(pml4, vaddr, src, filesz, copied, s). unat (filesz - copied))", goal_cases)
  case (2 pml4 vaddr src filesz copied s curr offset to_copy dest)
  then have "0 < to_copy" "to_copy \<le> filesz - copied"
    using chunk_size_bounds [of "filesz - copied" curr] by (auto simp: word_gt_0)
  then show ?case by (simp add: diff_diff_eq [symmetric] unat_sub word_le_nat_alt word_less_nat_alt)
qed simp

declare elf_copy_from.simps [simp del]

definition elf_copy_segment ::
  "u64 \<Rightarrow> u64 \<Rightarrow> u64 \<Rightarrow> u64 \<Rightarrow> 'a sched_state_scheme \<Rightarrow> 'a sched_state_scheme res" where
  "elf_copy_segment t vaddr src filesz s =
     bind_res (task_at s t) (\<lambda>tk. elf_copy_from (vmm_get_table s (t_cr3 tk)) vaddr src filesz 0 s)"

definition elf_vma_flags :: "u32 \<Rightarrow> u32" where
  "elf_vma_flags pf =
     (let f0 = VMA_USER;
          f1 = (if pf AND PF_R \<noteq> 0 then f0 OR VMA_READ else f0);
          f2 = (if pf AND PF_W \<noteq> 0 then f1 OR VMA_WRITE else f1)
      in if pf AND PF_X \<noteq> 0 then f2 OR VMA_EXEC else f2)"

definition elf_fail_fmt :: string where
  "elf_fail_fmt = ''[ELF] Failed to map segment at %p (Size: %x, Flags: %x)'' @ [newline]"

text \<open>One \<^verbatim>\<open>PT_LOAD\<close> segment: \<open>None\<close> when it cannot be mapped, otherwise its end.\<close>

definition elf_segment ::
  "cpu_env \<Rightarrow> u64 \<Rightarrow> u64 \<Rightarrow> Elf64_Phdr \<Rightarrow> 'a sched_state_scheme \<Rightarrow> (u64 option \<times> 'a sched_state_scheme) res" where
  "elf_segment env t elf_data ph s =
     bind_res (vma_map env t (p_vaddr ph) (p_memsz ph) (elf_vma_flags (p_flags ph)) s) (\<lambda>(r, s1).
       if r \<noteq> 0 then
         bind_res (kprintf env elf_fail_fmt [VaInt (p_vaddr ph), VaInt (p_memsz ph), VaInt (ucast (p_flags ph))] s1) (\<lambda>s2.
         Inr (None, s2))
       else
         bind_res (if p_filesz ph > 0 then elf_copy_segment t (p_vaddr ph) (elf_data + p_offset ph) (p_filesz ph) s1
                   else Inr s1) (\<lambda>s2.
         Inr (Some (p_vaddr ph + p_memsz ph), s2)))"

text \<open>The loop over the program headers, with the highest end so far.\<close>

function elf_segments ::
  "cpu_env \<Rightarrow> u64 \<Rightarrow> u64 \<Rightarrow> u64 \<Rightarrow> nat \<Rightarrow> u64 \<Rightarrow> 'a sched_state_scheme \<Rightarrow> (u64 option \<times> 'a sched_state_scheme) res" where
  "elf_segments env t elf_data phdr i max_vaddr s =
     bind_res (load_u16 s elf_data E_PHNUM) (\<lambda>phnum.
       if i < unat phnum then
         bind_res (load_phdr s (phdr + of_nat i * SIZEOF_PHDR)) (\<lambda>ph.
           if p_type ph = PT_LOAD then
             bind_res (elf_segment env t elf_data ph s) (\<lambda>(r, s1).
               case r of
                 None \<Rightarrow> Inr (None, s1)
               | Some seg_end \<Rightarrow>
                   elf_segments env t elf_data phdr (Suc i) (if seg_end > max_vaddr then seg_end else max_vaddr) s1)
           else elf_segments env t elf_data phdr (Suc i) max_vaddr s)
       else Inr (Some max_vaddr, s))"
  by pat_completeness auto
termination
proof (relation "measure (\<lambda>(env, t, e, p, i, m, s). 65536 - i)", goal_cases)
  case (2 env t e p i m s phnum)
  then show ?case using unsigned_less [of phnum, where 'a = nat] by simp
next
  case (3 env t e p i m s phnum)
  then show ?case using unsigned_less [of phnum, where 'a = nat] by simp
qed simp

declare elf_segments.simps [simp del]

definition elf_load :: "cpu_env \<Rightarrow> u64 \<Rightarrow> u64 \<Rightarrow> 'a sched_state_scheme \<Rightarrow> (u64 \<times> 'a sched_state_scheme) res" where
  "elf_load env t elf_data s =
     (if elf_data = 0 then Inl NullDeref
      else if memcmp (at_ptr (kbytes s) elf_data) (literal (CHR 0x7F # ''ELF'')) 4 \<noteq> 0 then Inr (0, s)
      else
        bind_res (load_u64 s elf_data E_PHOFF) (\<lambda>phoff.
        bind_res (elf_segments env t elf_data (elf_data + phoff) 0 0 s) (\<lambda>(r, s1).
          case r of
            None \<Rightarrow> Inr (0, s1)
          | Some max_vaddr \<Rightarrow>
              let heap = (max_vaddr + PAGE_SIZE) AND NOT (PAGE_SIZE - 1)
              in bind_res (upd_task t (\<lambda>tk. tk\<lparr>t_heap_start := heap, t_heap_curr := heap,
                     t_heap_end := heap + 4 * PAGE_SIZE\<rparr>) s1) (\<lambda>s2.
                 bind_res (vma_map env t heap (4 * PAGE_SIZE) (VMA_READ OR VMA_WRITE OR VMA_USER OR VMA_HEAP) s2) (\<lambda>(_, s3).
                 bind_res (load_u64 s3 elf_data E_ENTRY) (\<lambda>entry.
                 Inr (entry, s3)))))))"

end
