(* ===== verification/Context.thy ===== *)
theory Context
  imports Initrd
begin

text \<open>
  Creation of tasks: \<^verbatim>\<open>kernel/arch/x86_64/sched/context.c\<close>. The interrupt frame a new task starts from is built in the
  words of its kernel stack. The code of a user task is given as what can be read at its entry point.
\<close>

definition task_alloc_base :: "cpu_env \<Rightarrow> 'a sched_state_scheme \<Rightarrow> (u64 \<times> 'a sched_state_scheme) res" where
  "task_alloc_base env s =
     bind_res (kmalloc env SIZEOF_TASK s) (\<lambda>(t, s1).
       if t = 0 then Inr (0, s1)
       else
         bind_res (upd_task t (\<lambda>_. zero_task) s1) (\<lambda>s2.
         bind_res (vma_init_task t s2) (\<lambda>s3.
         let stack_size = 4 * PAGE_SIZE
         in bind_res (kmalloc env stack_size s3) (\<lambda>(base, s4).
            bind_res (upd_task t (\<lambda>tk. tk\<lparr>t_stack_size := stack_size, t_stack_base := base\<rparr>) s4) (\<lambda>s5.
            if base = 0 then bind_res (kfree env t s5) (\<lambda>s6. Inr (0, s6))
            else
              bind_res (memset_zero base stack_size s5) (\<lambda>s6.
              bind_res (upd_task t (\<lambda>tk. tk\<lparr>t_cpu_id := NO_CPU, t_state := TASK_READY, t_tid := next_tid s6,
                  t_priority := PRIO_NORMAL, t_base_priority := PRIO_NORMAL\<rparr>) s6) (\<lambda>s7.
              Inr (t, s7\<lparr>next_tid := next_tid s6 + 1\<rparr>))))))))"

definition task_register :: "cpu_env \<Rightarrow> u64 \<Rightarrow> 'a sched_state_scheme \<Rightarrow> 'a sched_state_scheme res" where
  "task_register env t s =
     bind_res (spin_lock env (sched_lock s)) (\<lambda>l.
     let s0 = s\<lparr>sched_lock := l\<rparr>; head = root_task s0
     in bind_res (task_at s0 head) (\<lambda>h.
        let tail = t_prev h
        in bind_res (upd_task t (\<lambda>tk. tk\<lparr>t_next := head, t_prev := tail\<rparr>) s0) (\<lambda>s1.
           bind_res (upd_task tail (\<lambda>tk. tk\<lparr>t_next := t\<rparr>) s1) (\<lambda>s2.
           bind_res (upd_task head (\<lambda>tk. tk\<lparr>t_prev := t\<rparr>) s2) (\<lambda>s3.
           bind_res (upd_task t (\<lambda>tk. tk\<lparr>t_cpu_id := NO_CPU\<rparr>) (s3\<lparr>sched_lock := spin_unlock env (sched_lock s3)\<rparr>)) (\<lambda>s4.
           enqueue_task env (get_cpu env s4) t s4))))))"

text \<open>
  The frame \<^verbatim>\<open>iretq\<close> returns through for the first time, on top of the kernel stack of the task, and the stack pointer
  that is saved for the task.
\<close>

definition kstack_top :: "task \<Rightarrow> u64" where
  "kstack_top tk = (t_stack_base tk + t_stack_size tk) AND NOT 0x0F"

definition first_frame ::
  "u64 \<Rightarrow> u64 \<Rightarrow> u64 \<Rightarrow> u64 \<Rightarrow> u64 \<Rightarrow> 'a sched_state_scheme \<Rightarrow> 'a sched_state_scheme res" where
  "first_frame t rip cs ss rsp s =
     bind_res (task_at s t) (\<lambda>tk.
     let frame = kstack_top tk - SIZEOF_FRAME
     in bind_res (memset_zero frame SIZEOF_FRAME s) (\<lambda>s1.
        bind_res (store64 frame F_RIP rip s1) (\<lambda>s2.
        bind_res (store64 frame F_CS cs s2) (\<lambda>s3.
        bind_res (store64 frame F_SS ss s3) (\<lambda>s4.
        bind_res (store64 frame F_RFLAGS 0x202 s4) (\<lambda>s5.
        bind_res (store64 frame F_RSP rsp s5) (\<lambda>s6.
        bind_res (store64 frame F_RBP rsp s6) (\<lambda>s7.
        upd_task t (\<lambda>tk. tk\<lparr>t_rsp := frame\<rparr>) s7))))))))"

definition arch_task_create :: "cpu_env \<Rightarrow> u64 \<Rightarrow> 'a sched_state_scheme \<Rightarrow> (u64 \<times> 'a sched_state_scheme) res" where
  "arch_task_create env entry_point s =
     bind_res (task_alloc_base env s) (\<lambda>(t, s1).
       if t = 0 then Inr (0, s1)
       else
         bind_res (upd_task t (\<lambda>tk. tk\<lparr>t_priority := PRIO_HIGH, t_base_priority := PRIO_HIGH, t_is_user := False,
             t_cr3 := read_cr3 env s1\<rparr>) s1) (\<lambda>s2.
         bind_res (task_at s2 t) (\<lambda>tk.
         bind_res (first_frame t entry_point 0x08 0x10 (kstack_top tk) s2) (\<lambda>s3.
         bind_res (task_register env t s3) (\<lambda>s4.
         Inr (t, s4))))))"

text \<open>The part both kinds of user task share: the structure, a new address space; a null pointer when memory runs out.\<close>

definition user_task_base :: "cpu_env \<Rightarrow> 'a sched_state_scheme \<Rightarrow> (u64 \<times> 'a sched_state_scheme) res" where
  "user_task_base env s =
     bind_res (task_alloc_base env s) (\<lambda>(t, s1).
       if t = 0 then Inr (0, s1)
       else
         bind_res (vmm_create_user_pml4 env s1) (\<lambda>(cr3, s2).
         if cr3 = 0 then
           bind_res (task_at s2 t) (\<lambda>tk.
           bind_res (kfree env (t_stack_base tk) s2) (\<lambda>s3.
           bind_res (kfree env t s3) (\<lambda>s4. Inr (0, s4))))
         else bind_res (upd_task t (\<lambda>tk. tk\<lparr>t_cr3 := cr3, t_is_user := True\<rparr>) s2) (\<lambda>s3. Inr (t, s3))))"

abbreviation u_stack_size :: u64 where "u_stack_size \<equiv> 4 * PAGE_SIZE"
abbreviation u_stack_virt :: u64 where "u_stack_virt \<equiv> 0x00007FFFFFFFF000 - 4 * PAGE_SIZE"

definition map_user_stack :: "cpu_env \<Rightarrow> u64 \<Rightarrow> 'a sched_state_scheme \<Rightarrow> (int \<times> 'a sched_state_scheme) res" where
  "map_user_stack env t s =
     vma_map env t u_stack_virt u_stack_size (VMA_READ OR VMA_WRITE OR VMA_USER OR VMA_STACK) s"

definition start_user_task :: "cpu_env \<Rightarrow> u64 \<Rightarrow> u64 \<Rightarrow> 'a sched_state_scheme \<Rightarrow> (u64 \<times> 'a sched_state_scheme) res" where
  "start_user_task env t rip s =
     bind_res (first_frame t rip 0x1B 0x23 (u_stack_virt + u_stack_size - 8) s) (\<lambda>s1.
     bind_res (task_register env t s1) (\<lambda>s2. Inr (t, s2)))"

text \<open>The copy of code from outside the modelled memory.\<close>

definition copy_in :: "u64 \<Rightarrow> bytes \<Rightarrow> u64 \<Rightarrow> bytes \<Rightarrow> bytes" where
  "copy_in d src n m = (\<lambda>a. if a - d < n then src (a - d) else m a)"

abbreviation code_virt :: u64 where "code_virt \<equiv> 0x400000"
abbreviation code_size :: u64 where "code_size \<equiv> 4 * PAGE_SIZE"

definition arch_task_create_user :: "cpu_env \<Rightarrow> bytes \<Rightarrow> 'a sched_state_scheme \<Rightarrow> (u64 \<times> 'a sched_state_scheme) res" where
  "arch_task_create_user env code s =
     bind_res (user_task_base env s) (\<lambda>(t, s1).
       if t = 0 then Inr (0, s1)
       else
         bind_res (vma_map env t code_virt code_size (VMA_READ OR VMA_EXEC OR VMA_USER) s1) (\<lambda>(r1, s2).
         if r1 \<noteq> 0 then Inr (0, s2)
         else
           bind_res (task_at s2 t) (\<lambda>tk.
           bind_res (vmm_virtual_to_physical s2 (vmm_get_table s2 (t_cr3 tk)) code_virt) (\<lambda>code_phys.
           let s3 = upd_kbytes (copy_in (phys_to_virt code_phys) code code_size) s2
           in bind_res (map_user_stack env t s3) (\<lambda>(r2, s4).
              if r2 \<noteq> 0 then Inr (0, s4)
              else
                bind_res (upd_task t (\<lambda>tk. tk\<lparr>t_heap_start := 0x406000, t_heap_curr := 0x406000,
                    t_heap_end := 0x406000 + 4 * PAGE_SIZE\<rparr>) s4) (\<lambda>s5.
                bind_res (vma_map env t 0x406000 (4 * PAGE_SIZE) (VMA_READ OR VMA_WRITE OR VMA_USER OR VMA_HEAP) s5)
                  (\<lambda>(r3, s6).
                if r3 \<noteq> 0 then Inr (0, s6) else start_user_task env t code_virt s6)))))))"

definition arch_task_spawn_elf :: "cpu_env \<Rightarrow> u64 \<Rightarrow> 'a sched_state_scheme \<Rightarrow> (u64 \<times> 'a sched_state_scheme) res" where
  "arch_task_spawn_elf env elf_raw_data s =
     bind_res (user_task_base env s) (\<lambda>(t, s1).
       if t = 0 then Inr (0, s1)
       else
         bind_res (elf_load env t elf_raw_data s1) (\<lambda>(entry, s2).
         if entry = 0 then Inr (0, s2)
         else
           bind_res (map_user_stack env t s2) (\<lambda>(r, s3).
           if r \<noteq> 0 then Inr (0, s3) else start_user_task env t entry s3)))"

end
