(* ===== verification/Syscall.thy ===== *)
theory Syscall
  imports Context Idt
begin

text \<open>
  System calls: \<^verbatim>\<open>kernel/syscall/syscall.c\<close> and \<^verbatim>\<open>syscall_funcs.c\<close>. A handler either returns or, when it yields, leaves the
  CPU to another task and goes on when its task runs again; \<open>yfr\<close> is the address of the frame the yield pushes on
  the kernel stack.
\<close>

datatype sys_result = Returns u64 | Suspended u64

datatype sys_call = Kprint | Exit | GetUptime | Sleep | Yield | KbdPs2 | KprintHex | CpuId | Malloc | Free | GetTid | CpuCount

section \<open>User memory\<close>

abbreviation KERNEL_SPACE_START :: u64 where "KERNEL_SPACE_START \<equiv> 0xFFFF800000000000"
abbreviation USER_SPACE_END :: u64 where "USER_SPACE_END \<equiv> 0x00007FFFFFFFFFFF"

text \<open>
  A read through the tables of the current address space; one of an unmapped or non-canonical address raises an exception,
  which nobody handles.
\<close>

definition canonical :: "u64 \<Rightarrow> bool" where
  "canonical a \<longleftrightarrow> a < 0x0000800000000000 \<or> a \<ge> 0xFFFF800000000000"

definition user_byte :: "cpu_env \<Rightarrow> 'a cpu_state_scheme \<Rightarrow> u64 \<Rightarrow> u8 res" where
  "user_byte env s a =
     (if \<not> canonical a then Inl (KPanic exception_msg)
      else bind_res (vmm_virtual_to_physical s (vmm_get_table s (read_cr3 env s)) a) (\<lambda>phys.
        if phys = 0 then Inl (KPanic exception_msg) else Inr (kbytes s (phys_ptr s phys))))"

definition is_user_range :: "u64 \<Rightarrow> u64 \<Rightarrow> bool" where
  "is_user_range start sz =
     (let e = start + sz in \<not> (start > USER_SPACE_END \<or> e > USER_SPACE_END \<or> e < start))"

text \<open>The length of a string of at most 4096 bytes with its characters, \<open>None\<close> for a longer one.\<close>

function user_string :: "cpu_env \<Rightarrow> 'a cpu_state_scheme \<Rightarrow> u64 \<Rightarrow> nat \<Rightarrow> string \<Rightarrow> (nat \<times> string) option res" where
  "user_string env s str len acc =
     bind_res (user_byte env s (str + of_nat len)) (\<lambda>b.
       if b = 0 then Inr (Some (len, acc))
       else if Suc len > 4096 then Inr None
       else user_string env s str (Suc len) (acc @ [char_of (unat b)]))"
  by pat_completeness auto
termination by (relation "measure (\<lambda>(env, s, str, len, acc). 4097 - len)") auto

declare user_string.simps [simp del]

section \<open>Handlers\<close>

definition blocked_high_fmt :: string where
  "blocked_high_fmt = [newline] @ ''[SECURITY] Blocked KPRINT: Pointer %p is in Higher Half!'' @ [newline]"

definition blocked_cross_fmt :: string where
  "blocked_cross_fmt = [newline] @ ''[SECURITY] Blocked KPRINT: String at %p crosses kernel boundary!'' @ [newline]"

definition sys_kprint :: "cpu_env \<Rightarrow> u64 \<Rightarrow> 'a kernel_state_scheme \<Rightarrow> (u64 \<times> 'a kernel_state_scheme) res" where
  "sys_kprint env str s =
     (if str = 0 then Inr (-1, s)
      else if str \<ge> KERNEL_SPACE_START then bind_res (kprintf env blocked_high_fmt [VaInt str] s) (\<lambda>s1. Inr (-1, s1))
      else
        bind_res (user_string env s str 0 []) (\<lambda>r.
        case r of
          None \<Rightarrow> Inr (-2, s)
        | Some (len, cs) \<Rightarrow>
            if \<not> is_user_range str (of_nat len + 1) then
              bind_res (kprintf env blocked_cross_fmt [VaInt str] s) (\<lambda>s1. Inr (-1, s1))
            else bind_res (kprint env (Some cs) s) (\<lambda>s1. Inr (0, s1))))"

definition sys_kprint_hex :: "cpu_env \<Rightarrow> u64 \<Rightarrow> 'a kernel_state_scheme \<Rightarrow> (u64 \<times> 'a kernel_state_scheme) res" where
  "sys_kprint_hex env value s = bind_res (kprintf env (''%p'' @ [newline]) [VaInt value] s) (\<lambda>s1. Inr (0, s1))"

definition sys_kprint_handler :: "cpu_env \<Rightarrow> u64 \<Rightarrow> 'a kernel_state_scheme \<Rightarrow> (u64 \<times> 'a kernel_state_scheme) res" where
  "sys_kprint_handler env fr s = bind_res (load64 s fr F_RDI) (\<lambda>rdi. sys_kprint env rdi s)"

definition sys_kprint_hex_handler :: "cpu_env \<Rightarrow> u64 \<Rightarrow> 'a kernel_state_scheme \<Rightarrow> (u64 \<times> 'a kernel_state_scheme) res" where
  "sys_kprint_hex_handler env fr s = bind_res (load64 s fr F_RDI) (\<lambda>rdi. sys_kprint_hex env rdi s)"

definition sys_get_cpuid_handler :: "cpu_env \<Rightarrow> 'a kernel_state_scheme \<Rightarrow> (u64 \<times> 'a kernel_state_scheme) res" where
  "sys_get_cpuid_handler env s = bind_res (cpu_at s (get_cpu env s)) (\<lambda>c. Inr (c_cpu_id c, s))"

definition sys_exit_handler :: "cpu_env \<Rightarrow> u64 \<Rightarrow> 'a kernel_state_scheme \<Rightarrow> (u64 \<times> 'a kernel_state_scheme) res" where
  "sys_exit_handler env fr s = bind_res (task_exit env s) (\<lambda>s1. schedule env fr s1)"

definition sys_yield_handler :: "cpu_env \<Rightarrow> u64 \<Rightarrow> 'a kernel_state_scheme \<Rightarrow> (sys_result \<times> 'a kernel_state_scheme) res" where
  "sys_yield_handler env yfr s =
     bind_res (sched_yield env yfr s) (\<lambda>(rsp, s1). Inr (if rsp = yfr then Returns 0 else Suspended rsp, s1))"

definition sys_get_uptime_handler :: "'a kernel_state_scheme \<Rightarrow> (u64 \<times> 'a kernel_state_scheme) res" where
  "sys_get_uptime_handler s = Inr (get_uptime_ms s, s)"

definition sys_sleep_handler :: "cpu_env \<Rightarrow> u64 \<Rightarrow> 'a kernel_state_scheme \<Rightarrow> (u64 \<times> 'a kernel_state_scheme) res" where
  "sys_sleep_handler env fr s =
     bind_res (load64 s fr F_RDI) (\<lambda>ms.
     bind_res (if ms > 0 then sched_make_task_sleep env ms s else Inr s) (\<lambda>s1.
     schedule env fr s1))"

text \<open>
  One turn of the loop: the character, with its sign, or the task blocks and yields; it goes round again when it is woken.
\<close>

definition sys_read_kbd_handler :: "cpu_env \<Rightarrow> u64 \<Rightarrow> 'a kernel_state_scheme \<Rightarrow> (sys_result \<times> 'a kernel_state_scheme) res" where
  "sys_read_kbd_handler env yfr s =
     bind_res (kbd_pop_char env s) (\<lambda>(r, s1).
     case r of
       Some c \<Rightarrow> Inr (Returns (scast c), s1)
     | None \<Rightarrow>
         bind_res (sched_block_current env REASON_KEYBOARD s1) (\<lambda>s2.
         bind_res (sched_yield env yfr s2) (\<lambda>(rsp, s3). Inr (Suspended rsp, s3))))"

definition sys_malloc :: "cpu_env \<Rightarrow> u64 \<Rightarrow> 'a kernel_state_scheme \<Rightarrow> (u64 \<times> 'a kernel_state_scheme) res" where
  "sys_malloc env sz s =
     (if sz = 0 then Inr (0, s)
      else
        bind_res (sched_get_current env s) (\<lambda>cur.
        let aligned_size = (sz + 0x0F) AND NOT 0x0F
        in bind_res (task_at s cur) (\<lambda>tk.
           if t_heap_curr tk + aligned_size \<le> t_heap_end tk then
             bind_res (upd_task cur (\<lambda>k. k\<lparr>t_heap_curr := t_heap_curr k + aligned_size\<rparr>) s) (\<lambda>s1. Inr (t_heap_curr tk, s1))
           else
             let needed = (t_heap_curr tk + sz) - t_heap_end tk;
                 aligned_needed = (needed + 0xFFF) AND NOT 0xFFF
             in bind_res (vma_map env cur (t_heap_end tk) aligned_needed (VMA_READ OR VMA_WRITE OR VMA_USER OR VMA_HEAP) s)
                  (\<lambda>(r, s1).
                if r \<noteq> 0 then Inr (0, s1)
                else
                  bind_res (upd_task cur (\<lambda>k. k\<lparr>t_heap_end := t_heap_end k + aligned_needed\<rparr>) s1) (\<lambda>s2.
                  bind_res (task_at s2 cur) (\<lambda>tk2.
                  bind_res (upd_task cur (\<lambda>k. k\<lparr>t_heap_curr := t_heap_curr k + aligned_size\<rparr>) s2) (\<lambda>s3.
                  Inr (t_heap_curr tk2, s3))))))))"

definition sys_malloc_handler :: "cpu_env \<Rightarrow> u64 \<Rightarrow> 'a kernel_state_scheme \<Rightarrow> (u64 \<times> 'a kernel_state_scheme) res" where
  "sys_malloc_handler env fr s = bind_res (load64 s fr F_RDI) (\<lambda>sz. sys_malloc env sz s)"

definition sys_free :: "cpu_env \<Rightarrow> u64 \<Rightarrow> u64 \<Rightarrow> 'a kernel_state_scheme \<Rightarrow> (u64 \<times> 'a kernel_state_scheme) res" where
  "sys_free env addr sz s =
     (if addr = 0 \<or> sz = 0 then Inr (0, s)
      else
        bind_res (sched_get_current env s) (\<lambda>cur.
        let aligned_size = (sz + 0x0F) AND NOT 0x0F
        in bind_res (task_at s cur) (\<lambda>tk.
           if addr + aligned_size = t_heap_curr tk then
             bind_res (upd_task cur (\<lambda>k. k\<lparr>t_heap_curr := addr\<rparr>) s) (\<lambda>s1.
             let gap = t_heap_end tk - addr
             in if gap \<ge> 4 * PAGE_SIZE then
                  let to_release = (gap - PAGE_SIZE) AND NOT 0xFFF;
                      start = t_heap_end tk - to_release;
                      unmap_start = (if start < addr then (addr + 0xFFF) AND NOT 0xFFF else start)
                  in bind_res (vma_unmap env cur unmap_start to_release s1) (\<lambda>(r, s2).
                     if r = 0 then bind_res (upd_task cur (\<lambda>k. k\<lparr>t_heap_end := unmap_start\<rparr>) s2) (\<lambda>s3. Inr (0, s3))
                     else Inr (0, s2))
                else Inr (0, s1))
           else Inr (0, s))))"

definition sys_free_handler :: "cpu_env \<Rightarrow> u64 \<Rightarrow> 'a kernel_state_scheme \<Rightarrow> (u64 \<times> 'a kernel_state_scheme) res" where
  "sys_free_handler env fr s =
     bind_res (load64 s fr F_RDI) (\<lambda>addr. bind_res (load64 s fr F_RSI) (\<lambda>sz. sys_free env addr sz s))"

definition sys_get_tid_handler :: "cpu_env \<Rightarrow> 'a kernel_state_scheme \<Rightarrow> (u64 \<times> 'a kernel_state_scheme) res" where
  "sys_get_tid_handler env s =
     bind_res (sched_get_current env s) (\<lambda>cur. bind_res (task_at s cur) (\<lambda>tk. Inr (t_tid tk, s)))"

definition get_cpu_count_test :: "'a kernel_state_scheme \<Rightarrow> u8" where
  "get_cpu_count_test s = ucast (cpu_count s)"

definition sys_cpu_count_handler :: "'a kernel_state_scheme \<Rightarrow> (u64 \<times> 'a kernel_state_scheme) res" where
  "sys_cpu_count_handler s = Inr (ucast (get_cpu_count_test s), s)"

section \<open>The table and the dispatcher\<close>

text \<open>The table has 20 entries; those that are not set are null.\<close>

abbreviation SYS_TABLE_SIZE :: nat where "SYS_TABLE_SIZE \<equiv> 20"

definition init_sys_table :: "nat \<Rightarrow> sys_call option" where
  "init_sys_table =
     Map.empty(1 \<mapsto> Kprint, 2 \<mapsto> Exit, 5 \<mapsto> Yield, 3 \<mapsto> GetUptime, 4 \<mapsto> Sleep, 6 \<mapsto> KbdPs2, 7 \<mapsto> KprintHex, 8 \<mapsto> CpuId,
       9 \<mapsto> Malloc, 10 \<mapsto> Free, 11 \<mapsto> GetTid, 12 \<mapsto> CpuCount)"

definition returns :: "(u64 \<times> 's) res \<Rightarrow> (sys_result \<times> 's) res" where
  "returns r = bind_res r (\<lambda>(v, s). Inr (Returns v, s))"

definition sys_table ::
  "cpu_env \<Rightarrow> u64 \<Rightarrow> sys_call \<Rightarrow> u64 \<Rightarrow> 'a kernel_state_scheme \<Rightarrow> (sys_result \<times> 'a kernel_state_scheme) res" where
  "sys_table env yfr call fr s =
     (case call of
        Kprint \<Rightarrow> returns (sys_kprint_handler env fr s)
      | Exit \<Rightarrow> returns (sys_exit_handler env fr s)
      | GetUptime \<Rightarrow> returns (sys_get_uptime_handler s)
      | Sleep \<Rightarrow> returns (sys_sleep_handler env fr s)
      | Yield \<Rightarrow> sys_yield_handler env yfr s
      | KbdPs2 \<Rightarrow> sys_read_kbd_handler env yfr s
      | KprintHex \<Rightarrow> returns (sys_kprint_hex_handler env fr s)
      | CpuId \<Rightarrow> returns (sys_get_cpuid_handler env s)
      | Malloc \<Rightarrow> returns (sys_malloc_handler env fr s)
      | Free \<Rightarrow> returns (sys_free_handler env fr s)
      | GetTid \<Rightarrow> returns (sys_get_tid_handler env s)
      | CpuCount \<Rightarrow> returns (sys_cpu_count_handler s))"

definition unknown_fmt :: string where "unknown_fmt = ''[SYSCALL] Unknown or unimplemented: %p'' @ [newline]"

definition syscall_handler :: "cpu_env \<Rightarrow> u64 \<Rightarrow> u64 \<Rightarrow> 'a kernel_state_scheme \<Rightarrow> (sys_result \<times> 'a kernel_state_scheme) res" where
  "syscall_handler env yfr fr s =
     bind_res (load64 s fr F_RAX) (\<lambda>sys_num.
       if unat sys_num \<ge> SYS_TABLE_SIZE then Inl OutOfBounds
       else case init_sys_table (unat sys_num) of
         None \<Rightarrow>
           bind_res (kprintf env unknown_fmt [VaInt sys_num] s) (\<lambda>s1.
           bind_res (store64 fr F_RAX (-1) s1) (\<lambda>s2. Inr (Returns fr, s2)))
       | Some call \<Rightarrow>
           bind_res (sys_table env yfr call fr s) (\<lambda>(r, s1).
           case r of
             Suspended rsp \<Rightarrow> Inr (Suspended rsp, s1)
           | Returns res \<Rightarrow>
               if call = Sleep \<or> call = Exit then Inr (Returns res, s1)
               else bind_res (store64 fr F_RAX res s1) (\<lambda>s2. Inr (Returns fr, s2))))"

end
