(* ===== verification/Smp.thy ===== *)
theory Smp
  imports Syscall
begin

text \<open>
  Finding and starting the other CPUs: the ACPI tables (\<^verbatim>\<open>kernel/arch/x86_64/acpi.c\<close>) and \<^verbatim>\<open>kernel/smp/smp.c\<close>. While the
  caller of \<^verbatim>\<open>msleep\<close> sleeps other tasks run: what that does is an argument \<open>sleep\<close> of the operations here.
\<close>

section \<open>ACPI tables\<close>

text \<open>Offsets in the packed tables.\<close>

abbreviation SIZEOF_SDT :: u64 where "SIZEOF_SDT \<equiv> 36"
abbreviation SDT_LENGTH :: u64 where "SDT_LENGTH \<equiv> 4"
abbreviation RSDP_REVISION :: u64 where "RSDP_REVISION \<equiv> 15"
abbreviation RSDP_RSDT :: u64 where "RSDP_RSDT \<equiv> 16"
abbreviation RSDP_XSDT :: u64 where "RSDP_XSDT \<equiv> 24"
abbreviation MADT_LAPIC :: u64 where "MADT_LAPIC \<equiv> 36"
abbreviation SIZEOF_MADT :: u64 where "SIZEOF_MADT \<equiv> 44"

fun acpi_scan :: "(u32 \<Rightarrow> u64 res) \<Rightarrow> bytes \<Rightarrow> bytes \<Rightarrow> u32 list \<Rightarrow> u64 res" where
  "acpi_scan tables m signature [] = Inr 0"
| "acpi_scan tables m signature (i # is) =
     bind_res (tables i) (\<lambda>p.
     let table = phys_to_virt p
     in if memcmp (at_ptr m table) signature 4 = 0 then Inr table else acpi_scan tables m signature is)"

definition acpi_entries :: "u32 \<Rightarrow> u64 \<Rightarrow> u32" where
  "acpi_entries len width = ucast ((ucast len - SIZEOF_SDT) div width)"

definition acpi_find_table :: "u64 \<Rightarrow> bytes \<Rightarrow> 'a vmm_state_scheme \<Rightarrow> u64 res" where
  "acpi_find_table rsdp signature s =
     bind_res (load_u8 s rsdp RSDP_REVISION) (\<lambda>revision.
     bind_res (load_u64 s rsdp RSDP_XSDT) (\<lambda>xsdt_address.
     bind_res (load_u32 s rsdp RSDP_RSDT) (\<lambda>rsdt_address.
       if revision \<ge> 2 \<and> xsdt_address \<noteq> 0 then
         let xsdt = phys_to_virt xsdt_address
         in bind_res (load_u32 s xsdt SDT_LENGTH) (\<lambda>len.
            acpi_scan (\<lambda>i. load_u64 s xsdt (SIZEOF_SDT + 8 * ucast i)) (kbytes s) signature
              (map of_nat [0 ..< unat (acpi_entries len 8)]))
       else
         let rsdt = phys_to_virt (ucast rsdt_address)
         in bind_res (load_u32 s rsdt SDT_LENGTH) (\<lambda>len.
            acpi_scan (\<lambda>i. bind_res (load_u32 s rsdt (SIZEOF_SDT + 4 * ucast i)) (\<lambda>p. Inr (ucast p))) (kbytes s) signature
              (map of_nat [0 ..< unat (acpi_entries len 4)])))))"

section \<open>Starting a CPU\<close>

abbreviation TRAMPOLINE_PHYS_ADDR :: u64 where "TRAMPOLINE_PHYS_ADDR \<equiv> 0x8000"
abbreviation AP_CONFIG_PHYS_ADDR :: u64 where "AP_CONFIG_PHYS_ADDR \<equiv> 0x7000"
abbreviation CFG_STACK :: u64 where "CFG_STACK \<equiv> 0"
abbreviation CFG_PML4 :: u64 where "CFG_PML4 \<equiv> 8"
abbreviation CFG_ENTRY :: u64 where "CFG_ENTRY \<equiv> 16"
abbreviation CFG_CONTEXT :: u64 where "CFG_CONTEXT \<equiv> 24"
abbreviation CFG_READY :: u64 where "CFG_READY \<equiv> 32"
abbreviation ICR_INIT :: u32 where "ICR_INIT \<equiv> 0x500"
abbreviation ICR_STARTUP :: u32 where "ICR_STARTUP \<equiv> 0x600"
abbreviation ICR_LEVEL :: u32 where "ICR_LEVEL \<equiv> 0x8000"

text \<open>One interrupt of the start sequence: written, delivered, followed by a pause.\<close>

definition boot_ipi ::
  "(u64 \<Rightarrow> 'a kernel_state_scheme \<Rightarrow> 'a kernel_state_scheme res) \<Rightarrow> u32 \<Rightarrow> u32 \<Rightarrow> 'a kernel_state_scheme \<Rightarrow>
     'a kernel_state_scheme res" where
  "boot_ipi sleep apic_id command s =
     bind_res (lapic_writes [(LAPIC_ICR_HIGH, push_bit 24 apic_id), (LAPIC_ICR_LOW, command)] s) (\<lambda>s1.
     bind_res (lapic_wait_for_delivery s1) (sleep 1))"

definition boot_ap ::
  "(u64 \<Rightarrow> 'a kernel_state_scheme \<Rightarrow> 'a kernel_state_scheme res) \<Rightarrow> u32 \<Rightarrow> u8 \<Rightarrow> 'a kernel_state_scheme \<Rightarrow>
     'a kernel_state_scheme res" where
  "boot_ap sleep apic_id vector s =
     bind_res (boot_ipi sleep apic_id (ICR_INIT OR ICR_ASSERT OR ICR_LEVEL) s) (\<lambda>s1.
     bind_res (boot_ipi sleep apic_id (ICR_STARTUP OR ucast vector) s1)
       (boot_ipi sleep apic_id (ICR_STARTUP OR ucast vector)))"

text \<open>
  What the trampoline does to memory: it reports that it runs before it enters \<^verbatim>\<open>kernel_main_ap\<close>. A CPU that does not
  answer leaves its starter waiting for ever.
\<close>

definition trampoline :: "'a vmm_state_scheme \<Rightarrow> 'a vmm_state_scheme" where
  "trampoline s = s\<lparr>pt_mem := (pt_mem s)(AP_CONFIG_PHYS_ADDR + CFG_READY := 1)\<rparr>"

definition fill_config :: "u64 \<Rightarrow> u64 \<Rightarrow> u64 \<Rightarrow> 'a kernel_state_scheme \<Rightarrow> 'a kernel_state_scheme res" where
  "fill_config config ctx entry s =
     bind_res (cpu_at s ctx) (\<lambda>c.
     bind_res (store64 config CFG_STACK (c_kernel_stack c) s) (\<lambda>s1.
     bind_res (store64 config CFG_PML4 (kernel_pml4_phys s1) s1) (\<lambda>s2.
     bind_res (store64 config CFG_ENTRY entry s2) (\<lambda>s3.
     bind_res (store64 config CFG_CONTEXT ctx s3) (\<lambda>s4.
     store64 config CFG_READY 0 s4)))))"

text \<open>\<open>code\<close> is the trampoline, \<open>entry\<close> the address of \<^verbatim>\<open>kernel_main_ap\<close>, \<open>answers\<close> whether the CPU starts.\<close>

definition smp_init_cpu ::
  "cpu_env \<Rightarrow> (u64 \<Rightarrow> 'a kernel_state_scheme \<Rightarrow> 'a kernel_state_scheme res) \<Rightarrow> u8 list \<Rightarrow> u64 \<Rightarrow> bool \<Rightarrow> u8 \<Rightarrow> u64 \<Rightarrow>
     'a kernel_state_scheme \<Rightarrow> 'a kernel_state_scheme res" where
  "smp_init_cpu env sleep code entry answers lapic_id cpu_id s =
     (let config = phys_to_virt AP_CONFIG_PHYS_ADDR;
          s0 = upd_kbytes (copy_in (phys_to_virt TRAMPOLINE_PHYS_ADDR) (\<lambda>i. code ! unat i) (of_nat (length code))) s
      in bind_res (pmm_alloc_frame env s0) (\<lambda>(frame, s1).
         let ctx = phys_to_virt frame
         in bind_res (upd_cpu ctx (\<lambda>_. zero_cpu\<lparr>c_cpu_id := cpu_id\<rparr>) s1) (\<lambda>s2.
            bind_res (cpu_register_context ctx s2) (\<lambda>s3.
            bind_res (upd_cpu ctx (\<lambda>c. c\<lparr>c_lapic_id := ucast lapic_id, c_self := ctx\<rparr>) s3) (\<lambda>s4.
            bind_res (pmm_alloc_frames env 4 s4) (\<lambda>(stack, s5).
            bind_res (upd_cpu ctx (\<lambda>c. c\<lparr>c_kernel_stack := phys_to_virt (stack + 4 * 4096)\<rparr>) s5) (\<lambda>s6.
            bind_res (fill_config config ctx entry s6) (\<lambda>s7.
            bind_res (boot_ap sleep (ucast lapic_id) 0x08 s7) (\<lambda>s8.
            let s9 = (if answers then trampoline s8 else s8)
            in bind_res (load64 s9 config CFG_READY) (\<lambda>ready.
               if ready = 0 then Inl Diverges else Inr s9))))))))))"

section \<open>Starting all CPUs\<close>

text \<open>The walk over the entries of the MADT; \<open>answers\<close> tells which CPUs start.\<close>

partial_function (option) madt_walk ::
  "cpu_env \<Rightarrow> (u64 \<Rightarrow> 'a kernel_state_scheme \<Rightarrow> 'a kernel_state_scheme res) \<Rightarrow> u8 list \<Rightarrow> u64 \<Rightarrow> (u8 \<Rightarrow> bool) \<Rightarrow> u32 \<Rightarrow>
     u64 \<Rightarrow> u64 \<Rightarrow> 'a kernel_state_scheme \<Rightarrow> 'a kernel_state_scheme res option" where
  "madt_walk env sleep code entry answers bsp e ptr s =
     (if ptr < e then
        (let m = kbytes s; apic_id = m (ptr + 3);
             enabled = m (ptr + 4) AND 1 \<noteq> 0
         in case (if m ptr = 0 \<and> enabled \<and> ucast apic_id \<noteq> bsp then
                    smp_init_cpu env sleep code entry (answers apic_id) apic_id (cpu_count s)
                      (s\<lparr>cpu_count := cpu_count s + 1\<rparr>)
                  else Inr s) of
              Inl err \<Rightarrow> Some (Inl err)
            | Inr s1 \<Rightarrow> madt_walk env sleep code entry answers bsp e (ptr + ucast (kbytes s1 (ptr + 1))) s1)
      else Some (Inr s))"

definition smp_init ::
  "cpu_env \<Rightarrow> (u64 \<Rightarrow> 'a kernel_state_scheme \<Rightarrow> 'a kernel_state_scheme res) \<Rightarrow> u8 list \<Rightarrow> u64 \<Rightarrow> (u8 \<Rightarrow> bool) \<Rightarrow> BootInfo \<Rightarrow>
     'a kernel_state_scheme \<Rightarrow> 'a kernel_state_scheme res" where
  "smp_init env sleep code entry answers bi s =
     bind_res (acpi_find_table (phys_to_virt (bi_rsdp bi)) (literal ''APIC'') s) (\<lambda>madt.
     bind_res (lapic_read LAPIC_ID s) (\<lambda>(v, s1).
     bind_res (load_u32 s1 madt SDT_LENGTH) (\<lambda>len.
     converge (madt_walk env sleep code entry answers (drop_bit 24 v) (madt + ucast len) (madt + SIZEOF_MADT) s1))))"

end
