(* ===== verification/Vfs.thy ===== *)
theory Vfs
  imports Kernel_State Std_Funcs
begin

text \<open>
  The virtual file system: \<^verbatim>\<open>kernel/fs/vfs.c\<close>. Nodes are objects of the store \<open>vfs_nodes\<close>. No file system driver is part of the
  sources: the tables of driver functions are an argument \<open>vt\<close>, which gives for the address of a table its
  functions, absent where the pointer is null. A path is the list of its characters before the terminator.
\<close>

record 's vfs_ops =
  op_read :: "(u64 \<Rightarrow> u64 \<Rightarrow> u32 \<Rightarrow> u64 \<Rightarrow> 's \<Rightarrow> (u32 \<times> 's) res) option"
  op_write :: "(u64 \<Rightarrow> u64 \<Rightarrow> u32 \<Rightarrow> u64 \<Rightarrow> 's \<Rightarrow> (u32 \<times> 's) res) option"
  op_open :: "(u64 \<Rightarrow> u32 \<Rightarrow> 's \<Rightarrow> 's res) option"
  op_close :: "(u64 \<Rightarrow> 's \<Rightarrow> 's res) option"
  op_finddir :: "(u64 \<Rightarrow> string \<Rightarrow> 's \<Rightarrow> (u64 \<times> 's) res) option"

abbreviation VFS_FILE :: u32 where "VFS_FILE \<equiv> 0x01"
abbreviation VFS_DIRECTORY :: u32 where "VFS_DIRECTORY \<equiv> 0x02"
abbreviation VFS_CHARDEVICE :: u32 where "VFS_CHARDEVICE \<equiv> 0x03"
abbreviation VFS_PIPE :: u32 where "VFS_PIPE \<equiv> 0x05"
abbreviation VFS_MOUNTPOINT :: u32 where "VFS_MOUNTPOINT \<equiv> 0x08"
abbreviation SIZEOF_VFS_NODE :: u64 where "SIZEOF_VFS_NODE \<equiv> 576"

definition zero_node :: vfs_node where
  "zero_node = \<lparr>n_name = [], n_flags = 0, n_mask = 0, n_uid = 0, n_gid = 0, n_size = 0, n_inode_num = 0,
     n_lock = \<lparr>m_count = 0, m_wait_lock = zero_lock, m_wait_list = 0, m_owner = 0\<rparr>, n_ops = 0, n_private_data = 0, n_ptr = 0\<rparr>"

definition node_at :: "'a kernel_state_scheme \<Rightarrow> u64 \<Rightarrow> vfs_node res" where
  "node_at s p = (if p = 0 then Inl NullDeref else Inr (vfs_nodes s p))"

definition upd_node :: "u64 \<Rightarrow> (vfs_node \<Rightarrow> vfs_node) \<Rightarrow> 'a kernel_state_scheme \<Rightarrow> 'a kernel_state_scheme res" where
  "upd_node p f s = (if p = 0 then Inl NullDeref else Inr (s\<lparr>vfs_nodes := (vfs_nodes s)(p := f (vfs_nodes s p))\<rparr>))"

definition vfs_init :: "cpu_env \<Rightarrow> 'a kernel_state_scheme \<Rightarrow> 'a kernel_state_scheme res" where
  "vfs_init env s =
     bind_res (kmalloc env SIZEOF_VFS_NODE s) (\<lambda>(root, s1).
     upd_node root (\<lambda>_. zero_node\<lparr>n_name := ''/'', n_flags := VFS_DIRECTORY, n_lock := mutex_new\<rparr>) (s1\<lparr>vfs_root := root\<rparr>))"

definition vfs_get_root :: "'a kernel_state_scheme \<Rightarrow> u64" where
  "vfs_get_root s = vfs_root s"

section \<open>Paths\<close>

abbreviation node_mutex :: "u64 \<Rightarrow> 'a kernel_state_scheme \<Rightarrow> mutex" where
  "node_mutex p s \<equiv> n_lock (vfs_nodes s p)"

abbreviation set_node_mutex :: "u64 \<Rightarrow> mutex \<Rightarrow> 'a kernel_state_scheme \<Rightarrow> 'a kernel_state_scheme" where
  "set_node_mutex p m s \<equiv> s\<lparr>vfs_nodes := (vfs_nodes s)(p := (vfs_nodes s p)\<lparr>n_lock := m\<rparr>)\<rparr>"

definition node_lock :: "cpu_env \<Rightarrow> u64 \<Rightarrow> 'a kernel_state_scheme \<Rightarrow> 'a kernel_state_scheme res" where
  "node_lock env p s =
     (if g_lock_enabled env \<and> p = 0 then Inl NullDeref else mutex_lock env (node_mutex p) (set_node_mutex p) s)"

definition node_unlock :: "cpu_env \<Rightarrow> u64 \<Rightarrow> 'a kernel_state_scheme \<Rightarrow> 'a kernel_state_scheme res" where
  "node_unlock env p s = mutex_unlock env (node_mutex p) (set_node_mutex p) s"

text \<open>
  What \<^verbatim>\<open>strtok_r\<close> finds in the 256-byte copy of the path: the tokens, and whether it reaches a terminator. A path of 256 characters
  or more after its slash fills the copy; the token that runs to its end is then never delimited.
\<close>

fun split_path :: "string \<Rightarrow> string \<Rightarrow> string list" where
  "split_path acc [] = [acc]"
| "split_path acc (c # cs) = (if c = CHR ''/'' then acc # split_path [] cs else split_path (acc @ [c]) cs)"

definition path_tokens :: "string \<Rightarrow> string list \<times> bool" where
  "path_tokens cs =
     (let parts = split_path [] (take 256 cs); terminated = (length cs < 256)
      in (filter (\<lambda>w. w \<noteq> []) (if terminated then parts else butlast parts), terminated))"

text \<open>The node to look in: the node itself or, if something is mounted on it, the root of that. It is locked.\<close>

definition enter_node :: "cpu_env \<Rightarrow> u64 \<Rightarrow> 'a kernel_state_scheme \<Rightarrow> (u64 \<times> 'a kernel_state_scheme) res" where
  "enter_node env cur s =
     bind_res (node_lock env cur s) (\<lambda>s1.
     bind_res (node_at s1 cur) (\<lambda>n.
       if n_ptr n \<noteq> 0 then
         bind_res (node_unlock env cur s1) (\<lambda>s2.
         bind_res (node_lock env (n_ptr n) s2) (\<lambda>s3. Inr (n_ptr n, s3)))
       else Inr (cur, s1)))"

fun vfs_walk ::
  "(u64 \<Rightarrow> 'a kernel_state_scheme vfs_ops) \<Rightarrow> cpu_env \<Rightarrow> bool \<Rightarrow> string list \<Rightarrow> u64 \<Rightarrow> 'a kernel_state_scheme \<Rightarrow>
     (u64 \<times> 'a kernel_state_scheme) res" where
  "vfs_walk vt env terminated [] cur s = (if terminated then Inr (cur, s) else Inl OutOfBounds)"
| "vfs_walk vt env terminated (token # tokens) cur s =
     bind_res (enter_node env cur s) (\<lambda>(cur1, s1).
     bind_res (node_at s1 cur1) (\<lambda>n.
       case (if n_ops n = 0 then None else op_finddir (vt (n_ops n))) of
         Some finddir \<Rightarrow>
           bind_res (finddir cur1 token s1) (\<lambda>(nxt, s2).
           bind_res (node_unlock env cur1 s2) (\<lambda>s3.
           if nxt = 0 then Inr (0, s3) else vfs_walk vt env terminated tokens nxt s3))
       | None \<Rightarrow> bind_res (node_unlock env cur1 s1) (\<lambda>s2. Inr (0, s2))))"

definition vfs_find_path ::
  "(u64 \<Rightarrow> 'a kernel_state_scheme vfs_ops) \<Rightarrow> cpu_env \<Rightarrow> string option \<Rightarrow> 'a kernel_state_scheme \<Rightarrow>
     (u64 \<times> 'a kernel_state_scheme) res" where
  "vfs_find_path vt env path s =
     (case path of
        None \<Rightarrow> Inr (0, s)
      | Some cs \<Rightarrow>
          if cs = [] \<or> hd cs \<noteq> CHR ''/'' then Inr (0, s)
          else if length cs = 1 then Inr (vfs_root s, s)
          else let (tokens, terminated) = path_tokens (tl cs) in vfs_walk vt env terminated tokens (vfs_root s) s)"

section \<open>Operations\<close>

definition vfs_open ::
  "(u64 \<Rightarrow> 'a kernel_state_scheme vfs_ops) \<Rightarrow> cpu_env \<Rightarrow> string option \<Rightarrow> u32 \<Rightarrow> 'a kernel_state_scheme \<Rightarrow>
     (u64 \<times> 'a kernel_state_scheme) res" where
  "vfs_open vt env path flags s =
     bind_res (vfs_find_path vt env path s) (\<lambda>(node, s1).
       let n = vfs_nodes s1 node
       in case (if node = 0 \<or> n_ops n = 0 then None else op_open (vt (n_ops n))) of
            Some open_fn \<Rightarrow> bind_res (open_fn node flags s1) (\<lambda>s2. Inr (node, s2))
          | None \<Rightarrow> Inr (node, s1))"

definition vfs_close ::
  "(u64 \<Rightarrow> 'a kernel_state_scheme vfs_ops) \<Rightarrow> u64 \<Rightarrow> 'a kernel_state_scheme \<Rightarrow> 'a kernel_state_scheme res" where
  "vfs_close vt node s =
     (let n = vfs_nodes s node
      in case (if node = 0 \<or> n_ops n = 0 then None else op_close (vt (n_ops n))) of
           Some close_fn \<Rightarrow> close_fn node s
         | None \<Rightarrow> Inr s)"

text \<open>Reading and writing look at the driver's table without asking whether there is one.\<close>

definition io_flags :: u32 where "io_flags = VFS_FILE OR VFS_CHARDEVICE OR VFS_PIPE"

definition vfs_transfer ::
  "cpu_env \<Rightarrow> (u64 \<Rightarrow> (u64 \<Rightarrow> u64 \<Rightarrow> u32 \<Rightarrow> u64 \<Rightarrow> 'a kernel_state_scheme \<Rightarrow> (u32 \<times> 'a kernel_state_scheme) res) option) \<Rightarrow>
     u64 \<Rightarrow> u64 \<Rightarrow> u32 \<Rightarrow> u64 \<Rightarrow> 'a kernel_state_scheme \<Rightarrow> (u32 \<times> 'a kernel_state_scheme) res" where
  "vfs_transfer env sel node offset sz buffer s =
     (if node = 0 \<or> n_flags (vfs_nodes s node) AND io_flags = 0 then Inr (0, s)
      else if n_ops (vfs_nodes s node) = 0 then Inl NullDeref
      else case sel (n_ops (vfs_nodes s node)) of
        None \<Rightarrow> Inr (0, s)
      | Some _ \<Rightarrow>
          bind_res (node_lock env node s) (\<lambda>s1.
          if n_ops (vfs_nodes s1 node) = 0 then Inl NullDeref
          else case sel (n_ops (vfs_nodes s1 node)) of
            None \<Rightarrow> Inl NullDeref
          | Some transfer \<Rightarrow>
              bind_res (transfer node offset sz buffer s1) (\<lambda>(bytes, s2).
              bind_res (node_unlock env node s2) (\<lambda>s3. Inr (bytes, s3)))))"

definition vfs_read ::
  "(u64 \<Rightarrow> 'a kernel_state_scheme vfs_ops) \<Rightarrow> cpu_env \<Rightarrow> u64 \<Rightarrow> u64 \<Rightarrow> u32 \<Rightarrow> u64 \<Rightarrow> 'a kernel_state_scheme \<Rightarrow>
     (u32 \<times> 'a kernel_state_scheme) res" where
  "vfs_read vt env node offset sz buffer s = vfs_transfer env (\<lambda>ops. op_read (vt ops)) node offset sz buffer s"

definition vfs_write ::
  "(u64 \<Rightarrow> 'a kernel_state_scheme vfs_ops) \<Rightarrow> cpu_env \<Rightarrow> u64 \<Rightarrow> u64 \<Rightarrow> u32 \<Rightarrow> u64 \<Rightarrow> 'a kernel_state_scheme \<Rightarrow>
     (u32 \<times> 'a kernel_state_scheme) res" where
  "vfs_write vt env node offset sz buffer s = vfs_transfer env (\<lambda>ops. op_write (vt ops)) node offset sz buffer s"

definition vfs_mount ::
  "(u64 \<Rightarrow> 'a kernel_state_scheme vfs_ops) \<Rightarrow> cpu_env \<Rightarrow> string option \<Rightarrow> u64 \<Rightarrow> 'a kernel_state_scheme \<Rightarrow>
     (int \<times> 'a kernel_state_scheme) res" where
  "vfs_mount vt env path local_root s =
     bind_res (vfs_find_path vt env path s) (\<lambda>(node, s1).
       if node = 0 then Inr (-1, s1)
       else
         bind_res (node_lock env node s1) (\<lambda>s2.
         bind_res (upd_node node (\<lambda>n. n\<lparr>n_flags := n_flags n OR VFS_MOUNTPOINT, n_ptr := local_root\<rparr>) s2) (\<lambda>s3.
         bind_res (node_unlock env node s3) (\<lambda>s4. Inr (0, s4)))))"

end
