(* ===== verification/Kernel_Main.thy ===== *)
theory Kernel_Main
  imports Smp Vfs
begin

text \<open>
  The entry points of the kernel, \<^verbatim>\<open>kernel/src/main.c\<close> and \<^verbatim>\<open>kernel_main_ap\<close> of \<^verbatim>\<open>kernel/smp/smp.c\<close>, which put the components
  together, with the heap dump and the test picture they use.
\<close>

section \<open>Diagnostics\<close>

definition dump_fmt :: string where "dump_fmt = ''Block: %p | Size: %x | Free: %s'' @ [newline]"

partial_function (option) dump_blocks :: "cpu_env \<Rightarrow> u64 \<Rightarrow> 'a kernel_state_scheme \<Rightarrow> 'a kernel_state_scheme res option" where
  "dump_blocks env cur s =
     (if cur = 0 then Some (Inr s)
      else
        case bind_res (load64 s cur H_SIZE) (\<lambda>sz.
             bind_res (load32 s cur H_FREE) (\<lambda>free.
             bind_res (kprintf env dump_fmt [VaInt cur, VaInt sz, VaStr (Some (if free \<noteq> 0 then ''YES'' else ''NO''))] s) (\<lambda>s1.
             bind_res (load64 s1 cur H_NEXT) (\<lambda>nxt. Inr (nxt, s1))))) of
          Inl e \<Rightarrow> Some (Inl e)
        | Inr (nxt, s1) \<Rightarrow> dump_blocks env nxt s1)"

definition kmalloc_dump :: "cpu_env \<Rightarrow> 'a kernel_state_scheme \<Rightarrow> 'a kernel_state_scheme res" where
  "kmalloc_dump env s =
     bind_res (spin_lock env (heap_lock s)) (\<lambda>l.
     bind_res (kprintf env ([newline] @ ''----- DUMP START -----'' @ [newline]) [] (s\<lparr>heap_lock := l\<rparr>)) (\<lambda>s1.
     bind_res (converge (dump_blocks env (heap_start s1) s1)) (\<lambda>s2.
     bind_res (kprintf env (''----- DUMP END -----'' @ [newline]) [] s2) (\<lambda>s3.
     Inr (s3\<lparr>heap_lock := spin_unlock env (heap_lock s3)\<rparr>)))))"

text \<open>A square of 50 by 50 pixels, in the colour and at the place of the CPU; the index into the frame buffer is computed in 32 bits.\<close>

definition square_pixel :: "u64 \<Rightarrow> u64 \<Rightarrow> u32 \<Rightarrow> nat \<times> nat \<Rightarrow> u64" where
  "square_pixel cpu_id fb_base stride =
     (\<lambda>(y, x). let offset_x = ucast (100 + cpu_id * 100) :: u32
              in fb_base + 4 * ucast ((200 + of_nat y) * stride + offset_x) + 4 * of_nat x)"

definition draw_test_squares_safe ::
  "u64 \<Rightarrow> u64 \<Rightarrow> u32 \<Rightarrow> 'a io_state_scheme \<Rightarrow> 'a io_state_scheme" where
  "draw_test_squares_safe cpu_id fb_base stride s =
     (if fb_base = 0 then s
      else let color = [0xFF0000, 0x00FF00, 0x0000FF, 0xFFFF00] ! unat (cpu_id mod 4)
           in fold (\<lambda>yx. mmio_write (square_pixel cpu_id fb_base stride yx) color)
                (List.product [0..<50] [0..<50]) s)"

text \<open>A string literal stored with its terminator, and the string found at a pointer.\<close>

definition store_string :: "u64 \<Rightarrow> string \<Rightarrow> 'a vmm_state_scheme \<Rightarrow> 'a vmm_state_scheme res" where
  "store_string p cs s =
     (if p = 0 then Inl NullDeref else Inr (upd_kbytes (copy_in p (literal cs) (of_nat (length cs) + 1)) s))"

definition string_at :: "'a vmm_state_scheme \<Rightarrow> u64 \<Rightarrow> string res" where
  "string_at s p =
     (if p = 0 then Inl NullDeref
      else case strlen (at_ptr (kbytes s) p) of
        None \<Rightarrow> Inl Diverges
      | Some n \<Rightarrow> Inr (map (\<lambda>i. char_of (unat (kbytes s (p + of_nat i)))) [0 ..< unat n]))"

section \<open>Application processors\<close>

text \<open>
  \<^verbatim>\<open>kernel_main_ap\<close> until it enables interrupts and halts. The addresses of functions and the code of the test task are arguments.
\<close>

record kernel_image =
  k_symbols :: linker_symbols
  k_isr_stubs :: "nat \<Rightarrow> u64"
  k_idt :: u64
  k_syscall_entry :: u64
  k_idle_task :: u64
  k_task_a :: u64
  k_task_b :: u64
  k_main_ap :: u64
  k_trampoline :: "u8 list"
  k_user_task_ap :: bytes

definition ap_heap_test :: "cpu_env \<Rightarrow> u64 \<Rightarrow> 'a kernel_state_scheme \<Rightarrow> 'a kernel_state_scheme res" where
  "ap_heap_test env cpu_id s =
     bind_res (kmalloc env 64 s) (\<lambda>(msg, s1).
     bind_res
       (if msg \<noteq> 0 then
          bind_res (store_string msg ''CPU '' s1) (\<lambda>s2.
          let s3 = upd_kbytes (\<lambda>m. m(msg + 4 := ucast (cpu_id + 48))) s2
          in bind_res (store_string (msg + 5) ('' ALLOCATED OK'' @ [newline]) s3) (\<lambda>s4.
             bind_res (string_at s4 msg) (\<lambda>fmt. kprintf env fmt [] s4)))
        else Inr s1) (\<lambda>s5.
     kfree env msg s5))"

definition kernel_main_ap ::
  "cpu_env \<Rightarrow> kernel_image \<Rightarrow> BootInfo option \<Rightarrow> u64 \<Rightarrow> 'a kernel_state_scheme \<Rightarrow> 'a kernel_state_scheme res" where
  "kernel_main_ap env img g_bi ctx s =
     bind_res (gdt_setup_for_cpu ctx (cpu_enable_sse (enable_nxe s))) (\<lambda>s1.
     bind_res (cpu_init_context (core_of env) ctx s1) (\<lambda>s2.
     let s3 = idt_init (k_isr_stubs img) (k_idt img) s2;
         s4 = vmm_enable_pat (cpu_init_syscalls (core_of env) (k_syscall_entry img) s3)
     in bind_res (lapic_init_ap s4) (\<lambda>s5.
        bind_res (lapic_timer_init env 5 32 s5) (\<lambda>s6.
        bind_res (sched_init_ap env (k_idle_task img) s6) (\<lambda>s7.
        bind_res (cpu_at s7 ctx) (\<lambda>c.
        let s8 = (case g_bi of
                    None \<Rightarrow> s7
                  | Some bi \<Rightarrow> draw_test_squares_safe (c_cpu_id c) (framebuffer_base (bi_fb bi)) (pixels_per_scanline (bi_fb bi)) s7)
        in bind_res (ap_heap_test env (c_cpu_id c) s8) (\<lambda>s9.
           bind_res (arch_task_create_user env (k_user_task_ap img) s9) (\<lambda>(_, s10).
           Inr s10))))))))"


section \<open>The bootstrap processor\<close>

text \<open>
  Locks are off until the local APIC is set up, and \<^verbatim>\<open>get_cpu\<close> works once \<^verbatim>\<open>cpu_init_bsp\<close> has run. \<open>rsp\<close> is the stack
  pointer the loader left, \<open>bi_phys\<close> the physical address of the boot information.
\<close>

definition early_env :: cpu_env where "early_env = \<lparr>g_lock_enabled = False, this_cpu = None\<rparr>"
definition bsp_env :: cpu_env where "bsp_env = \<lparr>g_lock_enabled = False, this_cpu = Some 0\<rparr>"
definition smp_env :: cpu_env where "smp_env = \<lparr>g_lock_enabled = True, this_cpu = Some 0\<rparr>"

definition kernel_main ::
  "kernel_image \<Rightarrow> u64 \<Rightarrow> u64 \<Rightarrow> BootInfo \<Rightarrow> 'a kernel_state_scheme \<Rightarrow> (BootInfo \<times> 'a kernel_state_scheme) res" where
  "kernel_main img rsp bi_phys bi s =
     bind_res (pmm_init bi s) (\<lambda>s1.
     bind_res (vmm_init early_env (k_symbols img) rsp bi_phys bi (init_serial s1)) (\<lambda>(bi1, s2).
     Inr (bi1, s2\<lparr>cr3s := (cr3s s2)(0 := kernel_pml4_phys s2)\<rparr>)))"

text \<open>The heap test of \<^verbatim>\<open>kernel_main_high\<close>.\<close>

definition say :: "cpu_env \<Rightarrow> string \<Rightarrow> va_arg list \<Rightarrow> 'a kernel_state_scheme \<Rightarrow> 'a kernel_state_scheme res" where
  "say env fmt args s = kprintf env (fmt @ [newline]) args s"

definition heap_test :: "cpu_env \<Rightarrow> 'a kernel_state_scheme \<Rightarrow> 'a kernel_state_scheme res" where
  "heap_test env s =
     bind_res (say env ''Starting Coalescing Test'' [] s) (\<lambda>s1.
     bind_res (kmalloc env 3000 s1) (\<lambda>(t1, s2).
     bind_res (kmalloc env 4050 s2) (\<lambda>(t2, s3).
     bind_res (kmalloc env 5500 s3) (\<lambda>(t3, s4).
     bind_res (say env ''t1: %p'' [VaInt t1] s4) (\<lambda>s5.
     bind_res (say env ''t2: %p'' [VaInt t2] s5) (\<lambda>s6.
     bind_res (say env ''t3: %p'' [VaInt t3] s6) (\<lambda>s7.
     bind_res (kfree env t1 s7) (\<lambda>s8.
     bind_res (kfree env t2 s8) (\<lambda>s9.
     bind_res (kmalloc env 4500 s9) (\<lambda>(t4, s10).
     bind_res (say env ''t4 (should reuse t1 space): %p'' [VaInt t4] s10) (\<lambda>s11.
     bind_res (if t4 = t1 then say env ''SUCCESS: Coalescing works! t4 reused and merged t1+t2.'' [] s11
               else say env ''DEBUG: t4 is at: %p'' [VaInt t4] s11) (\<lambda>s12.
     bind_res (store_string t4 (''## DATA SAVED IN T4 ##'' @ [newline]) s12) (\<lambda>s13.
     bind_res (string_at s13 t4) (\<lambda>cs.
     bind_res (say env ''%s'' [VaStr (Some cs)] s13) (\<lambda>s14.
     kmalloc_dump env s14)))))))))))))))"

text \<open>The ram disk and the first user task.\<close>

definition start_init :: "cpu_env \<Rightarrow> BootInfo \<Rightarrow> 'a kernel_state_scheme \<Rightarrow> 'a kernel_state_scheme res" where
  "start_init env bi s =
     (let base = ramdisk_addr (bi_ramdisk bi); len = ramdisk_size (bi_ramdisk bi);
          ramdisk_vaddr = phys_to_virt base;
          s1 = tar_init ramdisk_vaddr len s
      in bind_res (say env ''##### RAMDISK DIAGNOSTIC #####'' [] s1) (\<lambda>s2.
         bind_res (say env ''Address Phys: %p'' [VaInt base] s2) (\<lambda>s3.
         bind_res (say env ''Address Virt: %p'' [VaInt ramdisk_vaddr] s3) (\<lambda>s4.
         bind_res (say env ''Size:         %x bytes'' [VaInt len] s4) (\<lambda>s5.
         bind_res (tar_lookup (literal ''init.elf'') s5) (\<lambda>(file1, sz1).
         bind_res
           (if file1 = 0 then
              bind_res (say env ''Trying alternative path...'' [] s5) (\<lambda>s6.
              bind_res (tar_lookup (literal ''ramdisk/init.elf'') s6) (\<lambda>(file2, sz2). Inr (file2, sz2, s6)))
            else Inr (file1, sz1, s5)) (\<lambda>(file, sz, s7).
         if file = 0 then Inr s7
         else
           bind_res (say env ''SUCCESS! Found init.elf at: %p Size: %x'' [VaInt file, VaInt (case sz of None \<Rightarrow> 0 | Some n \<Rightarrow> n)] s7)
             (\<lambda>s8.
           bind_res (arch_task_spawn_elf env file s8) (\<lambda>(t, s9).
           if t \<noteq> 0 then say env ''Launching init.elf (TID will be assigned)...'' [] s9
           else say env ''ERROR: Failed to spawn init.elf - check VMM or ELF header.'' [] s9)))))))))"

text \<open>Interrupt controllers, timer, keyboard, scheduler, first task and the other CPUs, once the MADT is found.\<close>

definition start_devices ::
  "kernel_image \<Rightarrow> (u64 \<Rightarrow> 'a kernel_state_scheme \<Rightarrow> 'a kernel_state_scheme res) \<Rightarrow> (u8 \<Rightarrow> bool) \<Rightarrow> BootInfo \<Rightarrow> u64 \<Rightarrow>
     'a kernel_state_scheme \<Rightarrow> 'a kernel_state_scheme res" where
  "start_devices img sleep answers bi madt s =
     bind_res (load_u32 s madt MADT_LAPIC) (\<lambda>lapic.
     bind_res (vmm_map_device bsp_env (kernel_pml4 s) (phys_to_virt (ucast lapic)) (ucast lapic) 4096 s) (\<lambda>(v_lapic, s1).
     bind_res (lapic_init v_lapic s1) (\<lambda>s2.
     bind_res (lapic_timer_init smp_env 5 32 s2) (\<lambda>s3.
     bind_res (ioapic_init smp_env 0xFEC00000 s3) (\<lambda>s4.
     bind_res (ioapic_set_irq 1 0 33 s4) (\<lambda>s5.
     bind_res (i8042_init smp_env s5) (\<lambda>s6.
     bind_res (sched_init smp_env (k_idle_task img) s6) (\<lambda>s7.
     bind_res (start_init smp_env bi s7) (\<lambda>s8.
     bind_res (say smp_env ''Starting SMP initialization...'' [] s8) (\<lambda>s9.
     bind_res (smp_init smp_env sleep (k_trampoline img) (k_main_ap img) answers bi s9) (\<lambda>s10.
     bind_res
       (if get_cpu_count_test s10 > 1 then
          bind_res (say smp_env ''BSP: IPI_TEST CPU 1...'' [] s10) (lapic_send_ipi 1 IPI_VECTOR_TEST)
        else Inr s10) (\<lambda>s11.
     bind_res (say smp_env ''BSP: Broadcasting IPI...'' [] s11)
       (lapic_broadcast_ipi IPI_VECTOR_TEST)))))))))))))"

text \<open>
  \<^verbatim>\<open>kernel_main_high\<close> until it idles. The environment of the rest depends on whether the APIC was found.
\<close>

definition kernel_main_high ::
  "kernel_image \<Rightarrow> (u64 \<Rightarrow> 'a kernel_state_scheme \<Rightarrow> 'a kernel_state_scheme res) \<Rightarrow> (u8 \<Rightarrow> bool) \<Rightarrow> BootInfo \<Rightarrow>
     'a kernel_state_scheme \<Rightarrow> 'a kernel_state_scheme res" where
  "kernel_main_high img sleep answers bi s =
     bind_res (cpu_init_bsp early_env s) (\<lambda>s1.
     let s2 = idt_init (k_isr_stubs img) (k_idt img) (cpu_init_syscalls 0 (k_syscall_entry img) s1)
     in bind_res (say bsp_env ''###   Greetings from Higher Half!   ###'' [] s2) (\<lambda>s3.
        bind_res (kmalloc_init bsp_env s3) (\<lambda>s4.
        bind_res (say bsp_env ''Heap initialized.'' [] s4) (\<lambda>s5.
        bind_res (heap_test bsp_env s5) (\<lambda>s6.
        let s7 = draw_test_squares_safe 1 (framebuffer_base (bi_fb bi)) (pixels_per_scanline (bi_fb bi)) s6
        in bind_res (if bi_rsdp bi \<noteq> 0 then acpi_find_table (phys_to_virt (bi_rsdp bi)) (literal ''APIC'') s7 else Inr 0) (\<lambda>madt.
           let env = (if madt \<noteq> 0 then smp_env else bsp_env)
           in bind_res (if madt \<noteq> 0 then start_devices img sleep answers bi madt s7 else Inr s7) (\<lambda>s8.
              bind_res (vmm_unmap_range env (kernel_pml4 s8) 0x0 0x100000 s8) (\<lambda>s9.
              bind_res (vmm_unmap_range env (kernel_pml4 s9) KERNEL_PHYS_BASE 0x400000 s9) (\<lambda>s10.
              bind_res (say env ''Kernel isolated.'' [] s10) (\<lambda>s11.
              bind_res (say env ''Testing timer with msleep (5 seconds)...'' [] s11) (\<lambda>s12.
              bind_res (for_each (\<lambda>i t. bind_res (sleep 1000 t) (say env ''Tick %ds...'' [VaInt i])) [1, 2, 3, 4, 5] s12) (\<lambda>s13.
              bind_res (arch_task_create env (k_task_a img) s13) (\<lambda>(_, s14).
              bind_res (arch_task_create env (k_task_b img) s14) (\<lambda>(_, s15).
              bind_res (say env ''Timer TEST PASSED! Uptime: %dms'' [VaInt (get_uptime_ms s15)] s15) (\<lambda>s16.
              bind_res (say env ''###   Higher Half kernel is now idling.   ###'' [] s16)
                (kmalloc_dump env))))))))))))))))"

end
