(* ===== verification/Boot_Loader.thy ===== *)
theory Boot_Loader
  imports Context Boot_Info
begin

text \<open>
  The UEFI boot loader, \<^verbatim>\<open>boot/src\<close>. The firmware is not part of the sources: its services are the fields of \<open>efi\<close>, functions of
  their arguments and, where a repeated call may answer differently, of the number of the call. Memory is the
  physical memory of bytes the loader writes to. \<^verbatim>\<open>boot_panic\<close> prints and halts for ever, so that the statements
  behind it are not reached; its messages are the ones of the code.
\<close>

section \<open>Firmware services\<close>

record efi_file =
  f_seek :: "u64 \<Rightarrow> bool"
  f_read :: "u64 \<Rightarrow> u64 \<Rightarrow> u8 list option"
  f_end :: "u64 option"

record efi_gop =
  gop_base :: u64
  gop_size :: u64
  gop_width :: u32
  gop_height :: u32
  gop_stride :: u32
  gop_format :: u32
  gop_red :: u32
  gop_green :: u32
  gop_blue :: u32
  gop_reserved :: u32

datatype map_reply = TooSmall u64 u64 | MapError | MapOk u64 u64 u64 u32 "EFI_MEMORY_DESCRIPTOR list"

record efi =
  efi_image :: bool
  efi_fs :: bool
  efi_volume :: bool
  efi_open :: "string \<Rightarrow> efi_file option"
  efi_pool :: "nat \<Rightarrow> u64 \<Rightarrow> bool"
  efi_pages_at :: "u64 \<Rightarrow> u64 \<Rightarrow> bool"
  efi_pages :: "u64 \<Rightarrow> u64 option"
  efi_gop_info :: "efi_gop option"
  efi_config :: "(u8 list \<times> u64) list"
  efi_get_map :: "nat \<Rightarrow> u64 \<Rightarrow> map_reply"
  efi_exit :: "nat \<Rightarrow> u64 \<Rightarrow> bool"

section \<open>Memory helpers\<close>

definition SetMem :: "u64 \<Rightarrow> u64 \<Rightarrow> u8 \<Rightarrow> bytes \<Rightarrow> bytes" where
  "SetMem dst sz value m = memset dst value sz m"

definition ZeroMem :: "u64 \<Rightarrow> u64 \<Rightarrow> bytes \<Rightarrow> bytes" where
  "ZeroMem buffer sz m = memset buffer 0 sz m"

fun CompareGuid :: "u8 list \<Rightarrow> u8 list \<Rightarrow> bool" where
  "CompareGuid (a # as) (b # bs) \<longleftrightarrow> (if a \<noteq> b then False else CompareGuid as bs)"
| "CompareGuid as bs \<longleftrightarrow> True"

definition put_bytes :: "u64 \<Rightarrow> u8 list \<Rightarrow> bytes \<Rightarrow> bytes" where
  "put_bytes d bs m = copy_in d (\<lambda>i. bs ! unat i) (of_nat (length bs)) m"

section \<open>The kernel image\<close>

record Elf64_Ehdr =
  e_ident :: "u8 list"
  e_type :: u16
  e_machine :: u16
  e_version :: u32
  e_entry :: u64
  e_phoff :: u64
  e_shoff :: u64
  e_flags :: u32
  e_ehsize :: u16
  e_phentsize :: u16
  e_phnum :: u16
  e_shentsize :: u16
  e_shnum :: u16
  e_shstrndx :: u16

abbreviation SIZEOF_EHDR :: u64 where "SIZEOF_EHDR \<equiv> 64"
abbreviation EM_X86_64 :: u16 where "EM_X86_64 \<equiv> 62"
abbreviation ET_EXEC :: u16 where "ET_EXEC \<equiv> 2"
abbreviation ET_DYN :: u16 where "ET_DYN \<equiv> 3"

definition field :: "u8 list \<Rightarrow> nat \<Rightarrow> nat \<Rightarrow> u64" where
  "field bs off n = join_bytes (take n (drop off bs))"

definition parse_ehdr :: "u8 list \<Rightarrow> Elf64_Ehdr" where
  "parse_ehdr bs =
     \<lparr>e_ident = take 16 bs, e_type = ucast (field bs 16 2), e_machine = ucast (field bs 18 2),
      e_version = ucast (field bs 20 4), e_entry = field bs 24 8, e_phoff = field bs 32 8, e_shoff = field bs 40 8,
      e_flags = ucast (field bs 48 4), e_ehsize = ucast (field bs 52 2), e_phentsize = ucast (field bs 54 2),
      e_phnum = ucast (field bs 56 2), e_shentsize = ucast (field bs 58 2), e_shnum = ucast (field bs 60 2),
      e_shstrndx = ucast (field bs 62 2)\<rparr>"

definition parse_phdr :: "u8 list \<Rightarrow> Elf64_Phdr" where
  "parse_phdr bs =
     \<lparr>p_type = ucast (field bs 0 4), p_flags = ucast (field bs 4 4), p_offset = field bs 8 8, p_vaddr = field bs 16 8,
      p_paddr = field bs 24 8, p_filesz = field bs 32 8, p_memsz = field bs 40 8, p_align = field bs 48 8\<rparr>"

text \<open>The checks of the header: the message of the panic, if one fails.\<close>

definition check_ehdr :: "Elf64_Ehdr \<Rightarrow> string option" where
  "check_ehdr eh =
     (if take 4 (e_ident eh) \<noteq> [0x7F, 0x45, 0x4C, 0x46] then Some ''[KERNEL] Invalid ELF magic''
      else if e_machine eh \<noteq> EM_X86_64 then Some ''[KERNEL] ELF is not x86_64''
      else if e_phentsize eh \<noteq> 56 \<or> e_phnum eh = 0 then Some ''[KERNEL] Invalid program header layout''
      else if e_type eh \<noteq> ET_EXEC \<and> e_type eh \<noteq> ET_DYN then
        Some ''[KERNEL] Unsupported ELF type (expect ET_EXEC/ET_DYN)''
      else None)"

definition loadable :: "Elf64_Phdr \<Rightarrow> bool" where
  "loadable ph \<longleftrightarrow> \<not> (p_type ph \<noteq> PT_LOAD \<or> p_memsz ph = 0)"

fun image_range :: "Elf64_Phdr list \<Rightarrow> u64 \<times> u64 \<Rightarrow> u64 \<times> u64" where
  "image_range [] r = r"
| "image_range (ph # phs) (lo, hi) =
     (if \<not> loadable ph then image_range phs (lo, hi)
      else let lo' = (if p_vaddr ph < lo then p_vaddr ph else lo);
               e = p_vaddr ph + p_memsz ph;
               hi' = (if e > hi then e else hi)
           in image_range phs (lo', hi'))"

text \<open>One segment: its file part is read, the rest cleared. \<open>None\<close>: seeking failed, the error is returned.\<close>

definition load_segment :: "efi_file \<Rightarrow> u64 \<Rightarrow> u64 \<Rightarrow> Elf64_Phdr \<Rightarrow> bytes \<Rightarrow> bytes option res" where
  "load_segment f dst_base lo ph m =
     (let seg_dst = dst_base + (p_vaddr ph - lo);
          bss = (\<lambda>m1. if p_memsz ph > p_filesz ph
                      then SetMem (seg_dst + p_filesz ph) (p_memsz ph - p_filesz ph) 0 m1 else m1)
      in if p_filesz ph > 0 then
           if \<not> f_seek f (p_offset ph) then Inr None
           else (case f_read f (p_offset ph) (p_filesz ph) of
                   None \<Rightarrow> Inl (KPanic ''[KERNEL] Failed to read segment data'')
                 | Some bs \<Rightarrow>
                     if of_nat (length bs) \<noteq> p_filesz ph then Inl (KPanic ''[KERNEL] Failed to read segment data'')
                     else Inr (Some (bss (put_bytes seg_dst bs m))))
         else Inr (Some (bss m)))"

fun load_segments :: "efi_file \<Rightarrow> u64 \<Rightarrow> u64 \<Rightarrow> Elf64_Phdr list \<Rightarrow> bytes \<Rightarrow> bytes option res" where
  "load_segments f dst_base lo [] m = Inr (Some m)"
| "load_segments f dst_base lo (ph # phs) m =
     (if \<not> loadable ph then load_segments f dst_base lo phs m
      else bind_res (load_segment f dst_base lo ph m) (\<lambda>r.
        case r of None \<Rightarrow> Inr None | Some m1 \<Rightarrow> load_segments f dst_base lo phs m1))"

definition EFI_SIZE_TO_PAGES :: "u64 \<Rightarrow> u64" where
  "EFI_SIZE_TO_PAGES n = drop_bit 12 n + (if n AND 0xFFF \<noteq> 0 then 1 else 0)"

abbreviation KERNEL_LOAD_ADDR :: u64 where "KERNEL_LOAD_ADDR \<equiv> 0x2000000"

text \<open>The program headers; \<open>Inr None\<close> when seeking failed.\<close>

definition read_phdrs :: "efi \<Rightarrow> efi_file \<Rightarrow> Elf64_Ehdr \<Rightarrow> Elf64_Phdr list option res" where
  "read_phdrs fw f eh =
     (let ph_size = (ucast (e_phentsize eh) * ucast (e_phnum eh) :: u64)
      in if \<not> efi_pool fw 0 ph_size then Inl (KPanic ''[KERNEL] AllocatePool for program headers failed'')
         else if \<not> f_seek f (e_phoff eh) then Inr None
         else (case f_read f (e_phoff eh) ph_size of
                 None \<Rightarrow> Inl (KPanic ''[KERNEL] Failed to read program headers'')
               | Some bs \<Rightarrow>
                   if of_nat (length bs) \<noteq> ph_size then Inl (KPanic ''[KERNEL] Failed to read program headers'')
                   else Inr (Some (map (\<lambda>i. parse_phdr (take 56 (drop (56 * i) bs))) [0 ..< unat (e_phnum eh)]))))"

definition place_image ::
  "efi \<Rightarrow> efi_file \<Rightarrow> Elf64_Ehdr \<Rightarrow> Elf64_Phdr list \<Rightarrow> bytes \<Rightarrow> (BootKernel option \<times> bytes) res" where
  "place_image fw f eh phs m =
     (let (lo, hi) = image_range phs (-1, 0)
      in if lo = -1 \<or> hi \<le> lo then Inl (KPanic ''[KERNEL] No loadable PT_LOAD segments found'')
         else let image_size = hi - lo
         in if \<not> efi_pages_at fw KERNEL_LOAD_ADDR (EFI_SIZE_TO_PAGES image_size) then
              Inl (KPanic ''[KERNEL] AllocatePages failed'')
            else bind_res (load_segments f KERNEL_LOAD_ADDR lo phs m) (\<lambda>r.
              case r of
                None \<Rightarrow> Inr (None, m)
              | Some m1 \<Rightarrow>
                  Inr (Some \<lparr>kernel_entry = KERNEL_LOAD_ADDR + (e_entry eh - lo), kernel_base = KERNEL_LOAD_ADDR,
                       kernel_size = image_size\<rparr>, m1)))"

text \<open>The kernel, or \<open>None\<close> when an error status is returned instead.\<close>

definition load_kernel_elf :: "efi \<Rightarrow> efi_file \<Rightarrow> bytes \<Rightarrow> (BootKernel option \<times> bytes) res" where
  "load_kernel_elf fw f m =
     (case f_read f 0 SIZEOF_EHDR of
        None \<Rightarrow> Inl (KPanic ''[KERNEL] Failed to read ELF header'')
      | Some bs \<Rightarrow>
          if of_nat (length bs) \<noteq> SIZEOF_EHDR then Inl (KPanic ''[KERNEL] Failed to read ELF header'')
          else let eh = parse_ehdr bs
          in (case check_ehdr eh of
                Some msg \<Rightarrow> Inl (KPanic msg)
              | None \<Rightarrow>
                  bind_res (read_phdrs fw f eh) (\<lambda>r.
                  case r of None \<Rightarrow> Inr (None, m) | Some phs \<Rightarrow> place_image fw f eh phs m)))"

definition open_kernel_file :: "efi \<Rightarrow> efi_file res" where
  "open_kernel_file fw =
     (if \<not> efi_image fw then Inl (KPanic ''[KERNEL] HandleProtocol(LoadedImage) failed'')
      else if \<not> efi_fs fw then Inl (KPanic ''[KERNEL] HandleProtocol(SimpleFileSystem) failed'')
      else if \<not> efi_volume fw then Inl (KPanic ''[KERNEL] OpenVolume failed'')
      else case efi_open fw (CHR 0x5C # ''kernel.elf'') of
        None \<Rightarrow> Inl (KPanic (''[KERNEL] Failed to open '' @ [CHR 0x5C] @ ''kernel.elf''))
      | Some f \<Rightarrow> Inr f)"

definition init_kernel :: "efi \<Rightarrow> bytes \<Rightarrow> (BootKernel option \<times> bytes) res" where
  "init_kernel fw m = bind_res (open_kernel_file fw) (\<lambda>f. load_kernel_elf fw f m)"

section \<open>Graphics, ACPI and the ram disk\<close>

definition init_gop :: "efi \<Rightarrow> BootFramebuffer res" where
  "init_gop fw =
     (case efi_gop_info fw of
        None \<Rightarrow> Inl (KPanic ''[GOP] Failed to locate GOP protocol'')
      | Some g \<Rightarrow>
          Inr \<lparr>framebuffer_size = gop_size g, framebuffer_base = gop_base g, fb_width = gop_width g, fb_height = gop_height g,
            pixels_per_scanline = gop_stride g, fb_format = gop_format g, red_mask = gop_red g, green_mask = gop_green g,
            blue_mask = gop_blue g, reserved_mask = gop_reserved g\<rparr>)"

definition gEfiAcpiTableGuid :: "u8 list" where
  "gEfiAcpiTableGuid =
     [0x30, 0x2D, 0x9D, 0xEB, 0x88, 0x2D, 0xD3, 0x11, 0x9A, 0x16, 0x00, 0x90, 0x27, 0x3F, 0xC1, 0x4D]"

definition gEfiAcpi20TableGuid :: "u8 list" where
  "gEfiAcpi20TableGuid =
     [0x71, 0xE8, 0x68, 0x88, 0xF1, 0xE4, 0xD3, 0x11, 0xBC, 0x22, 0x00, 0x80, 0xC7, 0x3C, 0x88, 0x81]"

fun find_rsdp :: "(u8 list \<times> u64) list \<Rightarrow> u64" where
  "find_rsdp [] = 0"
| "find_rsdp ((guid, table) # es) =
     (if CompareGuid guid gEfiAcpi20TableGuid \<or> CompareGuid guid gEfiAcpiTableGuid then table else find_rsdp es)"

definition init_acpi :: "efi \<Rightarrow> u64 res" where
  "init_acpi fw =
     (let rsdp = find_rsdp (efi_config fw) in if rsdp = 0 then Inl (KPanic ''[ACPI] RSDP not found'') else Inr rsdp)"

text \<open>\<^verbatim>\<open>init_ramdisk\<close> does not look at the status of the calls that open the volume.\<close>

definition init_ramdisk :: "efi \<Rightarrow> bytes \<Rightarrow> (BootRamdisk \<times> bytes) res" where
  "init_ramdisk fw m =
     (if \<not> (efi_image fw \<and> efi_fs fw \<and> efi_volume fw) then Inl NullDeref
      else case efi_open fw ''initrd.tar'' of
        None \<Rightarrow> Inl (KPanic ''Could not find initrd.tar!'')
      | Some f \<Rightarrow>
          if \<not> f_seek f 0xFFFFFFFFFFFFFFFF then Inl (KPanic ''SetPosition to end failed!'')
          else (case f_end f of
            None \<Rightarrow> Inl (KPanic ''GetPosition failed or file is empty!'')
          | Some final_size \<Rightarrow>
              if final_size = 0 then Inl (KPanic ''GetPosition failed or file is empty!'')
              else (case efi_pages fw ((final_size + 4095) div 4096) of
                None \<Rightarrow> Inl (KPanic ''Failed to allocate pages for RAMDISK'')
              | Some phys \<Rightarrow>
                  (case f_read f 0 final_size of
                     None \<Rightarrow> Inl (KPanic ''Read failed or size mismatch!'')
                   | Some bs \<Rightarrow>
                       if of_nat (length bs) \<noteq> final_size then Inl (KPanic ''Read failed or size mismatch!'')
                       else Inr (\<lparr>ramdisk_addr = phys, ramdisk_size = final_size\<rparr>, put_bytes phys bs m)))))"

section \<open>The memory map and the hand-over\<close>

text \<open>
  \<open>sz\<close> is the size of the buffer, \<open>n\<close> the number of the call. The map the firmware returns fits the buffer.
\<close>

partial_function (option) exit_loop :: "efi \<Rightarrow> nat \<Rightarrow> u64 \<Rightarrow> BootMemoryMap res option" where
  "exit_loop fw n sz =
     (case efi_get_map fw n sz of
        TooSmall need desc_size \<Rightarrow>
          let sz1 = need + 4 * desc_size
          in if efi_pool fw (Suc n) sz1 then exit_loop fw (Suc n) sz1
             else Some (Inl (KPanic ''[MM] Re-allocate MemoryMap buffer failed''))
      | MapError \<Rightarrow> Some (Inl (KPanic ''[MM] GetMemoryMap failed''))
      | MapOk used key desc_size version descs \<Rightarrow>
          if efi_exit fw n key then
            Some (Inr \<lparr>memory_map = descs, memory_map_size = used, descriptor_size = desc_size, descriptor_version = version\<rparr>)
          else
            let sz1 = used + 2 * desc_size
            in if efi_pool fw (Suc n) sz1 then exit_loop fw (Suc n) sz1
               else Some (Inl (KPanic ''[MM] Re-allocate MemoryMap buffer failed'')))"

definition final_memory_map_and_exit :: "efi \<Rightarrow> BootMemoryMap res" where
  "final_memory_map_and_exit fw =
     (case efi_get_map fw 0 0 of
        TooSmall need desc_size \<Rightarrow>
          let sz = need + 4 * desc_size
          in if efi_pool fw 1 sz then converge (exit_loop fw 1 sz)
             else Inl (KPanic ''[MM] Failed to allocate memory for MemoryMap'')
      | _ \<Rightarrow> Inl (KPanic ''[MM] First GetMemoryMap did not return EFI_BUFFER_TOO_SMALL''))"

text \<open>What the loader hands to the kernel, and the memory it leaves.\<close>

definition efi_main :: "efi \<Rightarrow> bytes \<Rightarrow> (BootInfo \<times> bytes) res" where
  "efi_main fw m =
     bind_res (init_gop fw) (\<lambda>fb.
     bind_res (init_acpi fw) (\<lambda>rsdp.
     bind_res (init_kernel fw m) (\<lambda>(k, m1).
     case k of
       None \<Rightarrow> Inl (KPanic ''Failed to load kernel ELF'')
     | Some kn \<Rightarrow>
         bind_res (init_ramdisk fw m1) (\<lambda>(rd, m2).
         bind_res (final_memory_map_and_exit fw) (\<lambda>mm.
         Inr (\<lparr>bi_fb = fb, bi_mmap = mm, bi_rsdp = rsdp, bi_kernel = kn, bi_ramdisk = rd\<rparr>, m2))))))"

end
