(* ===== verification/Entry.thy ===== *)
theory Entry
  imports Syscall
begin

text \<open>
  The assembly between the processor and the C code: the interrupt stubs of \<^verbatim>\<open>kernel/arch/x86_64/idt_stubs.asm\<close>, the entry
  point of system calls of \<^verbatim>\<open>kernel/syscall/syscall.asm\<close> and \<^verbatim>\<open>kernel/arch/x86_64/gdt_flush.asm\<close>, instruction by instruction.
  A machine is the registers of the CPU that executes together with the state of the kernel, whose memory holds the stacks. What
  the C code leaves in the registers does not matter: every one is loaded again from the stack before the return.
\<close>

section \<open>Registers and instructions\<close>

datatype reg = RAX | RCX | RDX | RBX | RBP | RSI | RDI | R8 | R9 | R10 | R11 | R12 | R13 | R14 | R15

record core =
  x_reg :: "reg \<Rightarrow> u64"
  x_rsp :: u64
  x_rip :: u64
  x_cs :: u64
  x_rflags :: u64
  x_ss :: u64

type_synonym 'a machine = "core \<times> 'a kernel_state_scheme"

definition push :: "u64 \<Rightarrow> 'a machine \<Rightarrow> 'a machine res" where
  "push v m = (case m of (c, s) \<Rightarrow>
     bind_res (store64 (x_rsp c - 8) 0 v s) (\<lambda>s1. Inr (c\<lparr>x_rsp := x_rsp c - 8\<rparr>, s1)))"

definition pop :: "'a machine \<Rightarrow> (u64 \<times> 'a machine) res" where
  "pop m = (case m of (c, s) \<Rightarrow>
     bind_res (load64 s (x_rsp c) 0) (\<lambda>v. Inr (v, c\<lparr>x_rsp := x_rsp c + 8\<rparr>, s)))"

fun push_all :: "u64 list \<Rightarrow> 'a machine \<Rightarrow> 'a machine res" where
  "push_all [] m = Inr m"
| "push_all (v # vs) m = bind_res (push v m) (push_all vs)"

fun pop_regs :: "reg list \<Rightarrow> 'a machine \<Rightarrow> 'a machine res" where
  "pop_regs [] m = Inr m"
| "pop_regs (r # rs) m =
     bind_res (pop m) (\<lambda>(v, c, s). pop_regs rs (c\<lparr>x_reg := (x_reg c)(r := v)\<rparr>, s))"

definition swapgs :: "cpu_env \<Rightarrow> 'a kernel_state_scheme \<Rightarrow> 'a kernel_state_scheme" where
  "swapgs env s =
     (let k = core_of env; gs = read_msr k MSR_GS_BASE s; kernel_gs = read_msr k MSR_KERNEL_GS_BASE s
      in write_msr k MSR_KERNEL_GS_BASE gs (write_msr k MSR_GS_BASE kernel_gs s))"

definition iretq :: "'a machine \<Rightarrow> 'a machine res" where
  "iretq m =
     bind_res (pop m) (\<lambda>(rip, m1).
     bind_res (pop m1) (\<lambda>(cs, m2).
     bind_res (pop m2) (\<lambda>(rflags, m3).
     bind_res (pop m3) (\<lambda>(rsp, m4).
     bind_res (pop m4) (\<lambda>(ss, c, s).
     Inr (c\<lparr>x_rsp := rsp, x_rip := rip, x_cs := cs, x_rflags := rflags, x_ss := ss\<rparr>, s))))))"

text \<open>The registers in the order in which both entry points push them.\<close>

definition saved_regs :: "reg list" where
  "saved_regs = [RAX, RCX, RDX, RBX, RBP, RSI, RDI, R8, R9, R10, R11, R12, R13, R14, R15]"

definition push_regs :: "'a machine \<Rightarrow> 'a machine res" where
  "push_regs m = push_all (map (x_reg (fst m)) saved_regs) m"

section \<open>Interrupt stubs\<close>

text \<open>The vectors for which the processor pushes an error code of its own.\<close>

definition error_vectors :: "nat list" where
  "error_vectors = [8, 10, 11, 12, 13, 14, 17, 21, 29, 30]"

definition isr_stub :: "nat \<Rightarrow> 'a machine \<Rightarrow> 'a machine res" where
  "isr_stub n m = push_all ((if n \<in> set error_vectors then [] else [0]) @ [of_nat n]) m"

text \<open>The code segment in the frame tells whether user code was interrupted, or is to be resumed.\<close>

definition swapgs_if_user :: "cpu_env \<Rightarrow> 'a machine \<Rightarrow> 'a machine res" where
  "swapgs_if_user env m = (case m of (c, s) \<Rightarrow>
     bind_res (load64 s (x_rsp c) 144) (\<lambda>cs. Inr (c, if cs AND 3 \<noteq> 0 then swapgs env s else s)))"

definition common_stub_in :: "cpu_env \<Rightarrow> 'a machine \<Rightarrow> 'a machine res" where
  "common_stub_in env m = bind_res (push_regs m) (swapgs_if_user env)"

text \<open>After the call: the stack pointer is the one the dispatcher returned.\<close>

definition restore_regs :: "'a machine \<Rightarrow> 'a machine res" where
  "restore_regs m =
     bind_res (pop_regs (rev saved_regs) m) (\<lambda>(c, s). Inr (c\<lparr>x_rsp := x_rsp c + 16\<rparr>, s))"

definition common_stub_out :: "cpu_env \<Rightarrow> u64 \<Rightarrow> 'a machine \<Rightarrow> 'a machine res" where
  "common_stub_out env rsp m = (case m of (c, s) \<Rightarrow>
     bind_res (swapgs_if_user env (c\<lparr>x_rsp := rsp\<rparr>, s)) (\<lambda>m1.
     bind_res (restore_regs m1) iretq))"

text \<open>A whole interrupt, from the stub of vector \<open>n\<close> to \<^verbatim>\<open>iretq\<close>; \<open>cr2\<close> is the fault address the processor holds.\<close>

definition interrupt :: "cpu_env \<Rightarrow> u64 \<Rightarrow> nat \<Rightarrow> 'a machine \<Rightarrow> 'a machine res" where
  "interrupt env cr2 n m =
     bind_res (isr_stub n m) (\<lambda>m1.
     bind_res (common_stub_in env m1) (\<lambda>(c, s).
     bind_res (interrupt_dispatch env cr2 (x_rsp c) s) (\<lambda>(rsp, s1).
     common_stub_out env rsp (c, s1))))"

section \<open>System calls\<close>

text \<open>
  The instruction \<^verbatim>\<open>syscall\<close>, executed with the instruction pointer already behind it: the processor keeps the return address
  and the flags in \<open>RCX\<close> and \<open>R11\<close>, and takes the new ones from the registers that \<^verbatim>\<open>cpu_init_syscalls\<close> sets.
\<close>

definition syscall_insn :: "cpu_env \<Rightarrow> 'a machine \<Rightarrow> 'a machine" where
  "syscall_insn env m = (case m of (c, s) \<Rightarrow>
     let k = core_of env; sel = drop_bit 32 (read_msr k MSR_STAR s) AND 0xFFFF
     in (c\<lparr>x_reg := (x_reg c)(RCX := x_rip c, R11 := x_rflags c), x_rip := read_msr k MSR_LSTAR s, x_cs := sel AND 0xFFFC,
           x_rflags := x_rflags c AND NOT (read_msr k MSR_FMASK s), x_ss := sel + 8\<rparr>, s))"

text \<open>
  \<^verbatim>\<open>syscall_entry\<close> up to the call of the handler. \<open>[gs:0x18]\<close> and \<open>[gs:0x20]\<close> are the fields \<^verbatim>\<open>user_rsp\<close> and
  \<^verbatim>\<open>kernel_stack\<close> of the data of the CPU.
\<close>

definition syscall_entry_in :: "cpu_env \<Rightarrow> 'a machine \<Rightarrow> 'a machine res" where
  "syscall_entry_in env m = (case m of (c, s) \<Rightarrow>
     let s1 = swapgs env s; gs = read_msr (core_of env) MSR_GS_BASE s1
     in bind_res (upd_cpu gs (\<lambda>x. x\<lparr>c_user_rsp := x_rsp c\<rparr>) s1) (\<lambda>s2.
        bind_res (cpu_at s2 gs) (\<lambda>x.
        bind_res (push_all [0x23, c_user_rsp x, x_reg c R11, 0x1B, x_reg c RCX, 0, 0] (c\<lparr>x_rsp := c_kernel_stack x\<rparr>, s2))
          push_regs)))"

definition syscall_entry_out :: "cpu_env \<Rightarrow> u64 \<Rightarrow> 'a machine \<Rightarrow> 'a machine res" where
  "syscall_entry_out env rsp m = (case m of (c, s) \<Rightarrow>
     bind_res (restore_regs (c\<lparr>x_rsp := rsp\<rparr>, s)) (\<lambda>(c1, s1). iretq (c1, swapgs env s1)))"

text \<open>
  The whole of it. A handler that yields does so through an interrupt of its own, whose stub resumes the next task;
  \<open>yfr\<close> is the address of the frame that interrupt pushes.
\<close>

definition syscall_entry :: "cpu_env \<Rightarrow> u64 \<Rightarrow> 'a machine \<Rightarrow> 'a machine res" where
  "syscall_entry env yfr m =
     bind_res (syscall_entry_in env m) (\<lambda>(c, s).
     bind_res (syscall_handler env yfr (x_rsp c) s) (\<lambda>(r, s1).
     case r of
       Returns rsp \<Rightarrow> syscall_entry_out env rsp (c, s1)
     | Suspended rsp \<Rightarrow> common_stub_out env rsp (c, s1)))"

section \<open>Loading the descriptor table\<close>

text \<open>The segment registers of a CPU and the table they refer to.\<close>

record segments =
  g_gdtr :: u64
  g_cs :: u16
  g_ds :: u16
  g_es :: u16
  g_fs :: u16
  g_gs :: u16
  g_ss :: u16

definition gdt_flush :: "u64 \<Rightarrow> segments \<Rightarrow> segments" where
  "gdt_flush gdtr_ptr g =
     (let g1 = g\<lparr>g_gdtr := gdtr_ptr\<rparr>;
          g2 = g1\<lparr>g_ds := 0x10, g_es := 0x10, g_fs := 0x10, g_ss := 0x10\<rparr>;
          g3 = g2\<lparr>g_fs := 0, g_gs := 0\<rparr>
      in g3\<lparr>g_cs := 0x08\<rparr>)"

end
