(* ===== verification/Entry_Proofs.thy ===== *)
theory Entry_Proofs
  imports Entry Samples
begin

text \<open>
  What the entry code guarantees: an interrupt saves the whole context of the code it stops, which is restored when the scheduler
  returns to its frame, a new task begins at its entry point, and a system call comes back with its result and nothing
  else changed.
\<close>

section \<open>Words on a stack\<close>

fun words_at :: "'a vmm_state_scheme \<Rightarrow> u64 \<Rightarrow> u64 list \<Rightarrow> bool" where
  "words_at s p [] \<longleftrightarrow> True"
| "words_at s p (v # vs) \<longleftrightarrow> p \<noteq> 0 \<and> pt_mem s (ptr_phys s p) = v \<and> words_at s (p + 8) vs"

lemma ptr_phys_eq [simp]: "ptr_phys s p = ptr_phys s q \<longleftrightarrow> p = q"
  by (simp add: ptr_phys_def)

lemma ptr_phys_pt_mem [simp]: "ptr_phys (s\<lparr>pt_mem := m\<rparr>) = ptr_phys s"
  by (simp add: ptr_phys_def fun_eq_iff)

lemma words_at_append: "words_at s p (vs @ ws) \<longleftrightarrow> words_at s p vs \<and> words_at s (p + 8 * of_nat (length vs)) ws"
  by (induction vs arbitrary: p) (auto simp: algebra_simps)

lemma words_at_nth:
  "words_at s p vs \<Longrightarrow> i < length vs \<Longrightarrow> p + 8 * of_nat i \<noteq> 0 \<and> pt_mem s (ptr_phys s (p + 8 * of_nat i)) = vs ! i"
proof (induction vs arbitrary: p i)
  case (Cons v vs)
  show ?case
  proof (cases i)
    case (Suc j)
    then show ?thesis using Cons.IH [of "p + 8" j] Cons.prems by (simp add: add.assoc)
  qed (use Cons.prems in simp)
qed simp

lemma words_at_load: "words_at s p vs \<Longrightarrow> i < length vs \<Longrightarrow> vs \<noteq> [] \<Longrightarrow> load64 s p (8 * of_nat i) = Inr (vs ! i)"
  using words_at_nth [of s p vs i] words_at_nth [of s p vs 0] by (auto simp: load64_def)

lemma words_at_cong:
  "\<forall>i < length vs. pt_mem s' (ptr_phys s' (p + 8 * of_nat i)) = pt_mem s (ptr_phys s (p + 8 * of_nat i)) \<Longrightarrow> words_at s' p vs = words_at s p vs"
proof (induction vs arbitrary: p)
  case (Cons v vs)
  have "pt_mem s' (ptr_phys s' (p + 8 + 8 * of_nat i)) = pt_mem s (ptr_phys s (p + 8 + 8 * of_nat i))" if "i < length vs" for i
    using Cons.prems [rule_format, of "Suc i"] that by (simp add: algebra_simps)
  then show ?case using Cons.IH [of "p + 8"] Cons.prems [rule_format, of 0] by simp
qed simp

text \<open>A stack with room for \<open>n\<close> more words above the words it holds.\<close>

definition room :: "nat \<Rightarrow> u64 \<Rightarrow> bool" where
  "room n p \<longleftrightarrow> 8 * n < unat p"

lemma room_push: "room (Suc n) p \<Longrightarrow> p - 8 \<noteq> 0 \<and> room n (p - 8)"
  by (auto simp: room_def unat_sub_if' word_le_nat_alt)

lemma eight_steps: "n < 2 ^ 60 \<Longrightarrow> 8 * of_nat n + 8 \<noteq> (0 :: u64)"
proof
  assume n: "n < 2 ^ 60" and "8 * of_nat n + 8 = (0 :: u64)"
  then have "(of_nat (8 * n + 8) :: u64) = 0" by simp
  then have "2 ^ 64 dvd (8 * n + 8)" unfolding word_of_nat_eq_0_iff by simp
  then show False using n by (auto dest!: dvd_imp_le)
qed

lemma push_words:
  assumes "words_at s (x_rsp c) vs" "room (Suc n) (x_rsp c)" "length vs < 2 ^ 60"
  shows "\<exists>m. push v (c, s) = Inr (c\<lparr>x_rsp := x_rsp c - 8\<rparr>, s\<lparr>pt_mem := m\<rparr>) \<and> words_at (s\<lparr>pt_mem := m\<rparr>) (x_rsp c - 8) (v # vs)"
proof -
  let ?p = "x_rsp c" let ?m = "(pt_mem s)(ptr_phys s (?p - 8) := v)"
  have nz: "?p - 8 \<noteq> 0" using room_push [OF assms(2)] by blast
  have "?p + 8 * of_nat i \<noteq> ?p - 8" if "i < length vs" for i
  proof
    assume e: "?p + 8 * of_nat i = ?p - 8"
    have "8 * of_nat i + 8 = (?p + 8 * of_nat i) - (?p - 8)" by simp
    also have "\<dots> = 0" unfolding e by simp
    finally show False using eight_steps [of i] that assms(3) by simp
  qed
  then have "words_at (s\<lparr>pt_mem := ?m\<rparr>) ?p vs" using assms(1) words_at_cong [of vs "s\<lparr>pt_mem := ?m\<rparr>" ?p s] by simp
  then show ?thesis using nz by (intro exI [of _ ?m]) (simp add: push_def store64_def)
qed

lemma push_all_words:
  assumes "words_at s (x_rsp c) vs" "room (length ws + n) (x_rsp c)" "length ws + length vs < 2 ^ 60"
  shows "\<exists>m p. push_all ws (c, s) = Inr (c\<lparr>x_rsp := p\<rparr>, s\<lparr>pt_mem := m\<rparr>) \<and> p = x_rsp c - 8 * of_nat (length ws) \<and>
    words_at (s\<lparr>pt_mem := m\<rparr>) p (rev ws @ vs) \<and> room n p"
  using assms
proof (induction ws arbitrary: s c vs)
  case Nil
  then show ?case by (intro exI [of _ "pt_mem s"] exI [of _ "x_rsp c"]) (simp add: room_def)
next
  case (Cons w ws)
  obtain m where m: "push w (c, s) = Inr (c\<lparr>x_rsp := x_rsp c - 8\<rparr>, s\<lparr>pt_mem := m\<rparr>)"
    "words_at (s\<lparr>pt_mem := m\<rparr>) (x_rsp c - 8) (w # vs)"
    using push_words [of s c vs "length ws + n" w] Cons.prems by auto
  have "room (length ws + n) (x_rsp c - 8)" using room_push [of "length ws + n" "x_rsp c"] Cons.prems(2) by simp
  then obtain m' p where r: "push_all ws (c\<lparr>x_rsp := x_rsp c - 8\<rparr>, s\<lparr>pt_mem := m\<rparr>) = Inr (c\<lparr>x_rsp := p\<rparr>, s\<lparr>pt_mem := m'\<rparr>)"
    "p = x_rsp c - 8 - 8 * of_nat (length ws)" "words_at (s\<lparr>pt_mem := m'\<rparr>) p (rev ws @ w # vs)" "room n p"
    using Cons.IH [of "s\<lparr>pt_mem := m\<rparr>" "c\<lparr>x_rsp := x_rsp c - 8\<rparr>" "w # vs"] m(2) Cons.prems(3) by auto
  then show ?case using m(1) by (intro exI [of _ m'] exI [of _ p]) (simp add: algebra_simps)
qed

lemma pop_words: "words_at s (x_rsp c) (v # vs) \<Longrightarrow> pop (c, s) = Inr (v, c\<lparr>x_rsp := x_rsp c + 8\<rparr>, s)"
  by (simp add: pop_def load64_def)

lemma pop_regs_words:
  "words_at s (x_rsp c) (map f rs @ vs) \<Longrightarrow> distinct rs \<Longrightarrow>
   pop_regs rs (c, s) = Inr (c\<lparr>x_reg := (\<lambda>r. if r \<in> set rs then f r else x_reg c r), x_rsp := x_rsp c + 8 * of_nat (length rs)\<rparr>, s)"
proof (induction rs arbitrary: c)
  case (Cons r rs)
  let ?c = "c\<lparr>x_rsp := x_rsp c + 8, x_reg := (x_reg c)(r := f r)\<rparr>"
  have "pop_regs rs (?c, s) = Inr (?c\<lparr>x_reg := (\<lambda>q. if q \<in> set rs then f q else x_reg ?c q), x_rsp := x_rsp ?c + 8 * of_nat (length rs)\<rparr>, s)"
    using Cons by (intro Cons.IH) simp_all
  moreover have "(\<lambda>q. if q \<in> set rs then f q else x_reg ?c q) = (\<lambda>q. if q \<in> set (r # rs) then f q else x_reg c q)"
    using Cons.prems(2) by (auto simp: fun_eq_iff)
  ultimately show ?case using pop_words [of s c "f r" "map f rs @ vs"] Cons.prems by (simp add: algebra_simps)
qed simp

section \<open>Frames\<close>

text \<open>What the processor pushes for an interrupt of the code with context \<open>c\<close>, and the frame the stubs complete it to.\<close>

definition hw_words :: "core \<Rightarrow> u64 list" where
  "hw_words c = [x_rip c, x_cs c, x_rflags c, x_rsp c, x_ss c]"

definition frame_words :: "core \<Rightarrow> u64 \<Rightarrow> u64 \<Rightarrow> u64 list" where
  "frame_words c vec err = map (x_reg c) (rev saved_regs) @ [vec, err] @ hw_words c"

definition error_code :: "nat \<Rightarrow> u64 \<Rightarrow> u64 list" where
  "error_code n err = (if n \<in> set error_vectors then [err] else [])"

lemma saved_regs_all: "set saved_regs = UNIV" "distinct saved_regs" "length saved_regs = 15"
proof -
  show "set saved_regs = UNIV"
  proof (rule UNIV_eq_I [symmetric])
    show "r \<in> set saved_regs" for r by (cases r) (simp_all add: saved_regs_def)
  qed
qed (simp_all add: saved_regs_def)

lemma words_at_swapgs [simp]: "words_at (swapgs env s) p vs = words_at s p vs"
  by (rule words_at_cong) (simp add: swapgs_def write_msr_def Let_def ptr_phys_def)

lemma frame_cs: "words_at s p (frame_words c vec err) \<Longrightarrow> load64 s p 144 = Inr (x_cs c)"
  using words_at_load [of s p "frame_words c vec err" 18] by (simp add: frame_words_def hw_words_def saved_regs_def)

lemma restore_frame:
  assumes "words_at s p (frame_words c0 vec err)"
  shows "restore_regs (c\<lparr>x_rsp := p\<rparr>, s) = Inr (c\<lparr>x_reg := x_reg c0, x_rsp := p + 136\<rparr>, s) \<and> words_at s (p + 136) (hw_words c0)"
proof -
  have "words_at s p (map (x_reg c0) (rev saved_regs) @ [vec, err] @ hw_words c0)" using assms by (simp add: frame_words_def)
  moreover have "words_at s (p + 136) (hw_words c0)"
    using assms unfolding frame_words_def words_at_append by (simp add: saved_regs_all add.commute)
  ultimately show ?thesis
    using pop_regs_words [of s "c\<lparr>x_rsp := p\<rparr>" "x_reg c0" "rev saved_regs" "[vec, err] @ hw_words c0"]
    by (simp add: restore_regs_def saved_regs_all)
qed

lemma iretq_words:
  assumes "words_at s (x_rsp c) (hw_words c0)"
  shows "iretq (c, s) = Inr (c\<lparr>x_rsp := x_rsp c0, x_rip := x_rip c0, x_cs := x_cs c0, x_rflags := x_rflags c0, x_ss := x_ss c0\<rparr>, s)"
  using assms by (simp add: iretq_def pop_def load64_def hw_words_def add.assoc)

lemma common_stub_out_frame:
  assumes "words_at s p (frame_words c0 vec err)"
  shows "common_stub_out env p (c, s) = Inr (c0, if x_cs c0 AND 3 \<noteq> 0 then swapgs env s else s)"
proof -
  let ?s = "if x_cs c0 AND 3 \<noteq> 0 then swapgs env s else s"
  have "words_at ?s p (frame_words c0 vec err)" using assms by simp
  note r = restore_frame [OF this, of c]
  then show ?thesis
    using iretq_words [of ?s "c\<lparr>x_reg := x_reg c0, x_rsp := p + 136\<rparr>" c0] frame_cs [OF assms]
    by (simp add: common_stub_out_def swapgs_if_user_def del: if_split)
qed

lemma common_stub_in_frame:
  assumes "words_at s (x_rsp c) (error_code n err @ hw_words c0)" "x_reg c = x_reg c0" "room 17 (x_rsp c)"
  shows "\<exists>c1 m. bind_res (isr_stub n (c, s)) (common_stub_in env) =
      Inr (c1, if x_cs c0 AND 3 \<noteq> 0 then swapgs env (s\<lparr>pt_mem := m\<rparr>) else s\<lparr>pt_mem := m\<rparr>) \<and>
    words_at (s\<lparr>pt_mem := m\<rparr>) (x_rsp c1) (frame_words c0 (of_nat n) (if n \<in> set error_vectors then err else 0))"
proof -
  let ?ws = "(if n \<in> set error_vectors then [] else [0]) @ [of_nat n] :: u64 list"
  let ?err = "if n \<in> set error_vectors then err else 0"
  have "room (length ?ws + 15) (x_rsp c)" using assms(3) by (simp add: room_def)
  moreover have "length ?ws + length (error_code n err @ hw_words c0) < 2 ^ 60" by (simp add: error_code_def hw_words_def)
  ultimately obtain m p where m: "push_all ?ws (c, s) = Inr (c\<lparr>x_rsp := p\<rparr>, s\<lparr>pt_mem := m\<rparr>)" "room 15 p"
    "words_at (s\<lparr>pt_mem := m\<rparr>) p (rev ?ws @ error_code n err @ hw_words c0)"
    using push_all_words [OF assms(1)] by metis
  have eq: "rev ?ws @ error_code n err @ hw_words c0 = [of_nat n, ?err] @ hw_words c0" by (simp add: error_code_def)
  let ?c = "c\<lparr>x_rsp := p\<rparr>" let ?vs = "map (x_reg c0) saved_regs"
  have "length ?vs + length ([of_nat n, ?err] @ hw_words c0) < 2 ^ 60" by (simp add: hw_words_def saved_regs_def)
  moreover have "room (length ?vs + 0) p" using m(2) by (simp add: saved_regs_all)
  ultimately obtain m' p' where m': "push_all ?vs (?c, s\<lparr>pt_mem := m\<rparr>) = Inr (?c\<lparr>x_rsp := p'\<rparr>, s\<lparr>pt_mem := m'\<rparr>)"
    "words_at (s\<lparr>pt_mem := m'\<rparr>) p' (rev ?vs @ [of_nat n, ?err] @ hw_words c0)"
    using push_all_words [of "s\<lparr>pt_mem := m\<rparr>" ?c "[of_nat n, ?err] @ hw_words c0" ?vs 0] m(3) unfolding eq by auto
  then have fr: "words_at (s\<lparr>pt_mem := m'\<rparr>) p' (frame_words c0 (of_nat n) ?err)" by (simp add: frame_words_def rev_map)
  have "bind_res (isr_stub n (c, s)) (common_stub_in env) =
      Inr (c\<lparr>x_rsp := p'\<rparr>, if x_cs c0 AND 3 \<noteq> 0 then swapgs env (s\<lparr>pt_mem := m'\<rparr>) else s\<lparr>pt_mem := m'\<rparr>)"
    using m(1) m'(1) assms(2) frame_cs [OF fr] by (simp add: isr_stub_def common_stub_in_def push_regs_def swapgs_if_user_def)
  then show ?thesis using fr by (intro exI [of _ "c\<lparr>x_rsp := p'\<rparr>"] exI [of _ m']) simp
qed

text \<open>
  C6. An interrupt saves all of the context of the code it stops: the stub of any vector leaves a frame from which, as long as its
  words are not overwritten and whatever ran in between, the return path restores every general register, the instruction and
  stack pointers, the flags and the segments; the GS base is exchanged on the way in and on the way out exactly when user
  code was interrupted.
\<close>

theorem interrupt_saves_context:
  assumes "words_at s (x_rsp c) (error_code n err @ hw_words c0)" "x_reg c = x_reg c0" "room 17 (x_rsp c)"
  shows "\<exists>c1 s1 fr. bind_res (isr_stub n (c, s)) (common_stub_in env) = Inr (c1, s1) \<and>
    (\<exists>m. s1 = (if x_cs c0 AND 3 \<noteq> 0 then swapgs env (s\<lparr>pt_mem := m\<rparr>) else s\<lparr>pt_mem := m\<rparr>)) \<and>
    words_at s1 (x_rsp c1) fr \<and>
    (\<forall>c2 s2. words_at s2 (x_rsp c1) fr \<longrightarrow>
      common_stub_out env (x_rsp c1) (c2, s2) = Inr (c0, if x_cs c0 AND 3 \<noteq> 0 then swapgs env s2 else s2))"
proof -
  let ?fr = "frame_words c0 (of_nat n) (if n \<in> set error_vectors then err else 0)"
  obtain c1 m where m: "bind_res (isr_stub n (c, s)) (common_stub_in env) =
      Inr (c1, if x_cs c0 AND 3 \<noteq> 0 then swapgs env (s\<lparr>pt_mem := m\<rparr>) else s\<lparr>pt_mem := m\<rparr>)"
    "words_at (s\<lparr>pt_mem := m\<rparr>) (x_rsp c1) ?fr"
    using common_stub_in_frame [OF assms] by blast
  have "words_at (if x_cs c0 AND 3 \<noteq> 0 then swapgs env (s\<lparr>pt_mem := m\<rparr>) else s\<lparr>pt_mem := m\<rparr>) (x_rsp c1) ?fr" using m(2) by simp
  then show ?thesis using m(1) common_stub_out_frame by blast
qed

text \<open>A user program interrupted by the keyboard: the processor has pushed five words on the kernel stack at \<open>0x9000\<close>.\<close>

definition user_core :: core where
  "user_core = \<lparr>x_reg = (\<lambda>_. 7), x_rsp = 0x7000, x_rip = 0x400000, x_cs = 0x1B, x_rflags = 0x202, x_ss = 0x23\<rparr>"

definition interrupted :: kernel_state where
  "interrupted = blank_kernel\<lparr>pt_mem := (\<lambda>_. 0)(0x8FD8 := 0x400000, 0x8FE0 := 0x1B, 0x8FE8 := 0x202, 0x8FF0 := 0x7000, 0x8FF8 := 0x23)\<rparr>"

theorem interrupt_saves_context_witness:
  "\<exists>c1 s1. bind_res (isr_stub 33 (user_core\<lparr>x_rsp := 0x8FD8\<rparr>, interrupted)) (common_stub_in env0) = Inr (c1, s1) \<and>
    common_stub_out env0 (x_rsp c1) (c1, s1) = Inr (user_core, swapgs env0 s1)"
proof -
  have "words_at interrupted 0x8FD8 (error_code 33 0 @ hw_words user_core)"
    by (simp add: interrupted_def blank_kernel_def error_code_def error_vectors_def hw_words_def user_core_def ptr_phys_def)
  then show ?thesis
    using interrupt_saves_context [of interrupted "user_core\<lparr>x_rsp := 0x8FD8\<rparr>" 33 0 user_core env0]
    by (auto simp: room_def user_core_def)
qed

section \<open>The first run of a task\<close>

text \<open>Operations that leave memory, the GS bases and the saved stack pointers of the tasks alone.\<close>

definition stays :: "'a sched_state_scheme \<Rightarrow> 'a sched_state_scheme \<Rightarrow> bool" where
  "stays s s' \<longleftrightarrow> pt_mem s' = pt_mem s \<and> kernel_pml4 s' = kernel_pml4 s \<and> msrs s' = msrs s \<and>
     (\<forall>x. t_rsp (tasks s' x) = t_rsp (tasks s x) \<and> t_stack_base (tasks s' x) = t_stack_base (tasks s x) \<and>
       t_stack_size (tasks s' x) = t_stack_size (tasks s x))"

lemma stays_refl [simp]: "stays s s"
  by (simp add: stays_def)

lemma stays_trans: "stays s s1 \<Longrightarrow> stays s1 s2 \<Longrightarrow> stays s s2"
  by (simp add: stays_def)

definition staying :: "'a sched_state_scheme \<Rightarrow> 'a sched_state_scheme res \<Rightarrow> bool" where
  "staying s m \<longleftrightarrow> (\<forall>s'. m = Inr s' \<longrightarrow> stays s s')"

lemma stayingD: "staying s m \<Longrightarrow> m = Inr s' \<Longrightarrow> stays s s'"
  by (simp add: staying_def)

named_theorems staying_intros

lemma staying_Inr [staying_intros]: "stays s s' \<Longrightarrow> staying s (Inr s')"
  by (simp add: staying_def)

lemma staying_upd_cpu [staying_intros]: "staying s (upd_cpu p f s)"
  by (auto simp: upd_cpu_def stays_def staying_def split: if_splits)

lemma staying_upd_task [staying_intros]:
  "(\<And>k. t_rsp (f k) = t_rsp k \<and> t_stack_base (f k) = t_stack_base k \<and> t_stack_size (f k) = t_stack_size k) \<Longrightarrow> staying s (upd_task t f s)"
  by (auto simp: upd_task_def stays_def staying_def split: if_splits)

lemma staying_bind: "staying s m \<Longrightarrow> (\<And>s1. staying s1 (f s1)) \<Longrightarrow> staying s (bind_res m f)"
  unfolding staying_def by (auto intro: stays_trans)

lemma staying_read: "(\<And>x. staying s (f x)) \<Longrightarrow> staying s (bind_res m f)"
  by (auto simp: staying_def)

lemma staying_if [staying_intros]: "(b \<Longrightarrow> staying s m) \<Longrightarrow> (\<not> b \<Longrightarrow> staying s n) \<Longrightarrow> staying s (if b then m else n)"
  by simp

lemma staying_sched_lock: "staying (s\<lparr>sched_lock := l\<rparr>) m \<Longrightarrow> staying s m"
  by (simp add: staying_def stays_def)

lemmas staying_binds [staying_intros] =
  staying_read [where m = "cpu_at s p" for s p] staying_read [where m = "task_at s p" for s p]
  staying_read [where m = "spin_lock env l" for env l]
  staying_bind [where m = "upd_task t g s" for t g s] staying_bind [where m = "upd_cpu p g s" for p g s]
  staying_bind [where m = "if b then m else n" for b m n]

lemma staying_enqueue_body: "staying s (enqueue_body cpu t s)"
  unfolding enqueue_body_def Let_def by (intro staying_intros) simp_all

lemma staying_enqueue: "staying s (enqueue_task env cpu t s)"
  unfolding enqueue_task_def rq_acquire_def rq_release_def
  by (intro staying_bind [where m = "bind_res (cpu_at s cpu) f" for f] staying_bind [OF staying_enqueue_body] staying_intros)

lemma staying_register: "staying s (task_register env t s)"
  unfolding task_register_def Let_def
  by (intro staying_intros staying_enqueue; (rule staying_sched_lock, rule staying_upd_task)?; simp)

lemma words_at_stays: "stays s s' \<Longrightarrow> words_at s' p vs = words_at s p vs"
  by (rule words_at_cong) (simp add: stays_def ptr_phys_def)

lemma words_atI:
  "(\<And>i. i < length vs \<Longrightarrow> p + 8 * of_nat i \<noteq> 0 \<and> pt_mem s (ptr_phys s (p + 8 * of_nat i)) = vs ! i) \<Longrightarrow> words_at s p vs"
proof (induction vs arbitrary: p)
  case (Cons v vs)
  have "p + 8 + 8 * of_nat i \<noteq> 0 \<and> pt_mem s (ptr_phys s (p + 8 + 8 * of_nat i)) = vs ! i" if "i < length vs" for i
    using Cons.prems [of "Suc i"] that by (simp add: add.assoc)
  then show ?case using Cons.IH [of "p + 8"] Cons.prems [of 0] by simp
qed simp

text \<open>The context a new task starts with.\<close>

definition start_core :: "u64 \<Rightarrow> u64 \<Rightarrow> u64 \<Rightarrow> u64 \<Rightarrow> core" where
  "start_core rip cs ss rsp = \<lparr>x_reg = (\<lambda>_. 0)(RBP := rsp), x_rsp = rsp, x_rip = rip, x_cs = cs, x_rflags = 0x202, x_ss = ss\<rparr>"

lemma less_22: "i < 22 \<longleftrightarrow> i \<in> {0, 1, 2, 3, 4, 5, 6, 7, 8, 9, 10, 11, 12, 13, 14, 15, 16, 17, 18, 19, 20, 21}" for i :: nat
  by (simp, arith)

lemma first_frame_stack:
  "first_frame t rip cs ss rsp s = Inr s' \<Longrightarrow>
   t_stack_base (tasks s' t) = t_stack_base (tasks s t) \<and> t_stack_size (tasks s' t) = t_stack_size (tasks s t)"
  by (auto simp: first_frame_def task_at_def store64_def memset_zero_def upd_task_def Let_def split: if_splits)

lemma first_frame_words:
  assumes r: "first_frame t rip cs ss rsp s = Inr s'" and top: "kstack_top (tasks s t) \<ge> 0x1000"
  shows "words_at s' (t_rsp (tasks s' t)) (frame_words (start_core rip cs ss rsp) 0 0)"
proof -
  let ?p = "kstack_top (tasks s t) - SIZEOF_FRAME"
  have nz: "?p + 8 * of_nat i \<noteq> 0" if "i < 22" for i
  proof -
    have "unat ?p \<ge> 0x1000 - 176" "unat ?p + 176 < 2 ^ 64" 
      using top unsigned_less [of "kstack_top (tasks s t)", where ?'a = nat] by (auto simp: unat_sub_if' word_le_nat_alt)
    then show ?thesis using that by (auto simp: word_unat_eq_iff unat_word_ariths unat_of_nat)
  qed
  have t: "t \<noteq> 0" "?p \<noteq> 0" using r nz [of 0] by (auto simp: first_frame_def task_at_def)
  show "words_at s' (t_rsp (tasks s' t)) (frame_words (start_core rip cs ss rsp) 0 0)"
  proof (rule words_atI)
    fix i assume "i < length (frame_words (start_core rip cs ss rsp) 0 0)"
    then have i: "i < 22" by (simp add: frame_words_def hw_words_def saved_regs_def)
    then show "t_rsp (tasks s' t) + 8 * of_nat i \<noteq> 0 \<and>
        pt_mem s' (ptr_phys s' (t_rsp (tasks s' t) + 8 * of_nat i)) = frame_words (start_core rip cs ss rsp) 0 0 ! i"
      using r t nz [OF i] i unfolding less_22
      by (auto simp: first_frame_def task_at_def store64_def memset_zero_def upd_task_def Let_def frame_words_def hw_words_def
          saved_regs_def start_core_def ptr_phys_def)
  qed
qed

text \<open>
  C19. A new task begins at its entry point: when the scheduler first picks the task that \<^verbatim>\<open>arch_task_create\<close> or the last step of
  creating a user task has set up, the return from the interrupt starts it there, with interrupts enabled, on its own
  stack and with the registers cleared; a kernel task runs with the kernel's segments, a user task with those of ring 3 and
  the GS base exchanged.
\<close>

theorem new_task_starts:
  "(arch_task_create env entry s = Inr (t, s') \<and> t \<noteq> 0 \<and> kstack_top (tasks s' t) \<ge> 0x1000 \<longrightarrow>
      common_stub_out env (t_rsp (tasks s' t)) (c, s') = Inr (start_core entry 0x08 0x10 (kstack_top (tasks s' t)), s')) \<and>
   (start_user_task env t entry s = Inr (t, s') \<and> kstack_top (tasks s t) \<ge> 0x1000 \<longrightarrow>
      common_stub_out env (t_rsp (tasks s' t)) (c, s') = Inr (start_core entry 0x1B 0x23 (u_stack_virt + u_stack_size - 8), swapgs env s'))"
proof (intro conjI impI; elim conjE)
  assume r: "start_user_task env t entry s = Inr (t, s')" and top: "kstack_top (tasks s t) \<ge> 0x1000"
  obtain s1 where s1: "first_frame t entry 0x1B 0x23 (u_stack_virt + u_stack_size - 8) s = Inr s1" "task_register env t s1 = Inr s'"
    using r by (auto simp: start_user_task_def)
  have st: "stays s1 s'" using stayingD [OF staying_register s1(2)] .
  then have "words_at s' (t_rsp (tasks s' t)) (frame_words (start_core entry 0x1B 0x23 (u_stack_virt + u_stack_size - 8)) 0 0)"
    using first_frame_words(1) [OF s1(1) top] words_at_stays [OF st] by (simp add: stays_def)
  from common_stub_out_frame [OF this, of env c]
  show "common_stub_out env (t_rsp (tasks s' t)) (c, s') = Inr (start_core entry 0x1B 0x23 (u_stack_virt + u_stack_size - 8), swapgs env s')"
    by (simp add: start_core_def)
next
  assume r: "arch_task_create env entry s = Inr (t, s')" and t: "t \<noteq> 0" and top: "kstack_top (tasks s' t) \<ge> 0x1000"
  obtain s2 s3 where s: "first_frame t entry 0x08 0x10 (kstack_top (tasks s2 t)) s2 = Inr s3" "task_register env t s3 = Inr s'"
    using r t by (auto simp: arch_task_create_def task_at_def split: if_splits)
  have st: "stays s3 s'" using stayingD [OF staying_register s(2)] .
  have "kstack_top (tasks s2 t) = kstack_top (tasks s' t)"
  proof -
    have "t_stack_base (tasks s3 t) = t_stack_base (tasks s2 t) \<and> t_stack_size (tasks s3 t) = t_stack_size (tasks s2 t)"
      by (rule first_frame_stack [OF s(1)])
    then show ?thesis using st by (simp add: stays_def kstack_top_def)
  qed
  then have "words_at s' (t_rsp (tasks s' t)) (frame_words (start_core entry 0x08 0x10 (kstack_top (tasks s' t))) 0 0)"
    using first_frame_words [OF s(1)] top words_at_stays [OF st] st by (simp add: stays_def)
  from common_stub_out_frame [OF this, of env c]
  show "common_stub_out env (t_rsp (tasks s' t)) (c, s') = Inr (start_core entry 0x08 0x10 (kstack_top (tasks s' t)), s')"
    by (simp add: start_core_def)
qed

text \<open>A system with a task at \<open>0x3000\<close> that has a kernel stack but has not run yet.\<close>

definition born :: kernel_state where
  "born = one_cpu\<lparr>root_task := 0x2000, tasks := (\<lambda>_. zero_task)(0x2000 := zero_task\<lparr>t_next := 0x2000, t_prev := 0x2000\<rparr>,
     0x3000 := zero_task\<lparr>t_stack_base := 0x10000, t_stack_size := 0x4000\<rparr>)\<rparr>"

lemma spin_lock_init: "spin_lock env0 spinlock_init = Inr (spin_locked env0 spinlock_init)"
  by (rule spin_lock_free) (simp add: lock_idle_free)

lemma born_starts: "\<exists>s'. start_user_task env0 0x3000 0x400000 born = Inr (0x3000, s')"
  by (simp add: start_user_task_def first_frame_def kstack_top_def memset_zero_def store64_def task_at_def upd_task_def task_register_def
      Let_def enqueue_task_def rq_acquire_def rq_release_def enqueue_body_def cpu_at_def upd_cpu_def get_cpu_def spin_lock_init
      born_def one_cpu_def blank_kernel_def zero_task_def zero_cpu_def prio_index_def)

theorem new_task_starts_witness:
  "\<exists>s'. start_user_task env0 0x3000 0x400000 born = Inr (0x3000, s') \<and>
    common_stub_out env0 (t_rsp (tasks s' 0x3000)) (user_core, s') = Inr (start_core 0x400000 0x1B 0x23 0x00007FFFFFFFEFF8, swapgs env0 s')"
proof -
  obtain s' where s': "start_user_task env0 0x3000 0x400000 born = Inr (0x3000, s')" using born_starts by blast
  moreover have "kstack_top (tasks born 0x3000) \<ge> 0x1000" by (simp add: kstack_top_def born_def zero_task_def)
  ultimately show ?thesis
    using conjunct2 [OF new_task_starts [of env0 "0x400000" born "0x3000" s' user_core]] by auto
qed
end
