(* ===== verification/Entry_Calls.thy ===== *)
theory Entry_Calls
  imports Entry_Proofs
begin

text \<open>
  System calls as the user program sees them: the frame that \<^verbatim>\<open>syscall_entry\<close> builds holds all that is needed to return, the
  result reaches \<open>RAX\<close>, and the GS bases are exchanged twice.
\<close>

section \<open>The way in and the way out\<close>

lemma read_write_msr [simp]:
  "m \<noteq> MSR_EFER \<Longrightarrow> read_msr k m (write_msr k m v s) = v"
  "m \<noteq> m' \<Longrightarrow> m \<noteq> MSR_EFER \<Longrightarrow> m' \<noteq> MSR_EFER \<Longrightarrow> read_msr k m (write_msr k m' v s) = read_msr k m s"
  by (simp_all add: read_msr_def write_msr_def)

lemma msrs_swapgs:
  "msrs (swapgs env s) = (msrs s)(core_of env := (msrs s (core_of env))(MSR_GS_BASE := msrs s (core_of env) MSR_KERNEL_GS_BASE,
     MSR_KERNEL_GS_BASE := msrs s (core_of env) MSR_GS_BASE))"
  by (simp add: swapgs_def write_msr_def read_msr_def Let_def)

lemma swapgs_frame [simp]:
  "cpus (swapgs env s) = cpus s" "pt_mem (swapgs env s) = pt_mem s" "kernel_pml4 (swapgs env s) = kernel_pml4 s"
  "tasks (swapgs env s) = tasks s" "system_uptime_ms (swapgs env s) = system_uptime_ms s"
  by (simp_all add: swapgs_def write_msr_def Let_def)

lemma msrs_swapgs_twice: "msrs s' = msrs (swapgs env s) \<Longrightarrow> msrs (swapgs env s') = msrs s"
  by (simp add: msrs_swapgs fun_eq_iff)

text \<open>The context a system call made with the registers of \<open>c\<close> returns to.\<close>

definition return_core :: "core \<Rightarrow> core" where
  "return_core c = \<lparr>x_reg = x_reg c, x_rsp = x_rsp c, x_rip = x_reg c RCX, x_cs = 0x1B, x_rflags = x_reg c R11, x_ss = 0x23\<rparr>"

lemma syscall_in_frame:
  assumes gs: "msrs s (core_of env) MSR_KERNEL_GS_BASE = gs" "gs \<noteq> 0" and top: "room 22 (c_kernel_stack (cpus s gs))"
  shows "\<exists>m fr. syscall_entry_in env (c, s) =
      Inr (c\<lparr>x_rsp := fr\<rparr>, (swapgs env s)\<lparr>cpus := (cpus s)(gs := (cpus s gs)\<lparr>c_user_rsp := x_rsp c\<rparr>), pt_mem := m\<rparr>) \<and>
    words_at ((swapgs env s)\<lparr>cpus := (cpus s)(gs := (cpus s gs)\<lparr>c_user_rsp := x_rsp c\<rparr>), pt_mem := m\<rparr>) fr (frame_words (return_core c) 0 0)"
proof -
  let ?s = "(swapgs env s)\<lparr>cpus := (cpus s)(gs := (cpus s gs)\<lparr>c_user_rsp := x_rsp c\<rparr>)\<rparr>"
  let ?c = "c\<lparr>x_rsp := c_kernel_stack (cpus s gs)\<rparr>"
  let ?ws = "[0x23, x_rsp c, x_reg c R11, 0x1B, x_reg c RCX, 0, 0] :: u64 list" let ?vs = "map (x_reg c) saved_regs"
  obtain m p where m: "push_all ?ws (?c, ?s) = Inr (?c\<lparr>x_rsp := p\<rparr>, ?s\<lparr>pt_mem := m\<rparr>)" "words_at (?s\<lparr>pt_mem := m\<rparr>) p (rev ?ws @ [])" "room 15 p"
    using push_all_words [of ?s ?c "[]" ?ws 15] top by auto
  have "room (length ?vs + 0) p" using m(3) by (simp add: saved_regs_all)
  moreover have "length ?vs + length (rev ?ws) < 2 ^ 60" by (simp add: saved_regs_all)
  ultimately obtain m' p' where m': "push_all ?vs (?c\<lparr>x_rsp := p\<rparr>, ?s\<lparr>pt_mem := m\<rparr>) = Inr (?c\<lparr>x_rsp := p'\<rparr>, ?s\<lparr>pt_mem := m'\<rparr>)"
    "words_at (?s\<lparr>pt_mem := m'\<rparr>) p' (rev ?vs @ rev ?ws)"
    using push_all_words [of "?s\<lparr>pt_mem := m\<rparr>" "?c\<lparr>x_rsp := p\<rparr>" "rev ?ws" ?vs 0] m(2) by auto
  have "rev ?vs @ rev ?ws = frame_words (return_core c) 0 0" by (simp add: frame_words_def hw_words_def return_core_def rev_map)
  then have fr: "words_at (?s\<lparr>pt_mem := m'\<rparr>) p' (frame_words (return_core c) 0 0)" using m'(2) by simp
  have g: "read_msr (core_of env) MSR_GS_BASE (swapgs env s) = gs" using gs(1) by (simp add: read_msr_def msrs_swapgs)
  have "syscall_entry_in env (c, s) = Inr (c\<lparr>x_rsp := p'\<rparr>, ?s\<lparr>pt_mem := m'\<rparr>)"
    using m(1) m'(1) gs(2) g by (simp add: syscall_entry_in_def upd_cpu_def cpu_at_def push_regs_def Let_def del: push_all.simps)
  then show ?thesis using fr by blast
qed

lemma words_at_update:
  assumes "words_at s p vs" "i < length vs" "length vs < 2 ^ 60"
  shows "words_at (s\<lparr>pt_mem := (pt_mem s)(ptr_phys s (p + 8 * of_nat i) := v)\<rparr>) p (vs[i := v])"
proof (rule words_atI)
  fix j assume j: "j < length (vs[i := v])"
  have "(of_nat (8 * i) :: u64) = of_nat (8 * j) \<longleftrightarrow> i = j" if "i < 2 ^ 60" "j < 2 ^ 60"
    using that by (simp only: word_of_nat_eq_iff) (simp add: take_bit_nat_eq_self_iff take_bit_nat_eq_self)
  then have "p + 8 * of_nat j = p + 8 * of_nat i \<longleftrightarrow> i = j" using assms(2,3) j by auto
  then show "p + 8 * of_nat j \<noteq> 0 \<and> pt_mem (s\<lparr>pt_mem := (pt_mem s)(ptr_phys s (p + 8 * of_nat i) := v)\<rparr>)
      (ptr_phys (s\<lparr>pt_mem := (pt_mem s)(ptr_phys s (p + 8 * of_nat i) := v)\<rparr>) (p + 8 * of_nat j)) = vs[i := v] ! j"
    using words_at_nth [OF assms(1), of j] j by (simp add: nth_list_update)
qed

lemma frame_set_rax:
  "(frame_words c vec err)[14 := v] = frame_words (c\<lparr>x_reg := (x_reg c)(RAX := v)\<rparr>) vec err"
  by (simp add: frame_words_def hw_words_def saved_regs_def)

lemma syscall_out_frame:
  assumes "words_at s p (frame_words c0 vec err)"
  shows "syscall_entry_out env p (c, s) = Inr (c0, swapgs env s)"
  using restore_frame [OF assms, of c] iretq_words [of "swapgs env s" "c\<lparr>x_reg := x_reg c0, x_rsp := p + 136\<rparr>" c0]
  by (simp add: syscall_entry_out_def)

text \<open>The words of the frame at \<open>fr\<close> are the same in both states.\<close>

definition frame_kept :: "u64 \<Rightarrow> 'a vmm_state_scheme \<Rightarrow> 'a vmm_state_scheme \<Rightarrow> bool" where
  "frame_kept fr s s' \<longleftrightarrow> (\<forall>i<22. pt_mem s' (ptr_phys s' (fr + 8 * of_nat i)) = pt_mem s (ptr_phys s (fr + 8 * of_nat i)))"

lemma length_frame [simp]: "length (frame_words c vec err) = 22"
  by (simp add: frame_words_def hw_words_def saved_regs_all)


text \<open>A CPU that runs a user program, with its kernel stack at \<open>0x9000\<close>; the program asks for the time.\<close>

definition calling :: kernel_state where
  "calling = blank_kernel\<lparr>cpus := (\<lambda>_. zero_cpu)(0x1000 := zero_cpu\<lparr>c_kernel_stack := 0x9000\<rparr>),
     msrs := (\<lambda>_ _. 0)(0 := (\<lambda>_. 0)(MSR_KERNEL_GS_BASE := 0x1000)), system_uptime_ms := 1234\<rparr>"




end
