(* ===== verification/User_Prog.thy ===== *)
theory User_Prog
  imports Syscall
begin

text \<open>
  Programs that run on the kernel: the library \<^verbatim>\<open>common/userlib.h\<close> and \<^verbatim>\<open>common/userlib.c\<close>, the first user program \<^verbatim>\<open>user/init.c\<close>,
  the test task \<^verbatim>\<open>user_test_task_ap\<close> of \<^verbatim>\<open>kernel/smp/smp.c\<close> and the kernel tasks \<^verbatim>\<open>task_a\<close> and \<^verbatim>\<open>task_b\<close> of \<^verbatim>\<open>kernel/src/main.c\<close>. Other
  tasks run whenever one of them enters the kernel, so a program is the tree of what it does next for every answer it may get;
  functions take what follows their call as an argument. The buffer of \<^verbatim>\<open>u_printf\<close> is on the stack, at the address \<open>buf\<close>.
\<close>

datatype 'a prog = Done | Do 'a "u64 \<Rightarrow> 'a prog"

datatype act = Sys u64 u64 u64 u64 | Store u64 "u8 list" | Fault fault

section \<open>The library\<close>

definition syscall_3 :: "u64 \<Rightarrow> u64 \<Rightarrow> u64 \<Rightarrow> u64 \<Rightarrow> (u64 \<Rightarrow> act prog) \<Rightarrow> act prog" where
  "syscall_3 num a1 a2 a3 k = Do (Sys num a1 a2 a3) k"

definition u_print :: "u64 \<Rightarrow> act prog \<Rightarrow> act prog" where
  "u_print s k = syscall_3 1 s 0 0 (\<lambda>_. k)"

definition u_exit :: "act prog \<Rightarrow> act prog" where
  "u_exit k = syscall_3 2 0 0 0 (\<lambda>_. k)"

definition u_get_uptime :: "(u64 \<Rightarrow> act prog) \<Rightarrow> act prog" where
  "u_get_uptime k = syscall_3 3 0 0 0 k"

definition u_sleep :: "u64 \<Rightarrow> act prog \<Rightarrow> act prog" where
  "u_sleep ms k = syscall_3 4 ms 0 0 (\<lambda>_. k)"

definition u_yield :: "act prog \<Rightarrow> act prog" where
  "u_yield k = syscall_3 5 0 0 0 (\<lambda>_. k)"

definition u_read_kbd :: "(u8 \<Rightarrow> act prog) \<Rightarrow> act prog" where
  "u_read_kbd k = syscall_3 6 0 0 0 (\<lambda>r. k (ucast r))"

definition u_print_hex :: "u64 \<Rightarrow> act prog \<Rightarrow> act prog" where
  "u_print_hex v k = syscall_3 7 v 0 0 (\<lambda>_. k)"

definition u_get_cpuid :: "(u64 \<Rightarrow> act prog) \<Rightarrow> act prog" where
  "u_get_cpuid k = syscall_3 8 0 0 0 k"

definition u_sys_malloc :: "u64 \<Rightarrow> (u64 \<Rightarrow> act prog) \<Rightarrow> act prog" where
  "u_sys_malloc sz k = syscall_3 9 sz 0 0 k"

definition u_sys_free :: "u64 \<Rightarrow> u64 \<Rightarrow> act prog \<Rightarrow> act prog" where
  "u_sys_free p sz k = syscall_3 10 p sz 0 (\<lambda>_. k)"

definition u_sys_get_tid :: "(u32 \<Rightarrow> act prog) \<Rightarrow> act prog" where
  "u_sys_get_tid k = syscall_3 11 0 0 0 (\<lambda>r. k (ucast r))"

definition u_sys_cpu_count :: "(u8 \<Rightarrow> act prog) \<Rightarrow> act prog" where
  "u_sys_cpu_count k = syscall_3 12 0 0 0 (\<lambda>r. k (ucast r))"

definition u_printf :: "u64 \<Rightarrow> string \<Rightarrow> va_arg list \<Rightarrow> act prog \<Rightarrow> act prog" where
  "u_printf buf fmt args k =
     (case vsnprintf 512 fmt args of
        Inl e \<Rightarrow> Do (Fault e) (\<lambda>_. Done)
      | Inr (text, n) \<Rightarrow> Do (Store buf (map of_char text)) (\<lambda>_. u_print buf k))"

section \<open>The first program\<close>

function test_task_2_loop :: "u64 \<Rightarrow> u64 \<Rightarrow> act prog \<Rightarrow> act prog" where
  "test_task_2_loop buf counter k =
     (if counter < 5 then
        u_printf buf (''TASK 2 | Iteration: %d'' @ [newline]) [VaInt (ucast (ucast counter :: u32))]
          (u_sleep 10 (test_task_2_loop buf (counter + 1) k))
      else k)"
  by pat_completeness auto
termination
  by (relation "measure (\<lambda>(buf, counter, k). 5 - unat counter)") (auto simp: word_less_nat_alt unat_word_ariths)

declare test_task_2_loop.simps [simp del]

definition user_test_task_2 :: "u64 \<Rightarrow> act prog \<Rightarrow> act prog" where
  "user_test_task_2 buf k =
     test_task_2_loop buf 1 (u_printf buf (''TASK 2 DONE'' @ [newline]) [] (u_yield k))"

text \<open>One turn of the endless loop of the shell, and a number of turns.\<close>

definition echo_turn :: "u64 \<Rightarrow> act prog \<Rightarrow> act prog" where
  "echo_turn buf k =
     u_read_kbd (\<lambda>c. if c \<noteq> 0 then u_printf buf ''%c'' [VaInt (scast c)] (u_sleep 50 k) else u_sleep 50 k)"

definition user_test_task_echo :: "u64 \<Rightarrow> nat \<Rightarrow> act prog" where
  "user_test_task_echo buf turns =
     u_printf buf ([newline] @ ''### SHELL ###'' @ [newline]) [] ((echo_turn buf ^^ turns) Done)"

definition user_info_test :: "u64 \<Rightarrow> act prog \<Rightarrow> act prog" where
  "user_info_test buf k =
     u_sys_get_tid (\<lambda>tid. u_printf buf (''Current TID: %d'' @ [newline]) [VaInt (ucast tid)]
     (u_sys_cpu_count (\<lambda>n. u_printf buf (''Available CPUs: %d'' @ [newline]) [VaInt (ucast n)]
     (u_sleep 50 (u_yield k)))))"

fun malloc_test_writes :: "u64 \<Rightarrow> nat list \<Rightarrow> act prog \<Rightarrow> act prog" where
  "malloc_test_writes p [] k = k"
| "malloc_test_writes p (i # is) k =
     Do (Store (p + 8 * (of_nat i * 512)) (map (word_byte (0xCAFEBABE00000000 OR of_nat i)) [0, 1, 2, 3, 4, 5, 6, 7]))
       (\<lambda>_. malloc_test_writes p is k)"

definition user_malloc_test :: "u64 \<Rightarrow> act prog \<Rightarrow> act prog" where
  "user_malloc_test buf k =
     u_printf buf (''### STARTING MEMORY STRESS TEST ###'' @ [newline]) []
     (let big_size = 10 * 4096
      in u_sys_malloc big_size (\<lambda>p.
         if p = 0 then u_printf buf (''Malloc failed!'' @ [newline]) [] k
         else
           u_printf buf (''Allocated 10 pages at %p'' @ [newline]) [VaInt p]
           (malloc_test_writes p [0..<10]
           (u_printf buf (''Memory written and verified at %p.'' @ [newline]) [VaInt p]
           (u_printf buf (''Freeing %d bytes at %p...'' @ [newline]) [VaInt big_size, VaInt p]
           (u_sys_free p big_size (u_sleep 50 k)))))))"

definition start :: "u64 \<Rightarrow> nat \<Rightarrow> act prog" where
  "start buf turns =
     u_printf buf (''ELF WORKS! Entering Ring 3 environment...'' @ [newline]) []
     (u_sleep 100
     (user_test_task_2 buf
     (user_malloc_test buf
     (user_info_test buf
     (user_test_task_echo buf turns)))))"

section \<open>Test tasks of the kernel\<close>

definition user_test_task_ap :: "u64 \<Rightarrow> act prog" where
  "user_test_task_ap buf =
     u_printf buf ([newline] @ ''RING 3 AP AP AP AP AP'' @ [newline]) [] (u_sleep 10 (u_exit Done))"

datatype kact = Kprintf string | Msleep u64 | TaskExit

fun beep_loop :: "string \<Rightarrow> nat \<Rightarrow> kact prog \<Rightarrow> kact prog" where
  "beep_loop txt 0 k = k"
| "beep_loop txt (Suc n) k = Do (Kprintf txt) (\<lambda>_. Do (Msleep 10) (\<lambda>_. beep_loop txt n k))"

definition task_a :: "kact prog" where
  "task_a = beep_loop ''A'' 10 (Do TaskExit (\<lambda>_. Done))"

definition task_b :: "kact prog" where
  "task_b = beep_loop ''B'' 15 (Do TaskExit (\<lambda>_. Done))"

end
