(* ===== verification/User_Prog_Proofs.thy ===== *)
theory User_Prog_Proofs
  imports User_Prog Io_Format_Proofs
begin

text \<open>
  The user programs keep to the interface of the kernel: they only make calls the kernel implements and write only to
  their own buffers and to memory the kernel has given them, whatever the answers of the kernel are.
\<close>

section \<open>Formats\<close>

text \<open>The number of integers a format without widths and strings prints.\<close>

definition int_conv :: "char \<Rightarrow> bool" where
  "int_conv c \<longleftrightarrow> c \<in> {CHR ''c'', CHR ''d'', CHR ''x'', CHR ''p'', CHR ''b''}"

lemma int_conv_simps [simp]: "int_conv CHR ''c''" "int_conv CHR ''d''" "int_conv CHR ''x''" "int_conv CHR ''p''" "int_conv CHR ''b''"
  by (simp_all add: int_conv_def)

fun fmt_args :: "string \<Rightarrow> nat option" where
  "fmt_args [] = Some 0"
| "fmt_args (c # fmt) =
     (if c \<noteq> CHR ''%'' then fmt_args fmt
      else case fmt of
        [] \<Rightarrow> None
      | conv # fmt1 \<Rightarrow>
          if int_conv conv then map_option Suc (fmt_args fmt1) else None)"

lemma parse_flags_conv: "\<not> is_digit c \<Longrightarrow> parse_flags (c # fmt) = (CHR '' '', 0, c # fmt)"
  by (auto simp: parse_flags_def is_digit_def)

lemma number_length: "2 \<le> b \<Longrightarrow> width \<le> 64 \<Longrightarrow> length (number b v width pad) \<le> 64"
  using digits_of_u64 [of b v] by (simp add: number_def Let_def)

lemma render_conv_int:
  assumes "int_conv c"
  shows "\<exists>r. render_conv c 0 pad (VaInt v # args) = Some (r, args) \<and> length r \<le> 66"
  using assms number_length [of 2 0 v pad] number_length [of 10 0 v pad] number_length [of 10 0 "- v" pad]
    number_length [of 16 0 v pad] number_length [of 16 16 v "CHR ''0''"]
  by (auto simp: int_conv_def render_conv_def with_int_def take_int_def)

lemma render_ints:
  "fmt_args fmt = Some n \<Longrightarrow> n = length vs \<Longrightarrow> \<exists>r. render fmt (map VaInt vs) = Some r \<and> length r \<le> length fmt + 66 * n"
proof (induction fmt arbitrary: n vs rule: measure_induct_rule [of length])
  case (less fmt)
  show ?case
  proof (cases fmt)
    case (Cons c fmt1)
    show ?thesis
    proof (cases "c = CHR ''%''")
      case False
      then obtain r where "render fmt1 (map VaInt vs) = Some r" "length r \<le> length fmt1 + 66 * n"
        using less.IH [of fmt1 n vs] less.prems Cons by auto
      then show ?thesis using False Cons by (auto simp: render.simps(2))
    next
      case True
      obtain conv fmt2 where f1: "fmt1 = conv # fmt2" using less.prems(1) Cons True by (cases fmt1) auto
      then have ic: "int_conv conv" and "map_option Suc (fmt_args fmt2) = Some n"
        using less.prems(1) Cons True by (simp_all split: if_split_asm)
      then obtain m where f2: "fmt_args fmt2 = Some m" "n = Suc m" by (cases "fmt_args fmt2") simp_all
      note f = f1 ic f2
      then obtain v ws where vs: "vs = v # ws" "length ws = m" using less.prems(2) by (cases vs) auto
      obtain r where r: "render fmt2 (map VaInt ws) = Some r" "length r \<le> length fmt2 + 66 * m" 
        using less.IH [OF _ f2(1) vs(2) [symmetric]] unfolding Cons f1 by (auto simp del: render.simps)
      obtain q where q: "render_conv conv 0 (CHR '' '') (VaInt v # map VaInt ws) = Some (q, map VaInt ws)" "length q \<le> 66"
        using render_conv_int [OF f(2)] by blast
      have "\<not> is_digit conv" using f(2) by (auto simp: int_conv_def is_digit_def)
      then show ?thesis using True Cons f vs r q by (simp add: render.simps(2) parse_flags_conv)
    qed
  qed (use less.prems in simp)
qed

lemma vsnprintf_ints:
  assumes "fmt_args fmt = Some (length vs)" "length fmt + 66 * length vs < 510"
  shows "\<exists>text n. vsnprintf 512 fmt (map VaInt vs) = Inr (text, n) \<and> length text \<le> 512"
proof -
  obtain r where r: "render fmt (map VaInt vs) = Some r" "length r \<le> length fmt + 66 * length vs" using render_ints [OF assms(1) refl] by blast
  then show ?thesis using vsn_loop_render [OF r(1), of "[]" 512] assms(2) by (simp add: vsnprintf_def put_char_def)
qed

section \<open>Well-behaved programs\<close>

text \<open>
  A program behaves if it only makes calls the kernel knows, never faults, and writes only to its buffer of 512
  bytes and to the blocks \<open>bs\<close> that allocation has returned and that it has not given back.
\<close>

definition inside :: "u64 \<Rightarrow> nat \<Rightarrow> u64 \<times> u64 \<Rightarrow> bool" where
  "inside p n = (\<lambda>(base, sz). unat (p - base) + n \<le> unat sz)"

fun granted :: "act \<Rightarrow> u64 \<Rightarrow> (u64 \<times> u64) list \<Rightarrow> (u64 \<times> u64) list" where
  "granted (Sys num a1 a2 a3) r bs =
     (if num = 9 \<and> r \<noteq> 0 then (r, a1) # bs else if num = 10 then filter (\<lambda>b. fst b \<noteq> a1) bs else bs)"
| "granted a r bs = bs"

fun act_ok :: "u64 \<Rightarrow> (u64 \<times> u64) list \<Rightarrow> act \<Rightarrow> bool" where
  "act_ok buf bs (Sys num a1 a2 a3) \<longleftrightarrow> unat num < SYS_TABLE_SIZE \<and> init_sys_table (unat num) \<noteq> None"
| "act_ok buf bs (Store p ws) \<longleftrightarrow> list_ex (inside p (length ws)) ((buf, 512) # bs)"
| "act_ok buf bs (Fault e) \<longleftrightarrow> False"

primrec behaves :: "u64 \<Rightarrow> (u64 \<times> u64) list \<Rightarrow> act prog \<Rightarrow> bool" where
  "behaves buf bs Done \<longleftrightarrow> True"
| "behaves buf bs (Do a k) \<longleftrightarrow> act_ok buf bs a \<and> (\<forall>r. behaves buf (granted a r bs) (k r))"

named_theorems calls

lemma behaves_syscall [calls]:
  assumes "unat num < SYS_TABLE_SIZE \<and> init_sys_table (unat num) \<noteq> None" "\<And>r. behaves buf (granted (Sys num a1 a2 a3) r bs) (k r)"
  shows "behaves buf bs (syscall_3 num a1 a2 a3 k)"
  using assms by (simp add: syscall_3_def)

lemma behaves_printf:
  assumes "fmt_args fmt = Some (length vs)" "length fmt + 66 * length vs < 510" "behaves buf bs k"
  shows "behaves buf bs (u_printf buf fmt (map VaInt vs) k)"
proof -
  obtain out n where "vsnprintf 512 fmt (map VaInt vs) = Inr (out, n)" "length out \<le> 512" using vsnprintf_ints [OF assms(1,2)] by blast
  then show ?thesis using assms(3) by (simp add: u_printf_def u_print_def syscall_3_def inside_def init_sys_table_def)
qed

lemmas behaves_printfs = behaves_printf [where vs = "[]", simplified] behaves_printf [where vs = "[v]" for v, simplified]
  behaves_printf [where vs = "[v, w]" for v w, simplified]

lemma behaves_sleep [calls]: "behaves buf bs k \<Longrightarrow> behaves buf bs (u_sleep ms k)"
  by (simp add: u_sleep_def syscall_3_def init_sys_table_def)

lemma behaves_yield [calls]: "behaves buf bs k \<Longrightarrow> behaves buf bs (u_yield k)"
  by (simp add: u_yield_def syscall_3_def init_sys_table_def)

lemma behaves_read_kbd [calls]: "(\<And>c. behaves buf bs (k c)) \<Longrightarrow> behaves buf bs (u_read_kbd k)"
  by (simp add: u_read_kbd_def syscall_3_def init_sys_table_def)

lemma behaves_tid [calls]: "(\<And>t. behaves buf bs (k t)) \<Longrightarrow> behaves buf bs (u_sys_get_tid k)"
  by (simp add: u_sys_get_tid_def syscall_3_def init_sys_table_def)

lemma behaves_cpu_count [calls]: "(\<And>n. behaves buf bs (k n)) \<Longrightarrow> behaves buf bs (u_sys_cpu_count k)"
  by (simp add: u_sys_cpu_count_def syscall_3_def init_sys_table_def)

lemma behaves_malloc:
  "(\<And>p. behaves buf (if p \<noteq> 0 then (p, sz) # bs else bs) (k p)) \<Longrightarrow> behaves buf bs (u_sys_malloc sz k)"
  by (simp add: u_sys_malloc_def syscall_3_def init_sys_table_def)

lemma behaves_free: "behaves buf (filter (\<lambda>b. fst b \<noteq> p) bs) k \<Longrightarrow> behaves buf bs (u_sys_free p sz k)"
  by (simp add: u_sys_free_def syscall_3_def init_sys_table_def)

lemma behaves_task_2_loop: "behaves buf bs k \<Longrightarrow> behaves buf bs (test_task_2_loop buf counter k)"
proof (induction buf counter k rule: test_task_2_loop.induct)
  case (1 buf counter k)
  then show ?case by (subst test_task_2_loop.simps) (auto intro!: behaves_printfs calls)
qed

lemma behaves_writes:
  "\<forall>i \<in> set is. i < 10 \<Longrightarrow> behaves buf ((p, 40960) # bs) k \<Longrightarrow> behaves buf ((p, 40960) # bs) (malloc_test_writes p is k)"
proof (induction "is")
  case (Cons i "is")
  have "unat (8 * (of_nat i * 512) :: u64) = 4096 * i" using Cons.prems by (simp add: unat_word_ariths unat_of_nat)
  then show ?case using Cons by (simp add: inside_def)
qed simp

lemma behaves_echo: "behaves buf bs ((echo_turn buf ^^ turns) Done)"
  by (induction turns) (auto simp: echo_turn_def intro!: calls behaves_printfs)

lemma behaves_malloc_test: "behaves buf [] k \<Longrightarrow> behaves buf [] (user_malloc_test buf k)"
  unfolding user_malloc_test_def Let_def
  by (intro behaves_printfs behaves_malloc) (auto intro!: behaves_printfs behaves_writes behaves_free calls)

text \<open>
  C31. The first user program keeps to the interface of the kernel, whatever the kernel answers and however long its shell runs: it
  only makes system calls that the table of the kernel implements, never overruns the buffer of \<^verbatim>\<open>u_printf\<close> and writes to
  allocated memory only inside the block it got and has not freed.
\<close>

theorem init_program_behaves:
  "behaves buf [] (start buf turns)"
  unfolding start_def user_test_task_2_def user_info_test_def user_test_task_echo_def
  by (intro behaves_printfs behaves_echo behaves_malloc_test behaves_task_2_loop calls) simp_all

end
