(* ===== verification/Vma_Proofs.thy ===== *)
theory Vma_Proofs
  imports Vma
begin

text \<open>
  Memory areas of tasks: what the protection flags of an area do to the pages behind it.
\<close>

lemma ucast_or: "(ucast ((x :: u64) OR y) :: u32) = ucast x OR ucast y"
  by (rule bit_word_eqI) (auto simp: bit_ucast_iff bit_or_iff)

lemma ucast_ucast_up: "(ucast (ucast (x :: u32) :: u64) :: u32) = x"
  by (rule bit_word_eqI) (auto simp: bit_ucast_iff dest: bit_imp_le_length)

lemma nx_truncated: "(ucast (ucast (x :: u32) OR PTE_NX :: u64) :: u32) = x"
proof -
  have "(ucast (ucast x OR PTE_NX :: u64) :: u32) = ucast (ucast x :: u64) OR ucast (PTE_NX :: u64)" by (rule ucast_or)
  moreover have "(ucast (PTE_NX :: u64) :: u32) = 0" by simp
  ultimately show ?thesis by (simp only: ucast_ucast_up or.right_neutral)
qed

text \<open>
  C36. Asking for memory that is not executable has no effect: \<^verbatim>\<open>PTE_NX\<close> is lost when \<^verbatim>\<open>vma_map\<close> collects the flags of the pages in a
  32-bit variable, so that stack, heap and data are mapped exactly like code.
\<close>

theorem nx_has_no_effect:
  "vma_back env t addr phys len flags s = vma_back env t addr phys len (flags OR VMA_EXEC) s"
proof -
  have "(flags OR VMA_EXEC) AND VMA_EXEC \<noteq> 0" "(flags OR VMA_EXEC) AND VMA_WRITE = flags AND VMA_WRITE"
    by (simp_all add: bit.conj_disj_distrib2)
  then have "vma_pte_opts flags = vma_pte_opts (flags OR VMA_EXEC)"
    by (simp add: vma_pte_opts_def nx_truncated Let_def)
  then show ?thesis by (simp add: vma_back_def)
qed

end
