(* ===== verification/Mutex_Proofs.thy ===== *)
theory Mutex_Proofs
  imports Vma Samples
begin

text \<open>
  The sleeping mutex: what an unlock does when tasks wait. \<open>get\<close> and \<open>put\<close> read and write the mutex in the object it is part of.
\<close>

text \<open>
  C33. Releasing a contended mutex faults when the waiting task may migrate. \<^verbatim>\<open>schedule\<close> resets the CPU of a task with a TID of at
  least 10 when it gives up the CPU, and \<^verbatim>\<open>mutex_unlock\<close> puts the task it wakes on the queue of the CPU with that number: there
  is none, and \<^verbatim>\<open>enqueue_task\<close> follows the null pointer.
\<close>

theorem contended_unlock_faults:
  fixes s :: "'a sched_state_scheme"
  assumes get_put: "\<And>m s. get (put m s) = m"
    and put_cpu: "\<And>m (s :: 'a sched_state_scheme) x. t_cpu_id (tasks (put m s) x) = t_cpu_id (tasks s x)"
    and on: "g_lock_enabled env" and free: "lock_free env (m_wait_lock (get s))"
    and waiter: "m_wait_list (get s) = t" "t \<noteq> 0" "t_cpu_id (tasks s t) = NO_CPU"
  shows "mutex_unlock env get put s = Inl NullDeref"
proof -
  have l: "spin_lock env (m_wait_lock (get s)) = Inr (spin_locked env (m_wait_lock (get s)))" by (rule spin_lock_free [OF free])
  have g: "get_cpu_by_id NO_CPU q = 0" for q :: "'a sched_state_scheme" by (simp add: get_cpu_by_id_def)
  have e: "enqueue_task env 0 t q = Inl NullDeref" for q :: "'a sched_state_scheme"
    by (simp add: enqueue_task_def rq_acquire_def cpu_at_def)
  show ?thesis
    using on waiter by (simp add: mutex_unlock_def l get_put put_cpu task_at_def upd_task_def Let_def g e)
qed

text \<open>The mutex of the areas of the task at \<open>0x2000\<close>, which the task at \<open>0x3000\<close> waits for.\<close>

definition waiting :: kernel_state where
  "waiting = blank_kernel\<lparr>tasks := (\<lambda>_. zero_task)(
     0x2000 := zero_task\<lparr>t_vma_mutex := \<lparr>m_count = 0, m_wait_lock = spinlock_init, m_wait_list = 0x3000, m_owner = 0x2000\<rparr>\<rparr>,
     0x3000 := zero_task\<lparr>t_tid := 10, t_state := TASK_BLOCKED, t_wait_reason := REASON_MUTEX, t_cpu_id := NO_CPU\<rparr>)\<rparr>"

theorem contended_unlock_faults_witness:
  "mutex_unlock env0 (vma_mutex 0x2000) (set_vma_mutex 0x2000) waiting = Inl NullDeref"
proof (rule contended_unlock_faults [where t = "0x3000"])
  show "lock_free env0 (m_wait_lock (vma_mutex 0x2000 waiting))" by (simp add: waiting_def lock_idle_free)
qed (simp_all add: waiting_def)

end
