(* ===== verification/Initrd_Proofs.thy ===== *)
theory Initrd_Proofs
  imports Initrd Std_Funcs_Proofs Samples
begin

text \<open>
  The initial ram disk and the loading of programs from it: a lookup finds the first file of the archive with the given name,
  and where the copy of a segment goes.
\<close>

section \<open>Archives\<close>

text \<open>A header at \<open>p\<close> for a file with the given name and length, and the archive that starts at \<open>p\<close> and ends before \<open>e\<close>.\<close>

definition header_at :: "bytes \<Rightarrow> u64 \<Rightarrow> u8 list \<Rightarrow> u64 \<Rightarrow> bool" where
  "header_at m p name len \<longleftrightarrow> name \<noteq> [] \<and> cstr (at_ptr m p) 0 name \<and>
     (\<forall>k<5. m (p + TAR_MAGIC + k) = literal ''ustar'' k) \<and> octal_to_int (at_ptr m (p + TAR_SIZE)) 12 = len"

definition next_header :: "u64 \<Rightarrow> u64 \<Rightarrow> u64" where
  "next_header p len = p + (512 + ((len + 511) AND NOT 511))"

fun archive :: "bytes \<Rightarrow> u64 \<Rightarrow> u64 \<Rightarrow> (u8 list \<times> u64) list \<Rightarrow> bool" where
  "archive m e p [] \<longleftrightarrow> \<not> (p < e \<and> m p \<noteq> 0)"
| "archive m e p ((name, len) # fs) \<longleftrightarrow> p < e \<and> header_at m p name len \<and> archive m e (next_header p len) fs"

fun find_file :: "u64 \<Rightarrow> (u8 list \<times> u64) list \<Rightarrow> u8 list \<Rightarrow> (u64 \<times> u64) option" where
  "find_file p [] name = None"
| "find_file p ((nm, len) # fs) name = (if nm = name then Some (p + 512, len) else find_file (next_header p len) fs name)"

lemma cmp_sign_zero: "cmp_sign xs ys r \<Longrightarrow> r = 0 \<longleftrightarrow> xs = ys"
  by (auto simp: cmp_sign_def)

lemma header_nonempty: "header_at m p name len \<Longrightarrow> m p \<noteq> 0"
  by (cases name) (auto simp: header_at_def at_ptr_def)

lemma header_ustar: "header_at m p name len \<Longrightarrow> memcmp (at_ptr m (p + TAR_MAGIC)) (literal ''ustar'') 5 = 0"
  by (simp add: memcmp_eq header_at_def at_ptr_def)

lemma tar_walk_archive:
  assumes "cstr filename 0 name"
  shows "archive m e p fs \<Longrightarrow> tar_walk m filename e p = Some (find_file p fs name)"
proof (induction fs arbitrary: p)
  case Nil
  then show ?case by (subst tar_walk.simps) auto
next
  case (Cons f fs)
  obtain nm len where f: "f = (nm, len)" by fastforce
  have h: "p < e" "header_at m p nm len" "archive m e (next_header p len) fs" using Cons.prems f by auto
  obtain r where r: "strcmp (at_ptr m p) filename = Some r" "r = 0 \<longleftrightarrow> nm = name"
    using strcmp_eq [of "at_ptr m p" nm filename name] h(2) assms cmp_sign_zero unfolding header_at_def by blast
  have "octal_to_int (at_ptr m (p + TAR_SIZE)) 12 = len" using h(2) by (simp add: header_at_def)
  then show ?case
    using h(1) header_nonempty [OF h(2)] header_ustar [OF h(2)] r Cons.IH [OF h(3)] f
    by (subst tar_walk.simps) (simp add: next_header_def Let_def)
qed

text \<open>
  C30. The lookup in the ram disk returns the first file of the archive with the given name: the address of its data, right behind
  its header, and the size recorded in octal in the header; if there is none the null pointer. It ends for every archive whose
  headers lead to a terminator or the end of the disk.
\<close>

theorem tar_lookup_first_match:
  assumes "archive (kbytes s) (tar_base s + tar_limit s) (tar_base s) fs" "cstr filename 0 name"
  shows "tar_lookup filename s =
    Inr (case find_file (tar_base s) fs name of None \<Rightarrow> (0, None) | Some (p, len) \<Rightarrow> (p, Some len))"
  using tar_walk_archive [OF assms(2,1)] by (auto simp: tar_lookup_def split: option.splits)

text \<open>A disk at \<open>0x1000\<close> with one file \<^verbatim>\<open>a\<close> of ten bytes.\<close>

definition disk :: kernel_state where
  "disk = (upd_kbytes (\<lambda>_. (\<lambda>_. 0)(0x1000 := 0x61, 0x107C := 0x31, 0x107D := 0x32,
     0x1101 := 0x75, 0x1102 := 0x73, 0x1103 := 0x74, 0x1104 := 0x61, 0x1105 := 0x72)) blank_kernel)\<lparr>tar_base := 0x1000, tar_limit := 0x800\<rparr>"

lemma kbytes_tar: "kbytes (s\<lparr>tar_base := a, tar_limit := b\<rparr>) = kbytes s"
  by (simp add: kbytes_def ptr_phys_def fun_eq_iff)

lemma less_5: "(k :: u64) < 5 \<longleftrightarrow> k = 0 \<or> k = 1 \<or> k = 2 \<or> k = 3 \<or> k = 4"
  by (simp add: word_less_nat_alt word_unat_eq_iff) arith

theorem tar_lookup_first_match_witness:
  "tar_lookup (literal ''a'') disk = Inr (0x1200, Some 10)"
proof -
  let ?m = "(\<lambda>_. 0)(0x1000 := 0x61, 0x107C := 0x31, 0x107D := 0x32, 0x1101 := 0x75, 0x1102 := 0x73, 0x1103 := 0x74, 0x1104 := 0x61,
    0x1105 := 0x72) :: bytes"
  have m: "kbytes disk = ?m" by (simp only: disk_def kbytes_tar kbytes_upd)
  have "octal_to_int (at_ptr ?m (0x1000 + TAR_SIZE)) 12 = 10" by code_simp
  then have "header_at ?m 0x1000 [0x61] 10"
    by (auto simp: header_at_def at_ptr_def less_5 literal_def)
  then have "archive (kbytes disk) (tar_base disk + tar_limit disk) (tar_base disk) [([0x61], 10)]"
    unfolding m by (simp add: disk_def upd_kbytes_def next_header_def)
  then show ?thesis
    using tar_lookup_first_match [of disk "[([0x61], 10)]" "literal ''a''" "[0x61]"] by (simp add: disk_def literal_def)
qed

section \<open>Segments\<close>

lemma memcpy_outside: "\<not> a - d < n \<Longrightarrow> memcpy d src n m a = m a"
proof (induction d src n m rule: memcpy.induct)
  case (1 d src n m)
  show ?case
  proof (cases "n = 0")
    case False
    then have "a \<noteq> d" "\<not> a - (d + 1) < n - 1" using 1(2) in_block_step [of n a d] by (auto simp: word_gt_0)
    then have "memcpy (d + 1) (src + 1) (n - 1) (m(d := m src)) a = (m(d := m src)) a" by (intro 1(1)) (use False in simp_all)
    then show ?thesis using False \<open>a \<noteq> d\<close> by (subst memcpy.simps) (simp del: fun_upd_apply add: fun_upd_other)
  qed (simp add: memcpy.simps)
qed

lemma memcpy_first:
  assumes "0 < n"
  shows "memcpy d src n m d = m src"
proof -
  have "n \<noteq> 0" using assms by auto
  have "\<not> d - (d + 1) < n - 1" by (simp add: not_less word_n1_ge)
  then show ?thesis using \<open>n \<noteq> 0\<close> by (subst memcpy.simps) (simp add: memcpy_outside)
qed

lemma elf_copy_one_page:
  assumes v: "vmm_virtual_to_physical s pml4 vaddr = Inr phys" "phys \<noteq> 0"
    and len: "0 < filesz" "filesz \<le> PAGE_SIZE - vaddr mod PAGE_SIZE"
  shows "elf_copy_from pml4 vaddr src filesz 0 s = Inr (upd_kbytes (memcpy (phys_to_virt phys + vaddr mod PAGE_SIZE) src filesz) s)"
proof -
  have "chunk_size (vaddr mod PAGE_SIZE) filesz = filesz" using len(2) by (auto simp: chunk_size_def)
  then show ?thesis
    using v len(1) by (subst elf_copy_from.simps) (simp add: Let_def elf_copy_from.simps [of pml4 vaddr src filesz filesz])
qed


text \<open>A task whose page at \<open>0x400000\<close> is the frame at \<open>0x9000\<close>.\<close>

definition loading :: kernel_state where
  "loading = blank_kernel\<lparr>kernel_pml4 := 0x1000, tasks := (\<lambda>_. zero_task)(0x5000 := zero_task\<lparr>t_cr3 := 0x1000\<rparr>),
     pt_mem := (\<lambda>_. 0)(0x1000 := 0x2001, 0x2000 := 0x3001, 0x3010 := 0x4001, 0x4000 := 0x9001)\<rparr>"


end
