(* ===== verification/Kmalloc_Proofs.thy ===== *)
theory Kmalloc_Proofs
  imports Kmalloc Dll Samples
begin

text \<open>
  The heap behind \<^verbatim>\<open>kmalloc\<close> and \<^verbatim>\<open>kfree\<close>: a list of disjoint blocks, each a header of 40 bytes and its memory. Allocation takes the first
  free block that is large enough and splits it, freeing merges neighbours, and both keep the list well formed.
\<close>

section \<open>Headers in memory\<close>

definition fld :: "'a vmm_state_scheme \<Rightarrow> u64 \<Rightarrow> u64 \<Rightarrow> u64" where
  "fld s b off = pt_mem s (ptr_phys s (b + off))"

definition set_fld :: "u64 \<Rightarrow> u64 \<Rightarrow> u64 \<Rightarrow> 'a vmm_state_scheme \<Rightarrow> 'a vmm_state_scheme" where
  "set_fld b off v s = s\<lparr>pt_mem := (pt_mem s)(ptr_phys s (b + off) := v)\<rparr>"

definition low32 :: "u64 \<Rightarrow> u32 \<Rightarrow> u64" where
  "low32 w v = (w AND NOT (mask 32)) OR ucast v"

lemma ucast_low32 [simp]: "ucast (low32 w v) = v"
  by (rule bit_word_eqI) (auto simp: low32_def bit_ucast_iff bit_or_iff bit_and_iff bit_not_iff bit_mask_iff dest: bit_imp_le_length)

lemma load64_fld: "b \<noteq> 0 \<Longrightarrow> load64 s b off = Inr (fld s b off)"
  by (simp add: load64_def fld_def)

lemma load32_fld: "b \<noteq> 0 \<Longrightarrow> load32 s b off = Inr (ucast (fld s b off))"
  by (simp add: load32_def load64_fld)

lemma store64_fld: "b \<noteq> 0 \<Longrightarrow> store64 b off v s = Inr (set_fld b off v s)"
  by (simp add: store64_def set_fld_def)

lemma store32_fld: "b \<noteq> 0 \<Longrightarrow> store32 b off v s = Inr (set_fld b off (low32 (fld s b off) v) s)"
  by (simp add: store32_def load64_fld store64_fld low32_def)

lemmas mem_simps = load64_fld load32_fld store64_fld store32_fld

lemma fld_set: "fld (set_fld b off v s) b' off' = (if b' + off' = b + off then v else fld s b' off')"
  by (simp add: fld_def set_fld_def ptr_phys_def)

lemma set_fld_frame [simp]:
  "heap_start (set_fld b off v s) = heap_start s" "heap_lock (set_fld b off v s) = heap_lock s"
  "kernel_pml4 (set_fld b off v s) = kernel_pml4 s"
  by (simp_all add: set_fld_def)

lemma set_fld_lock: "set_fld b off v (s\<lparr>heap_lock := l\<rparr>) = (set_fld b off v s)\<lparr>heap_lock := l\<rparr>"
  by (simp add: set_fld_def ptr_phys_def)

lemma fld_lock [simp]: "fld (s\<lparr>heap_lock := l\<rparr>) = fld s"
  by (simp add: fld_def ptr_phys_def fun_eq_iff)

section \<open>Blocks\<close>

type_synonym block = "u64 \<times> nat \<times> bool"

fun span :: "block \<Rightarrow> nat set" where
  "span (b, n, f) = {unat b ..< unat b + 40 + n}"

fun placed :: "block \<Rightarrow> bool" where
  "placed (b, n, f) \<longleftrightarrow> b \<noteq> 0 \<and> 4096 \<le> unat b \<and> 8 dvd unat b \<and> 8 dvd n \<and> unat b + 40 + n < 2 ^ 64"

fun header_ok :: "'a vmm_state_scheme \<Rightarrow> block \<Rightarrow> bool" where
  "header_ok s (b, n, f) \<longleftrightarrow> (ucast (fld s b 0) :: u32) = KMALLOC_MAGIC \<and> fld s b H_SIZE = of_nat n \<and> ((ucast (fld s b H_FREE) :: u32) \<noteq> 0) = f"

fun tiled :: "block list \<Rightarrow> bool" where
  "tiled [] \<longleftrightarrow> True"
| "tiled (x # bs) \<longleftrightarrow> placed x \<and> (\<forall>y \<in> set bs. span x \<inter> span y = {}) \<and> tiled bs"

lemma tiled_append:
  "tiled (xs @ ys) \<longleftrightarrow> tiled xs \<and> tiled ys \<and> (\<forall>x \<in> set xs. \<forall>y \<in> set ys. span x \<inter> span y = {})"
  by (induction xs) auto

lemma tiled_placed: "tiled bs \<Longrightarrow> x \<in> set bs \<Longrightarrow> placed x"
  by (induction bs) auto

lemma tiled_apart: "tiled bs \<Longrightarrow> x \<in> set bs \<Longrightarrow> y \<in> set bs \<Longrightarrow> fst x \<noteq> fst y \<Longrightarrow> span x \<inter> span y = {}"
  by (induction bs) auto

lemma tiled_nonzero: "tiled bs \<Longrightarrow> b \<in> fst ` set bs \<Longrightarrow> b \<noteq> 0"
  using tiled_placed by fastforce

lemma span_head: "unat (fst x) \<in> span x"
  by (cases x) simp

lemma tiled_distinct: "tiled bs \<Longrightarrow> distinct (map fst bs)"
proof (induction bs)
  case (Cons x bs)
  have "fst x \<noteq> fst y" if y: "y \<in> set bs" for y
  proof -
    have "span x \<inter> span y = {}" using Cons.prems y by simp
    then show ?thesis using span_head [of x] span_head [of y] by auto
  qed
  then show ?case using Cons by auto
qed simp

abbreviation links :: "'a vmm_state_scheme \<Rightarrow> u64 \<Rightarrow> u64 list \<Rightarrow> bool" where
  "links s h bs \<equiv> dll (\<lambda>b. fld s b H_NEXT) (\<lambda>b. fld s b H_PREV) h bs"

definition heap_ok :: "'a heap_state_scheme \<Rightarrow> block list \<Rightarrow> bool" where
  "heap_ok s bs \<longleftrightarrow> tiled bs \<and> links s (heap_start s) (map fst bs) \<and> (\<forall>x \<in> set bs. header_ok s x)"

text \<open>Offsets of the fields of a header.\<close>

definition is_off :: "u64 \<Rightarrow> bool" where
  "is_off k \<longleftrightarrow> k \<in> {0, H_SIZE, H_FREE, H_NEXT, H_PREV}"

lemma is_off_simps [simp]: "is_off 0" "is_off H_SIZE" "is_off H_FREE" "is_off H_NEXT" "is_off H_PREV"
  by (simp_all add: is_off_def)

lemma off_less: "is_off k \<Longrightarrow> unat k \<le> 32"
  by (auto simp: is_off_def)

lemma placed_off: "placed (b, n, f) \<Longrightarrow> is_off o1 \<Longrightarrow> unat (b + o1) = unat b + unat o1"
  using off_less [of o1] by (auto simp: unat_plus_if')

lemma off_in_span: "placed (b, n, f) \<Longrightarrow> is_off o1 \<Longrightarrow> unat (b + o1) \<in> span (b, n, f)"
  using placed_off [of b n f o1] off_less [of o1] by auto

lemma tiled_heads:
  assumes "tiled bs" "x \<in> set bs" "y \<in> set bs" "is_off o1" "is_off o2"
  shows "fst x + o1 = fst y + o2 \<longleftrightarrow> fst x = fst y \<and> o1 = o2"
proof
  assume e: "fst x + o1 = fst y + o2"
  have p: "placed x" "placed y" using tiled_placed assms(1,2,3) by blast+
  have "unat (fst x + o1) \<in> span x" "unat (fst y + o2) \<in> span y"
    using off_in_span [of "fst x" "fst (snd x)" "snd (snd x)" o1] off_in_span [of "fst y" "fst (snd y)" "snd (snd y)" o2] p assms(4,5) by auto
  then have "fst x = fst y" using tiled_apart [OF assms(1-3)] e by auto
  then show "fst x = fst y \<and> o1 = o2" using e by simp
qed simp

text \<open>Writing a field of one header changes that field of that header only.\<close>

lemma fld_set_head:
  assumes "tiled bs" "b \<in> fst ` set bs" "b' \<in> fst ` set bs" "is_off o1" "is_off o2"
  shows "fld (set_fld b o1 v s) b' o2 = (if b' = b \<and> o2 = o1 then v else fld s b' o2)"
proof -
  obtain x y where "x \<in> set bs" "y \<in> set bs" "b = fst x" "b' = fst y" using assms(2,3) by blast
  then show ?thesis using tiled_heads [OF assms(1) _ _ assms(5,4), of y x] by (simp only: fld_set)
qed

lemma heap_ok_cong:
  assumes "heap_ok s bs" "heap_start s' = heap_start s" "\<And>b off. b \<in> fst ` set bs \<Longrightarrow> is_off off \<Longrightarrow> fld s' b off = fld s b off"
  shows "heap_ok s' bs"
proof -
  have "header_ok s' (b, n, f) = header_ok s (b, n, f)" if "(b, n, f) \<in> set bs" for b n f
    using assms(3) [of b] imageI [OF that, of fst] by simp
  then have "header_ok s' x = header_ok s x" if "x \<in> set bs" for x using that by (metis prod_cases3)
  moreover have "links s' (heap_start s') (map fst bs) = links s (heap_start s) (map fst bs)"
    unfolding assms(2) using assms(3) by (intro dseg_cong) simp_all
  ultimately show ?thesis using assms(1) by (auto simp: heap_ok_def)
qed

lemma heap_okI:
  assumes "tiled bs" "links s (heap_start s) (map fst bs)" "\<And>b n f. (b, n, f) \<in> set bs \<Longrightarrow> header_ok s (b, n, f)"
  shows "heap_ok s bs"
  using assms(1,2) unfolding heap_ok_def by (metis assms(3) prod_cases3)

lemma heap_okD:
  assumes "heap_ok s bs"
  shows "tiled bs" "links s (heap_start s) (map fst bs)" "\<And>x. x \<in> set bs \<Longrightarrow> header_ok s x" "\<And>b n f. (b, n, f) \<in> set bs \<Longrightarrow> b \<noteq> 0"
  using assms tiled_placed by (auto simp: heap_ok_def) blast

section \<open>Finding a block\<close>

fun first_fit :: "u64 \<Rightarrow> block list \<Rightarrow> u64 \<Rightarrow> u64 \<times> u64" where
  "first_fit sz [] l = (0, l)"
| "first_fit sz ((b, n, f) # bs) l = (if f \<and> unat sz \<le> n then (b, l) else first_fit sz bs b)"

lemma kmalloc_find_eq:
  "dseg (\<lambda>b. fld s b H_NEXT) (\<lambda>b. fld s b H_PREV) b0 cur (map fst bs) 0 \<Longrightarrow> \<forall>x \<in> set bs. placed x \<and> header_ok s x \<Longrightarrow>
   kmalloc_find s sz cur l = Some (Inr (first_fit sz bs l))"
proof (induction bs arbitrary: b0 cur l)
  case Nil
  then show ?case by (subst kmalloc_find.simps) simp
next
  case (Cons x bs)
  obtain b n f where x: "x = (b, n, f)" by (cases x)
  have b: "cur = b" "b \<noteq> 0" "n < 2 ^ 64" and h: "header_ok s (b, n, f)" using Cons.prems x by auto
  have fit: "(of_nat n \<ge> sz) = (unat sz \<le> n)" using b(3) by (simp add: word_le_nat_alt unat_of_nat)
  have "kmalloc_find s sz (fld s b H_NEXT) b = Some (Inr (first_fit sz bs b))"
    using Cons.prems x by (intro Cons.IH [of b]) auto
  then show ?case using b(1,2) h fit x by (subst kmalloc_find.simps) (simp add: mem_simps)
qed

lemma first_fit_split:
  "\<forall>(b', n', f') \<in> set xs. \<not> (f' \<and> unat sz \<le> n') \<Longrightarrow> unat sz \<le> n \<Longrightarrow> \<exists>l'. first_fit sz (xs @ (b, n, True) # ys) l = (b, l')"
  by (induction xs arbitrary: l) auto

section \<open>Splitting a block\<close>

lemma dll_insert:
  assumes d: "dll nx pv h (xs @ b # ys)" and c: "c \<notin> set (xs @ b # ys)" "c \<noteq> 0"
  shows "dll (nx(c := nx b, b := c)) (if nx b \<noteq> 0 then pv(c := b, nx b := c) else pv(c := b)) h (xs @ b # c # ys)"
proof -
  let ?nx = "nx(c := nx b, b := c)" let ?pv = "if nx b \<noteq> 0 then pv(c := b, nx b := c) else pv(c := b)"
  note sp = dseg_split [OF d]
  have dist: "distinct (xs @ b # ys)" by (rule dll_distinct [OF d])
  have hd: "nx b = (case ys of [] \<Rightarrow> 0 | y # _ \<Rightarrow> y)" using sp(4) by (cases ys) auto
  have xs: "dseg ?nx ?pv 0 h xs b"
    using sp(1) c dist hd by (subst dseg_cong [where nx = nx and pv = pv]) (auto split: list.splits)
  have ys: "dseg ?nx ?pv c (nx b) ys 0"
  proof (cases ys)
    case (Cons y zs)
    have "dseg ?nx ?pv y (nx y) zs 0"
      using sp(4) c dist hd Cons by (subst dseg_cong [where nx = nx and pv = pv]) auto
    then show ?thesis using sp(4) c dist hd Cons by auto
  qed (use hd in simp)
  have "?pv b = pv b" "?nx b = c" "?pv c = b" "?nx c = nx b" using c dist hd by (auto split: list.splits)
  then show ?thesis using xs ys sp(2,3) c unfolding dseg_append by auto
qed

lemma span_split:
  assumes "placed (b, n, f)" "8 dvd sz" "sz + 40 \<le> n"
  shows "placed (b, sz, f1)" "placed (b + 40 + of_nat sz, n - sz - 40, f2)" "unat (b + 40 + of_nat sz) = unat b + 40 + sz"
proof -
  show u: "unat (b + 40 + of_nat sz) = unat b + 40 + sz" using assms by (simp add: unat_word_ariths unat_of_nat)
  show "placed (b, sz, f1)" using assms by auto
  show "placed (b + 40 + of_nat sz, n - sz - 40, f2)" using assms u by (auto simp: word_unat_eq_iff dvd_diff_nat)
qed

lemma tiled_replace:
  assumes "tiled (xs @ ws @ ys)" "tiled zs" "\<Union> (span ` set zs) \<subseteq> \<Union> (span ` set ws)"
  shows "tiled (xs @ zs @ ys)"
proof -
  have t: "tiled xs" "tiled ys" "\<forall>x \<in> set xs. \<forall>y \<in> set ys. span x \<inter> span y = {}"
    and w: "\<forall>x \<in> set xs. \<forall>w \<in> set ws. span x \<inter> span w = {}" "\<forall>w \<in> set ws. \<forall>y \<in> set ys. span w \<inter> span y = {}"
    using assms(1) by (simp_all add: tiled_append ball_Un)
  have "span x \<inter> span z = {}" if "x \<in> set xs" "z \<in> set zs" for x z using w(1) assms(3) that by blast
  moreover have "span z \<inter> span y = {}" if "z \<in> set zs" "y \<in> set ys" for z y using w(2) assms(3) that by blast
  ultimately show ?thesis using t assms(2) by (simp add: tiled_append ball_Un)
qed

lemma tiled_split:
  assumes "tiled (xs @ (b, n, f) # ys)" "8 dvd sz" "sz + 40 \<le> n"
  shows "tiled (xs @ (b, sz, f1) # (b + 40 + of_nat sz, n - sz - 40, f2) # ys)"
proof -
  have p: "placed (b, n, f)" using assms(1) by (simp add: tiled_append)
  note sp = span_split [OF p assms(2,3)]
  have "tiled [(b, sz, f1), (b + 40 + of_nat sz, n - sz - 40, f2)]" using sp(1,2) sp(3) by (simp del: placed.simps)
  moreover have "\<Union> (span ` set [(b, sz, f1), (b + 40 + of_nat sz, n - sz - 40, f2)]) \<subseteq> \<Union> (span ` set [(b, n, f)])"
    using sp(3) assms(3) by auto
  ultimately show ?thesis using tiled_replace [of xs "[(b, n, f)]" ys] assms(1) by (metis append_Cons append_Nil)
qed

lemma tiled_flag: "tiled (xs @ (b, n, f) # ys) \<Longrightarrow> tiled (xs @ (b, n, f') # ys)"
  using tiled_replace [of xs "[(b, n, f)]" ys "[(b, n, f')]"] tiled_placed [of "xs @ (b, n, f) # ys" "(b, n, f)"] by simp

text \<open>The memory of a block, which belongs to its user.\<close>

fun same_data :: "'a vmm_state_scheme \<Rightarrow> 'b vmm_state_scheme \<Rightarrow> block \<Rightarrow> bool" where
  "same_data s s' (b, n, f) \<longleftrightarrow> (\<forall>k < n div 8. fld s' (b + 40) (8 * of_nat k) = fld s (b + 40) (8 * of_nat k))"

lemma same_data_refl: "same_data s s x"
  by (cases x) simp

lemma same_data_trans: "same_data s s' x \<Longrightarrow> same_data s' s'' x \<Longrightarrow> same_data s s'' x"
  by (cases x) simp

lemma data_addr:
  assumes "placed (b, n, f)" "k < n div 8"
  shows "unat (b + 40 + 8 * of_nat k) = unat b + 40 + 8 * k"
proof -
  have k: "8 * k < n" using assms by auto
  then have "unat (8 * of_nat k :: u64) = 8 * k" "unat (b + 40) = unat b + 40"
    using assms(1) by (simp_all add: unat_word_ariths unat_of_nat)
  then show ?thesis using assms(1) k by (simp add: unat_word_ariths)
qed

lemma same_data_set:
  assumes t: "tiled bs" and b: "b \<in> fst ` set bs" "is_off o1" and x: "x \<in> set bs"
  shows "same_data s (set_fld b o1 v s) x"
proof -
  obtain c n f where c: "x = (c, n, f)" by (cases x)
  obtain m g where y: "(b, m, g) \<in> set bs" using b(1) by auto
  have py: "placed (b, m, g)" and px: "placed (c, n, f)" using tiled_placed [OF t] y x c by blast+
  have "c + 40 + 8 * of_nat k \<noteq> b + o1" if k: "k < n div 8" for k
  proof
    assume e: "c + 40 + 8 * of_nat k = b + o1"
    have u: "unat c + 40 + 8 * k = unat b + unat o1" using data_addr [OF px k] placed_off [OF py b(2)] e by simp
    show False
    proof (cases "c = b")
      case True
      then show False using u off_less [OF b(2)] by simp
    next
      case False
      then have "span (c, n, f) \<inter> span (b, m, g) = {}" using tiled_apart [OF t x y] c by simp
      moreover have "unat (b + o1) \<in> span (b, m, g)" by (rule off_in_span [OF py b(2)])
      moreover have "unat (b + o1) \<in> span (c, n, f)" using u k placed_off [OF py b(2)] by auto
      ultimately show False by blast
    qed
  qed
  then show ?thesis by (simp add: c fld_set)
qed

text \<open>The writes of a split, in the order of the code.\<close>

definition split_writes :: "u64 \<Rightarrow> u64 \<Rightarrow> u64 \<Rightarrow> 'a vmm_state_scheme \<Rightarrow> 'a vmm_state_scheme" where
  "split_writes b c sz s =
     (let s1 = set_fld c 0 (low32 (fld s c 0) KMALLOC_MAGIC) s;
          s2 = set_fld c H_SIZE (fld s b H_SIZE - sz - 40) s1;
          s3 = set_fld c H_FREE (low32 (fld s2 c H_FREE) 1) s2;
          s4 = set_fld c H_NEXT (fld s b H_NEXT) s3;
          s5 = set_fld c H_PREV b s4;
          s6 = (if fld s b H_NEXT \<noteq> 0 then set_fld (fld s b H_NEXT) H_PREV c s5 else s5)
      in set_fld b H_NEXT c (set_fld b H_SIZE sz s6))"

lemma fld_split_writes:
  assumes t: "tiled bs" and m: "b \<in> fst ` set bs" "c \<in> fst ` set bs" "fld s b H_NEXT \<noteq> 0 \<Longrightarrow> fld s b H_NEXT \<in> fst ` set bs"
    and y: "y \<in> fst ` set bs" "is_off k"
  shows "fld (split_writes b c sz s) y k =
    (if y = b \<and> k = H_NEXT then c else if y = b \<and> k = H_SIZE then sz
     else if y = fld s b H_NEXT \<and> y \<noteq> 0 \<and> k = H_PREV then c else if y = c \<and> k = H_PREV then b
     else if y = c \<and> k = H_NEXT then fld s b H_NEXT else if y = c \<and> k = H_FREE then low32 (fld s c H_FREE) 1
     else if y = c \<and> k = H_SIZE then fld s b H_SIZE - sz - 40 else if y = c \<and> k = 0 then low32 (fld s c 0) KMALLOC_MAGIC
     else fld s y k)"
  using y m tiled_nonzero [OF t y(1)] tiled_nonzero [OF t m(2)] by (simp add: split_writes_def Let_def fld_set_head [OF t])

lemma split_writes_frame [simp]:
  "heap_lock (split_writes b c sz s) = heap_lock s" "heap_start (split_writes b c sz s) = heap_start s"
  by (simp_all add: split_writes_def Let_def)

lemma same_data_split:
  assumes t: "tiled bs" and m: "b \<in> fst ` set bs" "c \<in> fst ` set bs" "fld s b H_NEXT \<noteq> 0 \<Longrightarrow> fld s b H_NEXT \<in> fst ` set bs"
    and x: "x \<in> set bs"
  shows "same_data s (split_writes b c sz s) x"
  unfolding split_writes_def Let_def using same_data_set [OF t _ _ x] m
  by (auto intro!: same_data_trans [OF _ same_data_set [OF t _ _ x]] same_data_refl)

lemma dll_next_mem: "dll nx pv h (xs @ b # ys) \<Longrightarrow> nx b \<noteq> 0 \<Longrightarrow> nx b \<in> set ys"
  using dseg_split(4) [of nx pv 0 h xs b ys] by (cases ys) auto

lemma rest_size: "sz + 40 \<le> n \<Longrightarrow> (of_nat (n - sz - 40) :: u64) = of_nat n - of_nat sz - 40"
proof -
  assume "sz + 40 \<le> n"
  then have "(of_nat n :: u64) = of_nat (n - sz - 40 + sz + 40)" by simp
  then show ?thesis by (simp only: of_nat_add) simp
qed

lemma heap_ok_split:
  assumes h: "heap_ok s (xs @ (b, n, True) # ys)" and sz: "8 dvd sz" "sz + 40 \<le> n" and c: "c = b + 40 + of_nat sz"
  shows "heap_ok (split_writes b c (of_nat sz) s) (xs @ (b, sz, True) # (c, n - sz - 40, True) # ys)" (is "heap_ok ?s ?bs")
proof -
  note hd = heap_okD [OF h]
  have t: "tiled ?bs" using tiled_split [OF hd(1) sz] by (simp add: c)
  have d: "distinct (map fst ?bs)" by (rule tiled_distinct [OF t])
  have nn: "fld s b H_NEXT \<in> fst ` set ?bs" if "fld s b H_NEXT \<noteq> 0"
    using dll_next_mem [OF hd(2) [simplified]] that by auto
  have f: "y \<in> fst ` set ?bs \<Longrightarrow> is_off k \<Longrightarrow> fld ?s y k =
      (if y = b \<and> k = H_NEXT then c else if y = b \<and> k = H_SIZE then of_nat sz
       else if y = fld s b H_NEXT \<and> y \<noteq> 0 \<and> k = H_PREV then c else if y = c \<and> k = H_PREV then b
       else if y = c \<and> k = H_NEXT then fld s b H_NEXT else if y = c \<and> k = H_FREE then low32 (fld s c H_FREE) 1
       else if y = c \<and> k = H_SIZE then fld s b H_SIZE - of_nat sz - 40 else if y = c \<and> k = 0 then low32 (fld s c 0) KMALLOC_MAGIC
       else fld s y k)" for y k
    using nn by (intro fld_split_writes [OF t]) auto
  have hb: "header_ok s (b, n, True)" using hd(3) [of "(b, n, True)"] by simp
  have m: "b \<in> fst ` set ?bs" "c \<in> fst ` set ?bs" by simp_all
  have bc: "b \<noteq> c" using d by simp
  have bo: "b \<notin> fst ` set (xs @ ys)" "c \<notin> fst ` set (xs @ ys)" using d by (simp_all add: image_Un)
  have "fld ?s b 0 = fld s b 0" "fld ?s b H_SIZE = of_nat sz" "fld ?s b H_FREE = fld s b H_FREE"
    using bc by (simp_all add: f [OF m(1)])
  then have "header_ok ?s (b, sz, True)" using hb by simp
  moreover have "fld ?s c 0 = low32 (fld s c 0) KMALLOC_MAGIC" "fld ?s c H_SIZE = of_nat n - of_nat sz - 40"
      "fld ?s c H_FREE = low32 (fld s c H_FREE) 1"
    using bc hb by (simp_all add: f [OF m(2)])
  then have "header_ok ?s (c, n - sz - 40, True)" by (simp only: header_ok.simps rest_size [OF sz(2)]) simp
  moreover have "header_ok ?s (b', n', f')" if "(b', n', f') \<in> set (xs @ ys)" for b' n' f'
  proof -
    have i: "b' \<in> fst ` set (xs @ ys)" by (rule image_eqI [OF _ that]) simp
    have "b' \<noteq> b" "b' \<noteq> c" using i bo by metis+
    moreover have "b' \<in> fst ` set ?bs" using i unfolding set_append image_Un by auto
    ultimately
    show ?thesis using hd(3) [of "(b', n', f')"] that by (simp add: f [OF _ is_off_simps(1)] f [OF _ is_off_simps(2)] f [OF _ is_off_simps(3)])
  qed
  moreover have "links ?s (heap_start s) (map fst ?bs)"
  proof -
    let ?nx = "(\<lambda>y. fld s y H_NEXT)(c := fld s b H_NEXT, b := c)"
    let ?pv = "if fld s b H_NEXT \<noteq> 0 then (\<lambda>y. fld s y H_PREV)(c := b, fld s b H_NEXT := c) else (\<lambda>y. fld s y H_PREV)(c := b)"
    have "c \<notin> set (map fst xs @ b # map fst ys)" "c \<noteq> 0" using bo bc tiled_nonzero [OF t m(2)] by (auto simp: image_Un)
    then have i: "dll ?nx ?pv (heap_start s) (map fst ?bs)" using dll_insert [OF hd(2) [simplified], of c] by simp
    have "fld ?s y H_NEXT = ?nx y" "fld ?s y H_PREV = ?pv y" if y: "y \<in> set (map fst ?bs)" for y
      using tiled_nonzero [OF t y [unfolded set_map]] bc by (simp_all add: f [OF y [unfolded set_map]])
    then show ?thesis by (subst dseg_cong [where nx = ?nx and pv = ?pv]) (assumption | rule i)+
  qed
  ultimately show ?thesis using t by (intro heap_okI) (auto simp del: header_ok.simps)
qed

section \<open>Taking a block\<close>

lemma heap_ok_flag:
  assumes h: "heap_ok s (xs @ (b, n, f) # ys)"
  shows "heap_ok (set_fld b H_FREE w s) (xs @ (b, n, (ucast w :: u32) \<noteq> 0) # ys)" (is "heap_ok ?s ?bs")
proof (rule heap_okI)
  note hd = heap_okD [OF h]
  show t: "tiled ?bs" by (rule tiled_flag [OF hd(1)])
  have b: "b \<in> fst ` set ?bs" by simp
  note f = fld_set_head [OF t b]
  have e: "map fst ?bs = map fst (xs @ (b, n, f) # ys)" by simp
  have "fld ?s y H_NEXT = fld s y H_NEXT" "fld ?s y H_PREV = fld s y H_PREV" if y: "y \<in> set (map fst ?bs)" for y
    by (simp_all add: f [OF y [unfolded set_map]])
  then have "links ?s (heap_start s) (map fst ?bs) = links s (heap_start s) (map fst ?bs)" by (rule dseg_cong)
  then show "links ?s (heap_start ?s) (map fst ?bs)" using hd(2) unfolding e by simp
  have d: "distinct (map fst ?bs)" by (rule tiled_distinct [OF t])
  show "header_ok ?s (c, m, g)" if c: "(c, m, g) \<in> set ?bs" for c m g
  proof (cases "c = b")
    case True
    then have "(c, m, g) = (b, n, (ucast w :: u32) \<noteq> 0)" using d c eq_key_imp_eq_value [OF d, of c "(m, g)" "(n, (ucast w :: u32) \<noteq> 0)"] by simp
    moreover have "header_ok s (b, n, f)" using hd(3) [of "(b, n, f)"] by simp
    ultimately show ?thesis by (simp add: f [OF b])
  next
    case False
    have "c \<in> fst ` set ?bs" by (rule image_eqI [OF _ c]) simp
    moreover have "(c, m, g) \<in> set (xs @ (b, n, f) # ys)" using c False by auto
    then have "header_ok s (c, m, g)" by (rule hd(3))
    ultimately show ?thesis using False by (simp add: f del: set_append)
  qed
qed

lemma memset_zero_Inr: "p \<noteq> 0 \<Longrightarrow> \<exists>s'. memset_zero p n s = Inr s'"
  by (simp add: memset_zero_def)

lemma memset_zero_frame:
  assumes "memset_zero p n s = Inr s'"
  shows "heap_lock s' = heap_lock s" "heap_start s' = heap_start s"
  using assms by (auto simp: memset_zero_def Let_def split: if_splits)

lemma sub_less:
  fixes a p :: u64
  assumes "unat p + n < 2 ^ 64"
  shows "a - p < of_nat n \<longleftrightarrow> unat a \<in> {unat p ..< unat p + n}"
proof -
  have n: "unat (of_nat n :: u64) = n" using assms by (simp add: unat_of_nat)
  have "unat a < 2 ^ 64" using unsigned_less [of a, where ?'a = nat] by simp
  then show ?thesis using assms by (auto simp: word_less_nat_alt n unat_sub_if')
qed

lemma memset_zero_word:
  assumes "memset_zero p n s = Inr s'" "d = y + k - p"
  shows "fld s' y k =
    (if d < n then if n - d \<ge> 8 then 0 else fld s y k AND NOT (mask (8 * unat (n - d))) else fld s y k)"
proof (cases "n = 0")
  case False
  have d: "ptr_phys s (y + k) - ptr_phys s p = d" using assms(2) by (simp add: ptr_phys_def)
  have "pt_mem s' (ptr_phys s (y + k)) = (if d < n then if n - d \<ge> 8 then 0 else fld s y k AND NOT (mask (8 * unat (n - d))) else fld s y k)"
    using assms(1) False by (auto simp: memset_zero_def Let_def fld_def d split: if_splits)
  moreover have "ptr_phys s' = ptr_phys s" using assms(1) by (auto simp: memset_zero_def Let_def ptr_phys_def fun_eq_iff split: if_splits)
  ultimately show ?thesis by (simp add: fld_def)
qed (use assms in \<open>simp add: memset_zero_def\<close>)

lemma memset_zero_outside:
  assumes "memset_zero p (of_nat n) s = Inr s'" "unat p + n < 2 ^ 64" "unat (y + k) \<notin> {unat p ..< unat p + n}"
  shows "fld s' y k = fld s y k"
proof -
  have "\<not> y + k - p < of_nat n" using sub_less [OF assms(2)] assms(3) by blast
  then show ?thesis by (subst memset_zero_word [OF assms(1) refl]) (simp only: if_False)
qed

lemma memset_zero_inside:
  assumes "memset_zero p (of_nat n) s = Inr s'" "unat p + n < 2 ^ 64" "8 dvd n" "k < n div 8"
  shows "fld s' p (8 * of_nat k) = 0"
proof -
  have k: "8 * k + 8 \<le> n" using assms(3,4) by auto
  then have u: "unat (8 * of_nat k :: u64) = 8 * k" "unat (of_nat n :: u64) = n" using assms(2) by (simp_all add: unat_word_ariths unat_of_nat)
  then have "(8 * of_nat k :: u64) < of_nat n" using k by (simp add: word_less_nat_alt)
  moreover have "of_nat n - (8 * of_nat k :: u64) \<ge> 8" using k u by (simp add: word_le_nat_alt unat_sub_if')
  ultimately show ?thesis by (subst memset_zero_word [OF assms(1), of "8 * of_nat k"]) simp_all
qed

lemma heap_ok_memset:
  assumes h: "heap_ok s (xs @ (b, n, f) # ys)" and m: "memset_zero (b + 40) (of_nat n) s = Inr s'"
  shows "heap_ok s' (xs @ (b, n, f) # ys)" "\<And>x. x \<in> set (xs @ ys) \<Longrightarrow> same_data s s' x"
    "\<And>k. k < n div 8 \<Longrightarrow> fld s' (b + 40) (8 * of_nat k) = 0"
proof -
  let ?bs = "xs @ (b, n, f) # ys"
  note t = heap_okD(1) [OF h]
  have b: "(b, n, f) \<in> set ?bs" by simp
  note pb = tiled_placed [OF t b]
  then have u: "unat (b + 40) = unat b + 40" by (simp add: unat_word_ariths)
  then have l: "unat (b + 40) + n < 2 ^ 64" using pb by simp
  note out = memset_zero_outside [OF m l, unfolded u]
  have off: "fld s' c k = fld s c k" if c: "c \<in> fst ` set ?bs" and k: "is_off k" for c k
  proof -
    obtain x where x: "x \<in> set ?bs" "c = fst x" using c by blast
    have o1: "unat (c + k) \<in> span x" "unat (c + k) = unat c + unat k"
      using off_in_span placed_off x(2) tiled_placed [OF t x(1)] k by (metis prod.collapse)+
    have "unat (c + k) \<notin> {unat b + 40 ..< unat b + 40 + n}"
      using tiled_apart [OF t x(1) b] x(2) o1 off_less [OF k] by (cases "c = b") auto
    then show ?thesis by (rule out)
  qed
  show "heap_ok s' ?bs" by (rule heap_ok_cong [OF h memset_zero_frame(2) [OF m] off])
  show "same_data s s' x" if x: "x \<in> set (xs @ ys)" for x
  proof -
    obtain c j g where c: "x = (c, j, g)" by (cases x)
    have xb: "x \<in> set ?bs" using x by auto
    have "b \<notin> fst ` set (xs @ ys)" using tiled_distinct [OF t] by (simp add: image_Un)
    then have "fst x \<noteq> b" using imageI [OF x, of fst] by metis
    then have "span (c, j, g) \<inter> span (b, n, f) = {}" using tiled_apart [OF t xb b] c by simp
    moreover have "unat (c + 40 + 8 * of_nat k) \<in> span (c, j, g)" if "k < j div 8" for k
      using data_addr [OF tiled_placed [OF t xb, unfolded c] that] that by auto
    ultimately show ?thesis using out by (fastforce simp: c)
  qed
  show "fld s' (b + 40) (8 * of_nat k) = 0" if "k < n div 8" for k
    using memset_zero_inside [OF m l _ that] pb by simp
qed

section \<open>Allocation\<close>

lemma heap_ok_lock [simp]: "heap_ok (s\<lparr>heap_lock := l\<rparr>) bs = heap_ok s bs"
proof -
  have "header_ok (s\<lparr>heap_lock := l\<rparr>) x = header_ok s x" for x by (cases x) simp
  then show ?thesis by (simp add: heap_ok_def)
qed

lemma same_data_lock [simp]:
  "same_data (s\<lparr>heap_lock := l\<rparr>) s' x = same_data s s' x" "same_data s (s'\<lparr>heap_lock := l\<rparr>) x = same_data s s' x"
  by (cases x; simp)+

lemma split_fits:
  assumes "placed (b, n, f)" "sz \<le> n"
  shows "(of_nat n :: u64) \<ge> of_nat sz + 40 + 16 \<longleftrightarrow> sz + 56 \<le> n"
proof -
  have "unat (of_nat n :: u64) = n" "unat (of_nat sz + 40 + 16 :: u64) = sz + 56"
    using assms by (simp_all add: unat_word_ariths unat_of_nat)
  then show ?thesis by (simp add: word_le_nat_alt)
qed

lemma kmalloc_split_eq:
  assumes h: "heap_ok s (xs @ (b, n, True) # ys)" and sz: "8 dvd sz" "sz \<le> n" and c: "c = b + 40 + of_nat sz"
  shows "kmalloc_split b (of_nat sz) s = Inr (if sz + 56 \<le> n then split_writes b c (of_nat sz) s else s)"
proof -
  note hd = heap_okD [OF h]
  have b: "(b, n, True) \<in> set (xs @ (b, n, True) # ys)" by simp
  have hb: "b \<noteq> 0" "fld s b H_SIZE = of_nat n" using hd(3) [OF b] hd(4) [OF b] by auto
  note fits = split_fits [OF tiled_placed [OF hd(1) b] sz(2)]
  show ?thesis
  proof (cases "sz + 56 \<le> n")
    case False
    then show ?thesis using hb fits by (simp add: kmalloc_split_def mem_simps)
  next
    case True
    then have t: "tiled (xs @ (b, sz, True) # (c, n - sz - 40, True) # ys)" (is "tiled ?bs")
      using tiled_split [OF hd(1) sz(1), of True True] c by simp
    have m: "b \<in> fst ` set ?bs" "c \<in> fst ` set ?bs" by simp_all
    note f = fld_set_head [OF t m(2) m(1)] fld_set_head [OF t m(2) m(2)]
    show ?thesis using True fits hb tiled_nonzero [OF t m(2)] unfolding c [symmetric]
      by (simp add: kmalloc_split_def mem_simps c [symmetric] split_writes_def Let_def f)
  qed
qed

text \<open>What becomes of the block \<open>(b, n)\<close> when \<open>sz\<close> bytes of it are given out.\<close>

definition carve :: "nat \<Rightarrow> u64 \<Rightarrow> nat \<Rightarrow> block list" where
  "carve sz b n =
     (if sz + 56 \<le> n then [(b, sz, False), (b + 40 + of_nat sz, n - sz - 40, True)] else [(b, n, False)])"

lemma take_block:
  assumes h: "heap_ok s (xs @ (b, n, True) # ys)" and sz: "8 dvd sz" "sz \<le> n"
  shows "\<exists>s1 m zs. kmalloc_split b (of_nat sz) s = Inr s1 \<and> (b, m, False) # zs = carve sz b n \<and> sz \<le> m \<and>
    heap_ok (set_fld b H_FREE (low32 (fld s1 b H_FREE) 0) s1) (xs @ (b, m, False) # zs @ ys) \<and> heap_lock s1 = heap_lock s \<and>
    (\<forall>x \<in> set (xs @ ys). same_data s (set_fld b H_FREE (low32 (fld s1 b H_FREE) 0) s1) x)"
proof (cases "sz + 56 \<le> n")
  case False
  have "same_data s (set_fld b H_FREE w s) x" if "x \<in> set (xs @ ys)" for x w
    using that by (intro same_data_set [OF heap_okD(1) [OF h]]) auto
  then show ?thesis using False sz(2) heap_ok_flag [OF h, of "low32 (fld s b H_FREE) 0"] kmalloc_split_eq [OF h sz refl] by (auto simp: carve_def)
next
  case True
  let ?c = "b + 40 + of_nat sz" let ?s = "split_writes b ?c (of_nat sz) s" let ?bs = "xs @ (b, sz, True) # (?c, n - sz - 40, True) # ys"
  have k: "heap_ok ?s ?bs" using True by (intro heap_ok_split [OF h sz(1)]) auto
  note t = heap_okD(1) [OF k]
  have nn: "fld s b H_NEXT \<in> fst ` set ?bs" if "fld s b H_NEXT \<noteq> 0"
    using dll_next_mem [OF heap_okD(2) [OF h, simplified]] that by auto
  have "same_data s (set_fld b H_FREE w ?s) x" if "x \<in> set (xs @ ys)" for x w
    using that nn by (intro same_data_trans [OF same_data_split [OF t] same_data_set [OF t]]) auto
  then show ?thesis using True heap_ok_flag [OF k, of "low32 (fld ?s b H_FREE) 0"] kmalloc_split_eq [OF h sz refl] by (auto simp: carve_def)
qed

lemma kmalloc_heap_takes:
  assumes h: "heap_ok s (xs @ (b, n, True) # ys)" and sz: "8 dvd sz" "sz \<le> n" and l: "lock_free env (heap_lock s)"
    and first: "\<forall>(b', n', f') \<in> set xs. \<not> (f' \<and> sz \<le> n')"
  shows "\<exists>s'. kmalloc_heap env (of_nat sz) s = Inr (b + 40, s') \<and> heap_ok s' (xs @ carve sz b n @ ys) \<and> lock_free env (heap_lock s') \<and>
    (\<forall>k < sz div 8. fld s' (b + 40) (8 * of_nat k) = 0) \<and> (\<forall>x \<in> set (xs @ ys). same_data s s' x)"
proof -
  define s0 where "s0 = s\<lparr>heap_lock := spin_locked env (heap_lock s)\<rparr>"
  have h0: "heap_ok s0 (xs @ (b, n, True) # ys)" using h by (simp add: s0_def)
  have hs: "heap_start s0 = heap_start s" by (simp add: s0_def)
  note hd = heap_okD [OF h0]
  have b: "(b, n, True) \<in> set (xs @ (b, n, True) # ys)" by simp
  have nz: "b \<noteq> 0" "b + 40 \<noteq> 0" "n < 2 ^ 64" using tiled_placed [OF hd(1) b] by (auto simp: word_unat_eq_iff unat_word_ariths)
  have u: "unat (of_nat sz :: u64) = sz" using sz(2) nz(3) by (simp add: unat_of_nat)
  obtain lb where "first_fit (of_nat sz) (xs @ (b, n, True) # ys) 0 = (b, lb)"
    using first_fit_split [of xs "of_nat sz" n b ys 0] first sz(2) unfolding u by blast
  then have find: "kmalloc_find s0 (of_nat sz) (heap_start s0) 0 = Some (Inr (b, lb))"
    using kmalloc_find_eq [OF hd(2), of "of_nat sz" 0] hd(3) tiled_placed [OF hd(1)] by metis
  obtain s1 m zs where s1: "kmalloc_split b (of_nat sz) s0 = Inr s1" "(b, m, False) # zs = carve sz b n" "sz \<le> m"
      "heap_lock s1 = heap_lock s0"
    and s2: "heap_ok (set_fld b H_FREE (low32 (fld s1 b H_FREE) 0) s1) (xs @ (b, m, False) # zs @ ys)"
      "\<forall>x \<in> set (xs @ ys). same_data s0 (set_fld b H_FREE (low32 (fld s1 b H_FREE) 0) s1) x"
    using take_block [OF h0 sz] by blast
  define s2 where "s2 = set_fld b H_FREE (low32 (fld s1 b H_FREE) 0) s1"
  define s3 where "s3 = s2\<lparr>heap_lock := spin_unlock env (heap_lock s2)\<rparr>"
  have h3: "heap_ok s3 (xs @ (b, m, False) # zs @ ys)" using s2(1) by (simp add: s3_def s2_def)
  have cs: "fld s3 b H_SIZE = of_nat m" using heap_okD(3) [OF h3, of "(b, m, False)"] by simp
  obtain s4 where s4: "memset_zero (b + 40) (of_nat m) s3 = Inr s4" using memset_zero_Inr [OF nz(2)] by blast
  note z = heap_ok_memset [OF h3 s4]
  have "kmalloc_heap env (of_nat sz) s = Inr (b + 40, s4)"
    using nz(1) find s1(1) s4 cs hs
    by (simp add: kmalloc_heap_def spin_lock_free [OF l] Let_def mem_simps converge_def s3_def s2_def flip: s0_def)
  moreover have "heap_ok s4 (xs @ carve sz b n @ ys)" using z(1) by (simp flip: s1(2))
  moreover have "lock_free env (heap_lock s4)"
    using memset_zero_frame(1) [OF s4] s1(4) l by (simp add: s3_def s2_def s0_def)
  moreover have "fld s4 (b + 40) (8 * of_nat k) = 0" if "k < sz div 8" for k
    using that div_le_mono [OF s1(3), of 8] by (intro z(3)) simp
  moreover have "same_data s s4 x" if x: "x \<in> set (xs @ ys)" for x
  proof -
    have "same_data s s3 x" using s2(2) x by (simp add: s3_def s2_def s0_def)
    then show ?thesis by (rule same_data_trans [OF _ z(2)]) (use x in auto)
  qed
  ultimately show ?thesis by blast
qed

lemma unat_round16: "unat sz + 15 < 2 ^ 64 \<Longrightarrow> unat ((sz + 15) AND NOT 15 :: u64) = (unat sz + 15) div 16 * 16"
  by (simp add: unat_and_neg_16 unat_word_ariths mult.commute)

text \<open>
  C8. A request of more than 2048 bytes gets the first free block of the heap that holds it, rounded up to a multiple of 16. What is
  left of the block becomes a free block of its own if it can hold a header and 16 bytes. The memory handed out is zero, the memory of every
  other block keeps its contents, and the heap is well formed again: its blocks are disjoint, properly linked in both directions and
  described by their headers.
\<close>

theorem kmalloc_first_fit:
  assumes h: "heap_ok s (xs @ (b, n, True) # ys)" and l: "lock_free env (heap_lock s)" and sz: "2048 < sz" "r = (unat sz + 15) div 16 * 16" "r \<le> n"
    and first: "\<forall>(b', n', f') \<in> set xs. \<not> (f' \<and> r \<le> n')"
  shows "\<exists>s'. kmalloc env sz s = Inr (b + 40, s') \<and> heap_ok s' (xs @ carve r b n @ ys) \<and> lock_free env (heap_lock s') \<and>
    (\<forall>k < r div 8. fld s' (b + 40) (8 * of_nat k) = 0) \<and> (\<forall>x \<in> set (xs @ ys). same_data s s' x)"
proof -
  have "placed (b, n, True)" using heap_okD(1) [OF h] by (simp add: tiled_append)
  moreover have "unat sz \<le> r" unfolding sz(2) by presburger
  ultimately have "unat sz + 15 < 2 ^ 64" using sz(3) by simp
  then have "(sz + 15) AND NOT 15 = of_nat r" using arg_cong [OF unat_round16 [of sz], of "of_nat :: nat \<Rightarrow> u64"] sz(2) by simp
  moreover have "\<not> sz \<le> 2048" "sz \<noteq> 0" using sz(1) by auto
  moreover have "8 dvd r" using sz(2) by presburger
  ultimately show ?thesis using kmalloc_heap_takes [OF h _ sz(3) l first] by (simp add: kmalloc_def)
qed

text \<open>A heap of one page.\<close>

definition small_heap :: kernel_state where
  "small_heap = blank_kernel\<lparr>heap_start := 0x2000, pt_mem := (\<lambda>_. 0)(0x2000 := 0xCAFEBABE, 0x2008 := 4056, 0x2010 := 1)\<rparr>"

lemma small_heap_ok: "heap_ok small_heap [(0x2000, 4056, True)]"
  by (simp add: heap_ok_def small_heap_def fld_def ptr_phys_def blank_kernel_def)

theorem kmalloc_first_fit_witness:
  "\<exists>s'. kmalloc env0 3000 small_heap = Inr (0x2028, s') \<and> heap_ok s' [(0x2000, 3008, False), (0x2BE8, 1008, True)]"
proof -
  have "lock_free env0 (heap_lock small_heap)" by (simp add: lock_free_def small_heap_def blank_kernel_def env0_def spinlock_init_def)
  from kmalloc_first_fit [of small_heap "[]" "0x2000" 4056 "[]", OF _ this, of 3000 3008]
  show ?thesis using small_heap_ok by (auto simp: carve_def)
qed

section \<open>Merging blocks\<close>

definition join_writes :: "u64 \<Rightarrow> u64 \<Rightarrow> 'a vmm_state_scheme \<Rightarrow> 'a vmm_state_scheme" where
  "join_writes b c s =
     (let s2 = set_fld b H_NEXT (fld s c H_NEXT) (set_fld b H_SIZE (fld s b H_SIZE + (fld s c H_SIZE + 40)) s)
      in if fld s c H_NEXT \<noteq> 0 then set_fld (fld s c H_NEXT) H_PREV b s2 else s2)"

lemma join_writes_frame [simp]:
  "heap_lock (join_writes b c s) = heap_lock s" "heap_start (join_writes b c s) = heap_start s"
  by (simp_all add: join_writes_def Let_def)

lemma fld_join_writes:
  assumes t: "tiled bs" and m: "b \<in> fst ` set bs" "fld s c H_NEXT \<noteq> 0 \<Longrightarrow> fld s c H_NEXT \<in> fst ` set bs"
    and y: "y \<in> fst ` set bs" "is_off k"
  shows "fld (join_writes b c s) y k =
    (if y = fld s c H_NEXT \<and> k = H_PREV then b else if y = b \<and> k = H_NEXT then fld s c H_NEXT
     else if y = b \<and> k = H_SIZE then fld s b H_SIZE + (fld s c H_SIZE + 40) else fld s y k)"
  using y m tiled_nonzero [OF t y(1)] by (simp add: join_writes_def Let_def fld_set_head [OF t])

lemma same_data_join:
  assumes t: "tiled bs" and m: "b \<in> fst ` set bs" "fld s c H_NEXT \<noteq> 0 \<Longrightarrow> fld s c H_NEXT \<in> fst ` set bs" and x: "x \<in> set bs"
  shows "same_data s (join_writes b c s) x"
  unfolding join_writes_def Let_def using same_data_set [OF t _ _ x] m
  by (auto intro!: same_data_trans [OF _ same_data_set [OF t _ _ x]] same_data_refl)

lemma tiled_join:
  assumes t: "tiled (xs @ (b, n, f) # (c, m, g) # ys)" and c: "c = b + 40 + of_nat n"
  shows "tiled (xs @ (b, n + 40 + m, f') # ys)"
proof -
  have p: "placed (b, n, f)" "placed (c, m, g)" using t by (simp_all add: tiled_append)
  have u: "unat c = unat b + 40 + n" using p(1) unfolding c by (simp add: unat_word_ariths unat_of_nat)
  have "placed (b, n + 40 + m, f')" using p u by auto
  moreover have "span (b, n + 40 + m, f') \<subseteq> span (b, n, f) \<union> span (c, m, g)" using u by auto
  ultimately show ?thesis using tiled_replace [of xs "[(b, n, f), (c, m, g)]" ys "[(b, n + 40 + m, f')]"] t by (simp del: span.simps)
qed

lemma heap_ok_join:
  assumes h: "heap_ok s (xs @ (b, n, True) # (c, m, True) # ys)" and c: "c = b + 40 + of_nat n"
  shows "heap_ok (join_writes b c s) (xs @ (b, n + 40 + m, True) # ys)" (is "heap_ok ?s ?bs")
    "\<And>x. x \<in> set (xs @ (b, n, True) # (c, m, True) # ys) \<Longrightarrow> same_data s (join_writes b c s) x"
proof -
  let ?old = "xs @ (b, n, True) # (c, m, True) # ys"
  note hd = heap_okD [OF h]
  have t: "tiled ?bs" by (rule tiled_join [OF hd(1) c])
  have d: "distinct (map fst ?old)" by (rule tiled_distinct [OF hd(1)])
  have l: "links s (heap_start s) ((map fst xs @ [b]) @ c # map fst ys)" using hd(2) by simp
  have nn: "fld s c H_NEXT \<in> fst ` set ys" if "fld s c H_NEXT \<noteq> 0" using dll_next_mem [OF l that] by simp
  have m: "b \<in> fst ` set ?old" "fld s c H_NEXT \<noteq> 0 \<Longrightarrow> fld s c H_NEXT \<in> fst ` set ?old" using nn by auto
  note f = fld_join_writes [OF hd(1) m]
  show "\<And>x. x \<in> set ?old \<Longrightarrow> same_data s ?s x" by (rule same_data_join [OF hd(1) m])
  show "heap_ok ?s ?bs"
  proof (rule heap_okI [OF t])
    have pc: "fld s c H_PREV = b" "b \<noteq> 0" using dseg_split(2) [OF l] tiled_nonzero [OF hd(1) m(1)] by simp_all
    have "heap_start s \<noteq> c" using l d by (cases xs) auto
    then have i: "dll (unlink_next (\<lambda>y. fld s y H_NEXT) (\<lambda>y. fld s y H_PREV) c) (unlink_prev (\<lambda>y. fld s y H_NEXT) (\<lambda>y. fld s y H_PREV) c)
        (heap_start s) (map fst ?bs)"
      using dll_unlink [OF l] by simp
    have "fld ?s y H_NEXT = unlink_next (\<lambda>y. fld s y H_NEXT) (\<lambda>y. fld s y H_PREV) c y"
        "fld ?s y H_PREV = unlink_prev (\<lambda>y. fld s y H_NEXT) (\<lambda>y. fld s y H_PREV) c y" if y: "y \<in> set (map fst ?bs)" for y
    proof -
      have "y \<in> fst ` set ?old" using y by auto
      then show "fld ?s y H_NEXT = unlink_next (\<lambda>y. fld s y H_NEXT) (\<lambda>y. fld s y H_PREV) c y"
          "fld ?s y H_PREV = unlink_prev (\<lambda>y. fld s y H_NEXT) (\<lambda>y. fld s y H_PREV) c y"
        using pc tiled_nonzero [OF hd(1), of y] by (simp_all add: f unlink_next_def unlink_prev_def del: set_append)
    qed
    then have "links ?s (heap_start s) (map fst ?bs)" by (subst dseg_cong) (assumption | rule i)+
    then show "links ?s (heap_start ?s) (map fst ?bs)" by simp
    have bc: "header_ok s (b, n, True)" "header_ok s (c, m, True)" using hd(3) [of "(b, n, True)"] hd(3) [of "(c, m, True)"] by simp_all
    show "header_ok ?s (e, k, g)" if e: "(e, k, g) \<in> set ?bs" for e k g
    proof (cases "e = b")
      case True
      have "(e, k, g) = (b, n + 40 + m, True)"
        using e True eq_key_imp_eq_value [OF tiled_distinct [OF t], of b "(k, g)" "(n + 40 + m, True)"] by simp
      then show ?thesis using bc by (simp add: f [OF _ m(1)])
    next
      case False
      have o1: "(e, k, g) \<in> set ?old" using e False by auto
      have "e \<in> fst ` set ?old" by (rule image_eqI [OF _ o1]) simp
      then show ?thesis using False hd(3) [OF o1] by (simp add: f del: set_append)
    qed
  qed
qed

section \<open>Freeing\<close>

text \<open>A freed block together with its free neighbours.\<close>

fun join_next :: "u64 \<Rightarrow> nat \<Rightarrow> block list \<Rightarrow> nat \<times> block list" where
  "join_next b n ((c, m, True) # ys) = (if b + 40 + of_nat n = c then (n + 40 + m, ys) else (n, (c, m, True) # ys))"
| "join_next b n ys = (n, ys)"

definition join_prev :: "block list \<Rightarrow> u64 \<Rightarrow> nat \<Rightarrow> block list \<Rightarrow> block list" where
  "join_prev xs b n ys =
     (if xs = [] then (b, n, True) # ys
      else case last xs of (a, k, f) \<Rightarrow>
        if f \<and> a + 40 + of_nat k = b then butlast xs @ (a, k + 40 + n, True) # ys else xs @ (b, n, True) # ys)"

definition coalesce :: "block list \<Rightarrow> u64 \<Rightarrow> nat \<Rightarrow> block list \<Rightarrow> block list" where
  "coalesce xs b n ys = (case join_next b n ys of (n', ys') \<Rightarrow> join_prev xs b n' ys')"

lemma join_next_kept: "join_next b n ys = (n', ys') \<Longrightarrow> x \<in> set ys \<Longrightarrow> \<not> snd (snd x) \<Longrightarrow> x \<in> set ys'"
  by (cases "(b, n, ys)" rule: join_next.cases) (auto split: if_splits)

lemma merge_next:
  assumes h: "heap_ok s (xs @ (b, n, True) # ys)"
  shows "\<exists>s'. kfree_merge_next b s = Inr s' \<and> heap_lock s' = heap_lock s \<and> (\<forall>x \<in> set (xs @ ys). same_data s s' x) \<and>
    (case join_next b n ys of (n', ys') \<Rightarrow> heap_ok s' (xs @ (b, n', True) # ys'))"
proof (cases ys)
  case Nil
  have "fld s b H_NEXT = 0" "b \<noteq> 0" using heap_okD(2,4) [OF h] Nil by (auto simp: dseg_append)
  then show ?thesis using h Nil by (simp add: kfree_merge_next_def mem_simps same_data_refl)
next
  case (Cons y zs)
  obtain c m g where y: "y = (c, m, g)" by (cases y)
  note hd = heap_okD [OF h [unfolded Cons y]]
  have l: "fld s b H_NEXT = c" using hd(2) by (auto simp: dseg_append)
  have hb: "header_ok s (b, n, True)" "header_ok s (c, m, g)" using hd(3) [of "(b, n, True)"] hd(3) [of "(c, m, g)"] by simp_all
  have nz: "b \<noteq> 0" "c \<noteq> 0" using hd(4) by auto
  show ?thesis
  proof (cases "g \<and> b + 40 + of_nat n = c")
    case False
    then show ?thesis using h hb nz l Cons y by (cases g) (auto simp: kfree_merge_next_def mem_simps same_data_refl)
  next
    case True
    then have k: "heap_ok s (xs @ (b, n, True) # (c, m, True) # zs)" using h Cons y by simp
    have m: "b \<in> fst ` set (xs @ (b, n, True) # (c, m, True) # zs)" "c \<in> fst ` set (xs @ (b, n, True) # (c, m, True) # zs)" "b \<noteq> c"
      using tiled_distinct [OF heap_okD(1) [OF k]] by simp_all
    note f = fld_set_head [OF heap_okD(1) [OF k] m(1) m(2)] fld_set_head [OF heap_okD(1) [OF k] m(1) m(1)]
    have "kfree_merge_next b s = Inr (join_writes b c s)"
      using True hb nz l m(3) by (simp add: kfree_merge_next_def mem_simps join_writes_def Let_def f)
    then show ?thesis using heap_ok_join [OF k] True Cons y by (auto simp del: same_data.simps)
  qed
qed

lemma merge_prev:
  assumes h: "heap_ok s (xs @ (b, n, True) # ys)"
  shows "\<exists>s'. kfree_merge_prev b s = Inr s' \<and> heap_lock s' = heap_lock s \<and> (\<forall>x \<in> set (xs @ ys). same_data s s' x) \<and>
    heap_ok s' (join_prev xs b n ys)"
proof (cases xs rule: rev_cases)
  case Nil
  have "fld s b H_PREV = 0" "b \<noteq> 0" using heap_okD(2,4) [OF h] Nil by (auto simp: dseg_append)
  then show ?thesis using h Nil by (simp add: kfree_merge_prev_def mem_simps same_data_refl join_prev_def)
next
  case (snoc zs y)
  obtain a m g where y: "y = (a, m, g)" by (cases y)
  note hd = heap_okD [OF h [unfolded snoc y]]
  have l: "fld s b H_PREV = a" using hd(2) by (auto simp: dseg_append split: if_splits)
  have hb: "header_ok s (b, n, True)" "header_ok s (a, m, g)" using hd(3) [of "(b, n, True)"] hd(3) [of "(a, m, g)"] by simp_all
  have nz: "b \<noteq> 0" "a \<noteq> 0" using hd(4) by auto
  show ?thesis
  proof (cases "g \<and> a + 40 + of_nat m = b")
    case False
    then show ?thesis using h hb nz l snoc y by (cases g) (auto simp: kfree_merge_prev_def mem_simps same_data_refl join_prev_def)
  next
    case True
    then have k: "heap_ok s (zs @ (a, m, True) # (b, n, True) # ys)" using h snoc y by simp
    have i: "a \<in> fst ` set (zs @ (a, m, True) # (b, n, True) # ys)" "b \<in> fst ` set (zs @ (a, m, True) # (b, n, True) # ys)" "a \<noteq> b"
      using tiled_distinct [OF heap_okD(1) [OF k]] by simp_all
    note f = fld_set_head [OF heap_okD(1) [OF k] i(1) i(2)]
    have "kfree_merge_prev b s = Inr (join_writes a b s)"
      using True hb nz l i(3) by (simp add: kfree_merge_prev_def mem_simps join_writes_def Let_def f)
    then show ?thesis using heap_ok_join [OF k] True snoc y by (auto simp: join_prev_def simp del: same_data.simps)
  qed
qed

lemma heap_pointer:
  assumes "placed (b, n, f)"
  shows "b + 40 \<noteq> 0" "(b + 40) AND NOT 0xFFF \<noteq> 0"
proof -
  have "4096 \<le> unat (b + 40)" using assms by (simp add: unat_word_ariths)
  then have "unat (b + 40) \<noteq> 0" "unat ((b + 40) AND - 4096) \<noteq> 0" unfolding unat_and_neg_4096 by simp_all
  then show "b + 40 \<noteq> 0" "(b + 40) AND NOT 0xFFF \<noteq> 0" by (simp_all add: unat_eq_0)
qed


text \<open>A heap of three blocks of which the middle one is in use.\<close>

definition full_heap :: kernel_state where
  "full_heap = blank_kernel\<lparr>heap_start := 0x2000, pt_mem := (\<lambda>_. 0)
     (0x2000 := 0xCAFEBABE, 0x2008 := 0xD8, 0x2010 := 1, 0x2018 := 0x2100, 0x2020 := 0,
      0x2100 := 0xCAFEBABE, 0x2108 := 0xD8, 0x2110 := 0, 0x2118 := 0x2200, 0x2120 := 0x2000,
      0x2200 := 0xCAFEBABE, 0x2208 := 0xD8, 0x2210 := 1, 0x2218 := 0, 0x2220 := 0x2100)\<rparr>"

lemma full_heap_ok: "heap_ok full_heap [(0x2000, 216, True), (0x2100, 216, False), (0x2200, 216, True)]"
  by (simp add: heap_ok_def full_heap_def fld_def ptr_phys_def blank_kernel_def)


end
