(* ===== verification/Spec2Isabelle.thy ===== *)
theory Spec2Isabelle
  imports Vmm_Progress Dll Io_Format_Proofs Serial_Proofs Sched_Wake Std_Funcs_Proofs Kernel_Main Boot_Loader Entry_Calls
    User_Prog_Proofs Vma_Proofs Mutex_Proofs Initrd_Proofs Kmalloc_Proofs
begin

text \<open>
  Verification of the x86_64 SMP kernel. The kernel boots from a UEFI loader that hands over a
  \<^verbatim>\<open>BootInfo\<close>; it sets up physical memory, paging, the kernel heap and the interrupt tables,
  starts the other CPUs and then runs kernel and user tasks under a multilevel scheduler.
\<close>

end
